theory Spec2Isabelle
  imports Main "HOL-Library.AList"
begin

section \<open>Data model\<close>

text \<open>
  A transport record (\<open>nostr.Event\<close>): tags are an ordered sequence of string sequences,
  timestamps are 64-bit signed seconds, kept as integers.
\<close>

type_synonym Tag = "string list"

record nostr_event =
  ID :: string
  PubKey :: string
  CreatedAt :: int
  Kind :: int
  Tags :: "Tag list"
  Content :: string
  Sig :: string

text \<open>The parsed identifier (\<open>Identifier\<close>); \<open>IdPubKey\<close> and \<open>IdKind\<close> are its
  \<open>PubKey\<close> and \<open>Kind\<close> fields.\<close>

record Identifier =
  TagD :: string
  Network :: string
  IdPubKey :: string
  IdKind :: int
  Opts :: "string list"

text \<open>The wrapped event (\<open>Event\<close>); \<open>id_cache\<close> is its private field \<open>id\<close>, a
  pointer that is nil until the identifier has been computed.\<close>

record Event =
  NostrEvent :: nostr_event
  kind :: int
  finalized :: bool
  id_cache :: "Identifier option"

definition KindLightningInformation :: int where
  "KindLightningInformation = 38171"

definition KindNodeAnnouncement :: int where
  "KindNodeAnnouncement = 0"

definition KindNodeInfo :: int where
  "KindNodeInfo = 1"

definition MaxContentSize :: nat where
  "MaxContentSize = 1 * 1024 * 1024"

definition EventGracePeriodSeconds :: int where
  "EventGracePeriodSeconds = 600"

text \<open>
  Errors are values. Each \<open>fmt.Errorf\<close> of the source is one constructor; the four
  messages of \<open>GetIdentifier\<close> share \<open>MalformedTag\<close> and are told apart by its argument.
  The wrapping calls (\<open>fmt.Errorf("...: %w", err)\<close>) are the constructors that take an error.
\<close>

datatype tag_problem = MissingD | MissingK | KindNotInt | TooFewParts

datatype error =
    MalformedTag tag_problem
  | DuplicateTag string
  | FutureTimestamp
  | IdentityMismatch
  | ContentTooLarge
  | InvalidNetwork string
  | KindMismatch
  | BadIdentitySignature
  | MultipleSignatures
  | NoSignature
  | DecodeFailure
  | RecoveryFailure
  | KeyMismatch
  | NotFinalized
  | DuplicateSignature
  | SignerFailure
  | StaleAnnouncement
  | UntrustedSigner
  | StaleRecord
  | Cancelled
  | GettingIdentifier error
  | CreatingEvent error
  | InvalidEvent string "error option"
  | StoringFailed string error
  | FetchingAnnouncements error
  | FetchingKind int error
  | SigningWithLn error
  | SigningWithNostr error
  | FinalizingEvent error
  | SigningEvent error
  | VerifyingBeforePublish "error option"

section \<open>Library functions the code calls\<close>

subsection \<open>strconv.Atoi and strconv.Itoa\<close>

definition in_int64 :: "int \<Rightarrow> bool" where
  "in_int64 v = (- (2 ^ 63) \<le> v \<and> v < 2 ^ 63)"

definition decimal_digits :: string where
  "decimal_digits = ''0123456789''"

fun position :: "'a \<Rightarrow> 'a list \<Rightarrow> nat option" where
  "position x [] = None"
| "position x (y # ys) = (if x = y then Some 0 else map_option Suc (position x ys))"

definition digit_val :: "char \<Rightarrow> nat option" where
  "digit_val c = position c decimal_digits"

definition digit_char :: "nat \<Rightarrow> char" where
  "digit_char d = decimal_digits ! d"

text \<open>The digits of a string, most significant first, folded into the accumulator;
  \<open>None\<close> at the first character that is not a decimal digit.\<close>

fun parse_digits :: "string \<Rightarrow> nat \<Rightarrow> nat option" where
  "parse_digits [] acc = Some acc"
| "parse_digits (c # cs) acc =
     (case digit_val c of None \<Rightarrow> None | Some d \<Rightarrow> parse_digits cs (acc * 10 + d))"

text \<open>
  \<open>strconv.Atoi\<close>: an optional sign, then at least one decimal digit and nothing else;
  a value outside the 64-bit \<open>int\<close> is a range error. \<open>None\<close> is the error.
\<close>

definition Atoi :: "string \<Rightarrow> int option" where
  "Atoi s =
     (case s of
        [] \<Rightarrow> None
      | c # cs \<Rightarrow>
          (let neg = (c = CHR ''-'');
               ds = (if c = CHR ''-'' \<or> c = CHR ''+'' then cs else s)
           in if ds = [] then None
              else (case parse_digits ds 0 of
                      None \<Rightarrow> None
                    | Some n \<Rightarrow>
                        (let v = (if neg then - int n else int n)
                         in if in_int64 v then Some v else None))))"

function nat_digits :: "nat \<Rightarrow> string" where
  "nat_digits n =
     (if n < 10 then [digit_char n] else nat_digits (n div 10) @ [digit_char (n mod 10)])"
  by pat_completeness auto
termination
  by (relation "measure (\<lambda>n. n)") auto

declare nat_digits.simps [simp del]

text \<open>\<open>strconv.Itoa\<close>: the decimal rendering, with a minus sign for a negative number.\<close>

definition Itoa :: "int \<Rightarrow> string" where
  "Itoa i = (if i < 0 then CHR ''-'' # nat_digits (nat (- i)) else nat_digits (nat i))"

text \<open>The canonical decimal strings: \<open>0\<close>, or digits without a leading zero, with or
  without a minus sign. They are the strings that \<open>Itoa\<close> produces.\<close>

definition digits_no_leading_zero :: "string \<Rightarrow> bool" where
  "digits_no_leading_zero ds = (ds \<noteq> [] \<and> hd ds \<noteq> CHR ''0'' \<and> set ds \<subseteq> set decimal_digits)"

definition canonical_decimal :: "string \<Rightarrow> bool" where
  "canonical_decimal s =
     (s = ''0'' \<or> digits_no_leading_zero s \<or>
      (s \<noteq> [] \<and> hd s = CHR ''-'' \<and> digits_no_leading_zero (tl s)))"

subsection \<open>strings.Split and strings.Join\<close>

text \<open>\<open>strings.Split(s, ":")\<close> with a one-character separator: never an empty result,
  a string without the separator is its own single part.\<close>

fun Split :: "string \<Rightarrow> char \<Rightarrow> string list" where
  "Split [] sep = [[]]"
| "Split (x # xs) sep =
     (if x = sep then [] # Split xs sep
      else (case Split xs sep of [] \<Rightarrow> [[x]] | p # ps \<Rightarrow> (x # p) # ps))"

fun Join :: "string list \<Rightarrow> string \<Rightarrow> string" where
  "Join [] sep = []"
| "Join [p] sep = p"
| "Join (p # q # ps) sep = p @ sep @ Join (q # ps) sep"

subsection \<open>Tags.Find and Tags.FindAll\<close>

text \<open>
  The transport library's \<open>Tags.Find(key)\<close> returns the first tag that has the given name
  and at least one value (two items or more), nil when there is none; \<open>Tags.FindAll(key)\<close>
  yields all such tags in order.
\<close>

definition tag_matches :: "string \<Rightarrow> Tag \<Rightarrow> bool" where
  "tag_matches key v = (2 \<le> length v \<and> hd v = key)"

definition Find :: "Tag list \<Rightarrow> string \<Rightarrow> Tag option" where
  "Find tags key = List.find (tag_matches key) tags"

definition FindAll :: "Tag list \<Rightarrow> string \<Rightarrow> Tag list" where
  "FindAll tags key = filter (tag_matches key) tags"

section \<open>The record and identifier model\<close>

text \<open>\<open>copyWithoutSig\<close>: a fresh record with the tags named \<open>sig\<close> left out; the copy has
  no ID and no signature.\<close>

definition is_sig_tag :: "Tag \<Rightarrow> bool" where
  "is_sig_tag tag = (0 < length tag \<and> hd tag = ''sig'')"

definition copyWithoutSig :: "Event \<Rightarrow> nostr_event" where
  "copyWithoutSig e =
     \<lparr>ID = [], PubKey = PubKey (NostrEvent e), CreatedAt = CreatedAt (NostrEvent e),
      Kind = Kind (NostrEvent e),
      Tags = filter (\<lambda>tag. \<not> is_sig_tag tag) (Tags (NostrEvent e)),
      Content = Content (NostrEvent e), Sig = []\<rparr>"

text \<open>\<open>Hash\<close>: the transport's content-addressed identifier \<open>GetID\<close> of that copy. \<open>GetID\<close>
  is the library's; it is the parameter \<open>getID\<close>.\<close>

definition Hash :: "(nostr_event \<Rightarrow> 'h) \<Rightarrow> Event \<Rightarrow> 'h" where
  "Hash getID e = getID (copyWithoutSig e)"

text \<open>The body of \<open>GetIdentifier\<close> behind its cache test: the identifier read from the
  tags of the record.\<close>

definition parseIdentifier :: "nostr_event \<Rightarrow> error + Identifier" where
  "parseIdentifier ev =
     (case Find (Tags ev) ''d'' of
        None \<Rightarrow> Inl (MalformedTag MissingD)
      | Some tagD \<Rightarrow>
          if length tagD < 2 then Inl (MalformedTag MissingD)
          else (case Find (Tags ev) ''k'' of
             None \<Rightarrow> Inl (MalformedTag MissingK)
           | Some tagK \<Rightarrow>
               if length tagK < 2 then Inl (MalformedTag MissingK)
               else (case Atoi (tagK ! 1) of
                  None \<Rightarrow> Inl (MalformedTag KindNotInt)
                | Some kindInt \<Rightarrow>
                    if kindInt = KindNodeAnnouncement
                    then Inr \<lparr>TagD = tagD ! 1, Network = [], IdPubKey = tagD ! 1,
                              IdKind = kindInt, Opts = []\<rparr>
                    else (let parts = Split (tagD ! 1) (CHR '':'')
                          in if length parts < 3 then Inl (MalformedTag TooFewParts)
                             else Inr \<lparr>TagD = tagD ! 1, Network = parts ! 2,
                                       IdPubKey = parts ! 1, IdKind = kindInt,
                                       Opts = drop 3 parts\<rparr>))))"

text \<open>\<open>GetIdentifier\<close>: the cached identifier when there is one, else the parsed one,
  which is then cached in the event. The event is returned with its cache.\<close>

definition GetIdentifier :: "Event \<Rightarrow> error + (Identifier \<times> Event)" where
  "GetIdentifier e =
     (case id_cache e of
        Some i \<Rightarrow> Inr (i, e)
      | None \<Rightarrow>
          (case parseIdentifier (NostrEvent e) of
             Inl err \<Rightarrow> Inl err
           | Inr i \<Rightarrow> Inr (i, e\<lparr>id_cache := Some i\<rparr>)))"

text \<open>The cache of an event is coherent when it is empty or holds the identifier of the
  event's tags. \<open>GetIdentifier\<close> is the only writer of the cache, so this fails only for
  an event whose record was changed after its identifier had been read.\<close>

definition cache_coherent :: "Event \<Rightarrow> bool" where
  "cache_coherent e =
     (case id_cache e of None \<Rightarrow> True | Some i \<Rightarrow> parseIdentifier (NostrEvent e) = Inr i)"

text \<open>\<^verbatim>\<open>&Event{NostrEvent: ev}\<close>: the other fields have their zero values.\<close>

definition wrapRecord :: "nostr_event \<Rightarrow> Event" where
  "wrapRecord ev = \<lparr>NostrEvent = ev, kind = 0, finalized = False, id_cache = None\<rparr>"

definition NewEventFromNostrRelay :: "nostr_event \<Rightarrow> error + Event" where
  "NewEventFromNostrRelay ev =
     (case GetIdentifier (wrapRecord ev) of
        Inl err \<Rightarrow> Inl (GettingIdentifier err)
      | Inr (i, e) \<Rightarrow> Inr (e\<lparr>kind := IdKind i, finalized := True\<rparr>))"

text \<open>\<open>Finalize\<close>: refuses a record that already has a \<open>d\<close> or a \<open>k\<close> tag, else appends both
  and sets the wire kind.\<close>

definition Finalize :: "Event \<Rightarrow> string \<Rightarrow> string \<Rightarrow> int \<Rightarrow> string list \<Rightarrow> error + Event" where
  "Finalize e network pubkey knd opts =
     (let ev = NostrEvent e in
      if Find (Tags ev) ''d'' \<noteq> None then Inl (DuplicateTag ''d'')
      else if Find (Tags ev) ''k'' \<noteq> None then Inl (DuplicateTag ''k'')
      else
        (let kindStr = Itoa knd;
             tagD = (if knd = KindNodeAnnouncement then pubkey
                     else Join ([kindStr, pubkey, network] @ opts) '':'')
         in Inr (e\<lparr>NostrEvent := ev\<lparr>Kind := KindLightningInformation,
                                       Tags := Tags ev @ [[''d'', tagD], [''k'', kindStr]]\<rparr>,
                   kind := knd, finalized := True\<rparr>)))"

text \<open>\<open>Finalize\<close> followed by \<open>GetIdentifier\<close> on the finalized event.\<close>

definition finalizeThenParse ::
  "Event \<Rightarrow> string \<Rightarrow> string \<Rightarrow> int \<Rightarrow> string list \<Rightarrow> error + Identifier" where
  "finalizeThenParse e network pubkey knd opts =
     (case Finalize e network pubkey knd opts of
        Inl err \<Rightarrow> Inl err
      | Inr e' \<Rightarrow> (case GetIdentifier e' of Inl err \<Rightarrow> Inl err | Inr (i, e'') \<Rightarrow> Inr i))"

definition IsFinalized :: "Event \<Rightarrow> bool" where
  "IsFinalized e = finalized e"

definition RequiresLnSignature :: "Event \<Rightarrow> bool" where
  "RequiresLnSignature e = (kind e = KindNodeAnnouncement)"

definition IsValidNetwork :: "string \<Rightarrow> bool" where
  "IsValidNetwork network =
     (network = ''mainnet'' \<or> network = ''testnet'' \<or> network = ''testnet4'' \<or>
      network = ''signet'' \<or> network = ''simnet'' \<or> network = ''regtest'')"

section \<open>Verification\<close>

text \<open>
  What the code takes from its libraries and from the clock is a field of the environment:
  \<open>Now\<close> is \<open>nostr.Now()\<close>, \<open>GetID\<close> and \<open>CheckSignature\<close> are the transport's functions of
  those names on a record, \<open>zbase32_DecodeString\<close> and \<open>DoubleHashB\<close> are the decoder and the
  double SHA-256, and \<open>RecoverCompact\<close> gives the hex of the compressed public key that
  \<open>ecdsa.RecoverCompact\<close> recovers from a signature and a digest. \<open>None\<close> is an error
  return.
\<close>

record env =
  Now :: int
  GetID :: "nostr_event \<Rightarrow> string"
  CheckSignature :: "nostr_event \<Rightarrow> bool \<times> error option"
  zbase32_DecodeString :: "string \<Rightarrow> string option"
  DoubleHashB :: "string \<Rightarrow> string"
  RecoverCompact :: "string \<Rightarrow> string \<Rightarrow> string option"

text \<open>Addition of 64-bit signed integers wraps around.\<close>

definition wrap64 :: "int \<Rightarrow> int" where
  "wrap64 x = (x + 2 ^ 63) mod 2 ^ 64 - 2 ^ 63"

definition signedMsgPrefix :: string where
  "signedMsgPrefix = ''Lightning Signed Message:''"

definition checkLightningSig :: "env \<Rightarrow> Event \<Rightarrow> string \<Rightarrow> bool \<times> error option" where
  "checkLightningSig en e pubKeyID =
     (let sigs = FindAll (Tags (NostrEvent e)) ''sig'' in
      if length sigs > 1 then (False, Some MultipleSignatures)
      else if length sigs = 0 then (False, Some NoSignature)
      else
        (let sig = (sigs ! 0) ! 1 in
         case zbase32_DecodeString en sig of
           None \<Rightarrow> (False, Some DecodeFailure)
         | Some sg \<Rightarrow>
             (let msg = Hash (GetID en) e;
                  b = DoubleHashB en (signedMsgPrefix @ msg)
              in case RecoverCompact en sg b of
                   None \<Rightarrow> (False, Some RecoveryFailure)
                 | Some pubKeyHex \<Rightarrow>
                     if pubKeyHex \<noteq> pubKeyID then (False, Some KeyMismatch)
                     else (True, None))))"

text \<open>The test of the \<open>k\<close> tag in \<open>Verify\<close>:
  \<^verbatim>\<open>k == nil || len(k) < 2 || k[1] != strconv.Itoa(int(idx.Kind))\<close>.\<close>

definition kindTagMismatch :: "Event \<Rightarrow> Identifier \<Rightarrow> bool" where
  "kindTagMismatch e idx =
     (case Find (Tags (NostrEvent e)) ''k'' of
        None \<Rightarrow> True
      | Some k \<Rightarrow> length k < 2 \<or> k ! 1 \<noteq> Itoa (IdKind idx))"

text \<open>\<open>Verify\<close>. Its only effect on the event is the cached identifier, which the result
  does not show.\<close>

definition Verify :: "env \<Rightarrow> Event \<Rightarrow> bool \<times> error option" where
  "Verify en e =
     (let createdAtLimitUpper = wrap64 (Now en + EventGracePeriodSeconds) in
      if CreatedAt (NostrEvent e) > createdAtLimitUpper then (False, Some FutureTimestamp)
      else if ID (NostrEvent e) \<noteq> GetID en (NostrEvent e) then (False, Some IdentityMismatch)
      else if length (Content (NostrEvent e)) > MaxContentSize then (False, Some ContentTooLarge)
      else
        (case GetIdentifier e of
           Inl err \<Rightarrow> (False, Some err)
         | Inr (idx, e') \<Rightarrow>
             if IdKind idx \<noteq> KindNodeAnnouncement \<and> \<not> IsValidNetwork (Network idx)
             then (False, Some (InvalidNetwork (Network idx)))
             else
               if kindTagMismatch e' idx then (False, Some KindMismatch)
               else
                 (let (ok, err) = CheckSignature en (NostrEvent e') in
                  if err \<noteq> None \<or> \<not> ok then (False, err)
                  else if RequiresLnSignature e'
                  then (let (ok, err) = checkLightningSig en e' (IdPubKey idx) in
                        if err \<noteq> None \<or> \<not> ok then (False, err) else (True, None))
                  else (True, None))))"

section \<open>The dual signer\<close>

text \<open>The two signers are collaborators: \<open>NostrSigner_SignEvent\<close> returns the record it was
  given with pubkey, ID and signature set, or an error; \<open>LnSigner_SignMessage\<close> returns the
  signature string of a message, or an error.\<close>

record CombinedSigner =
  NostrSigner_SignEvent :: "nostr_event \<Rightarrow> error + nostr_event"
  LnSigner_SignMessage :: "string \<Rightarrow> error + string"

definition signWithLn :: "env \<Rightarrow> CombinedSigner \<Rightarrow> Event \<Rightarrow> error + Event" where
  "signWithLn en sg ev =
     (if Find (Tags (NostrEvent ev)) ''sig'' \<noteq> None then Inl DuplicateSignature
      else (case LnSigner_SignMessage sg (Hash (GetID en) ev) of
              Inl err \<Rightarrow> Inl err
            | Inr sig \<Rightarrow>
                Inr (ev\<lparr>NostrEvent := (NostrEvent ev)\<lparr>Tags :=
                       Tags (NostrEvent ev) @ [[''sig'', sig]]\<rparr>\<rparr>)))"

definition SignEvent :: "env \<Rightarrow> CombinedSigner \<Rightarrow> Event \<Rightarrow> error + Event" where
  "SignEvent en sg ev =
     (if \<not> IsFinalized ev then Inl NotFinalized
      else (case (if RequiresLnSignature ev then signWithLn en sg ev else Inr ev) of
              Inl err \<Rightarrow> Inl (SigningWithLn err)
            | Inr ev1 \<Rightarrow>
                (case NostrSigner_SignEvent sg (NostrEvent ev1) of
                   Inl err \<Rightarrow> Inl (SigningWithNostr err)
                 | Inr signed \<Rightarrow> Inr (ev1\<lparr>NostrEvent := signed\<rparr>))))"

text \<open>
  What a valid signature of each collaborator means. The broadcast-identity signer, given
  a record that carries its pubkey, returns the record with ID and signature set, the ID
  being the one \<open>GetID\<close> computes and the signature one that \<open>CheckSignature\<close> accepts. The
  Lightning signer returns, for every message, a string that decodes and from which the
  node's pubkey is recovered over the prefixed double hash of the message.
\<close>

definition nostrSignerValid :: "env \<Rightarrow> CombinedSigner \<Rightarrow> string \<Rightarrow> bool" where
  "nostrSignerValid en sg pk =
     (\<forall>r. PubKey r = pk \<longrightarrow>
        (\<exists>signed. NostrSigner_SignEvent sg r = Inr signed \<and>
           PubKey signed = pk \<and> CreatedAt signed = CreatedAt r \<and> Kind signed = Kind r \<and>
           Tags signed = Tags r \<and> Content signed = Content r \<and>
           ID signed = GetID en signed \<and> CheckSignature en signed = (True, None)))"

definition lnSignerValid :: "env \<Rightarrow> CombinedSigner \<Rightarrow> string \<Rightarrow> bool" where
  "lnSignerValid en sg lnPubKey =
     (\<forall>msg. \<exists>sig raw. LnSigner_SignMessage sg msg = Inr sig \<and>
        zbase32_DecodeString en sig = Some raw \<and>
        RecoverCompact en raw (DoubleHashB en (signedMsgPrefix @ msg)) = Some lnPubKey)"

section \<open>The signable hash as the specification words it\<close>

text \<open>
  A tag is named by its first item. The signable hash is taken over the record without its
  tags named \<open>sig\<close>. The transport's identifier of a record is a hash over its pubkey,
  createdAt, kind, tags and content; it is collision-free when two records with the same
  identifier agree on these five.
\<close>

definition tagsNotNamedSig :: "Tag list \<Rightarrow> Tag list" where
  "tagsNotNamedSig tags = [tag \<leftarrow> tags. case tag of [] \<Rightarrow> True | name # vals \<Rightarrow> name \<noteq> ''sig'']"

definition serialized :: "nostr_event \<Rightarrow> string \<times> int \<times> int \<times> Tag list \<times> string" where
  "serialized r = (PubKey r, CreatedAt r, Kind r, Tags r, Content r)"

definition collisionFree :: "(nostr_event \<Rightarrow> 'h) \<Rightarrow> bool" where
  "collisionFree getID = (\<forall>a b. getID a = getID b \<longrightarrow> serialized a = serialized b)"

section \<open>Verification as the specification words it\<close>

text \<open>
  The ordered checks of the specification, each a pair of whether it passed and what it
  reports when it did not; verification is their first failure. Check 4 is the parsing of
  the identifier, checks 5 to 8 use the parsed identifier. Check 5 asks for one of the six
  network names. Check 7 reports what the transport's signature check returns as its error.
  Check 8 asks for exactly one tag named \<open>sig\<close> that carries a value, for a value that
  decodes, and for the key recovered from the decoded signature and the double hash of the
  prefixed signable hash to be the pubkey of the identifier.
\<close>

fun firstFailure :: "(bool \<times> error option) list \<Rightarrow> bool \<times> error option" where
  "firstFailure [] = (True, None)"
| "firstFailure ((passed, report) # rest) = (if passed then firstFailure rest else (False, report))"

definition recognisedNetworks :: "string list" where
  "recognisedNetworks = [''mainnet'', ''testnet'', ''testnet4'', ''signet'', ''simnet'', ''regtest'']"

definition sigValues :: "Tag list \<Rightarrow> string list" where
  "sigValues tags =
     concat (map (\<lambda>tag. case tag of
                          name # v # others \<Rightarrow> if name = ''sig'' then [v] else []
                        | _ \<Rightarrow> []) tags)"

definition lightningSignature_spec :: "env \<Rightarrow> Event \<Rightarrow> string \<Rightarrow> bool \<times> error option" where
  "lightningSignature_spec en e pk =
     (case sigValues (Tags (NostrEvent e)) of
        [] \<Rightarrow> (False, Some NoSignature)
      | [v] \<Rightarrow>
          (case zbase32_DecodeString en v of
             None \<Rightarrow> (False, Some DecodeFailure)
           | Some raw \<Rightarrow>
               (case RecoverCompact en raw
                       (DoubleHashB en (''Lightning Signed Message:'' @
                          GetID en \<lparr>ID = [], PubKey = PubKey (NostrEvent e),
                                     CreatedAt = CreatedAt (NostrEvent e),
                                     Kind = Kind (NostrEvent e),
                                     Tags = tagsNotNamedSig (Tags (NostrEvent e)),
                                     Content = Content (NostrEvent e), Sig = []\<rparr>)) of
                  None \<Rightarrow> (False, Some RecoveryFailure)
                | Some recovered \<Rightarrow>
                    if recovered = pk then (True, None) else (False, Some KeyMismatch)))
      | v # w # others \<Rightarrow> (False, Some MultipleSignatures))"

definition Verify_spec :: "env \<Rightarrow> Event \<Rightarrow> bool \<times> error option" where
  "Verify_spec en e =
     (let check1 = (CreatedAt (NostrEvent e) \<le> Now en + 600, Some FutureTimestamp);
          check2 = (ID (NostrEvent e) = GetID en (NostrEvent e), Some IdentityMismatch);
          check3 = (length (Content (NostrEvent e)) \<le> 1048576, Some ContentTooLarge)
      in case GetIdentifier e of
           Inl malformed \<Rightarrow> firstFailure [check1, check2, check3, (False, Some malformed)]
         | Inr (idx, cached) \<Rightarrow>
             (let check5 = (IdKind idx = KindNodeAnnouncement
                              \<or> Network idx \<in> set recognisedNetworks,
                            Some (InvalidNetwork (Network idx)));
                  check6 = (\<not> kindTagMismatch e idx, Some KindMismatch);
                  sig7 = CheckSignature en (NostrEvent e);
                  check7 = (fst sig7 \<and> snd sig7 = None, snd sig7);
                  sig8 = lightningSignature_spec en e (IdPubKey idx);
                  check8 = (if kind e = KindNodeAnnouncement
                            then (fst sig8 \<and> snd sig8 = None, snd sig8) else (True, None))
              in firstFailure [check1, check2, check3, (True, None), check5, check6, check7, check8]))"

section \<open>The trust store\<close>

text \<open>
  The two maps of the store are association lists (their order stands for the iteration
  order of the source's maps, which is unspecified). The source keeps pointers to node
  states and events; no pointer is shared between two nodes or two slots, so the model
  keeps the values. The locks are not modelled: every call runs to its end alone.
\<close>

record announcementState =
  createdAt :: int
  pub :: string

record nodeState =
  lastAnnouncement :: announcementState
  events :: "(string \<times> Event) list"

record MapStore =
  records :: "(string \<times> nodeState) list"

definition newNodeState :: nodeState where
  "newNodeState = \<lparr>lastAnnouncement = \<lparr>createdAt = 0, pub = []\<rparr>, events = []\<rparr>"

definition NewMapStore :: MapStore where
  "NewMapStore = \<lparr>records = []\<rparr>"

text \<open>\<open>getNodeState\<close>: the node state of the pubkey, created empty when there is none.\<close>

definition getNodeState :: "MapStore \<Rightarrow> string \<Rightarrow> nodeState \<times> MapStore" where
  "getNodeState s pubkey =
     (case map_of (records s) pubkey of
        Some ns \<Rightarrow> (ns, s)
      | None \<Rightarrow> (newNodeState, s\<lparr>records := AList.update pubkey newNodeState (records s)\<rparr>))"

definition registerAnnouncement ::
  "nodeState \<Rightarrow> Event \<Rightarrow> Identifier \<Rightarrow> error option \<times> nodeState" where
  "registerAnnouncement ns ev i =
     (if createdAt (lastAnnouncement ns) \<ge> CreatedAt (NostrEvent ev)
      then (Some StaleAnnouncement, ns)
      else
        (let evs = (if pub (lastAnnouncement ns) \<noteq> PubKey (NostrEvent ev) then []
                    else events ns)
         in (None, ns\<lparr>events := AList.update (TagD i) ev evs,
                       lastAnnouncement := \<lparr>createdAt = CreatedAt (NostrEvent ev),
                                            pub = PubKey (NostrEvent ev)\<rparr>\<rparr>)))"

definition storeRegularEvent ::
  "nodeState \<Rightarrow> Event \<Rightarrow> Identifier \<Rightarrow> error option \<times> nodeState" where
  "storeRegularEvent ns ev i =
     (if pub (lastAnnouncement ns) \<noteq> PubKey (NostrEvent ev)
      then (Some UntrustedSigner, ns)
      else
        (case map_of (events ns) (TagD i) of
           Some lastRecord \<Rightarrow>
             if CreatedAt (NostrEvent lastRecord) \<ge> CreatedAt (NostrEvent ev)
             then (Some StaleRecord, ns)
             else (None, ns\<lparr>events := AList.update (TagD i) ev (events ns)\<rparr>)
         | None \<Rightarrow> (None, ns\<lparr>events := AList.update (TagD i) ev (events ns)\<rparr>)))"

text \<open>\<open>StoreEvent\<close>: the node state that the source mutates through its pointer is written
  back into the store. The stored event is the event with its identifier cached.\<close>

definition StoreEvent :: "MapStore \<Rightarrow> Event \<Rightarrow> error option \<times> MapStore" where
  "StoreEvent s ev =
     (case GetIdentifier ev of
        Inl err \<Rightarrow> (Some err, s)
      | Inr (i, ev') \<Rightarrow>
          (let (ns, s1) = getNodeState s (IdPubKey i);
               (r, ns') = (if kind ev' = KindNodeAnnouncement
                           then registerAnnouncement ns ev' i
                           else storeRegularEvent ns ev' i)
           in (r, s1\<lparr>records := AList.update (IdPubKey i) ns' (records s1)\<rparr>)))"



text \<open>The node state a call for the pubkey works on: the stored one, or the empty one
  that \<open>getNodeState\<close> creates.\<close>

definition nodeOf :: "MapStore \<Rightarrow> string \<Rightarrow> nodeState" where
  "nodeOf s pubkey = fst (getNodeState s pubkey)"

section \<open>The sync pipeline\<close>









text \<open>\<open>Publish\<close>, up to the hand-over to the transport: \<open>content\<close> is the serialised
  payload, \<open>now0\<close> the clock when the record is built (\<open>Now\<close> of the environment is the clock
  when it is verified), \<open>pub_c\<close> and \<open>info_c\<close> the cached identity pubkey and node info of
  the client.\<close>

record NodeInfoResponse =
  info_PubKey :: string
  info_Network :: string

record Client =
  pub_c :: string
  info_c :: NodeInfoResponse

definition Publish ::
  "env \<Rightarrow> CombinedSigner \<Rightarrow> Client \<Rightarrow> int \<Rightarrow> string \<Rightarrow> int \<Rightarrow> string list
     \<Rightarrow> error + nostr_event" where
  "Publish en sg c now0 content knd opts =
     (let ev = wrapRecord \<lparr>ID = [], PubKey = pub_c c, CreatedAt = now0, Kind = 0, Tags = [],
                             Content = content, Sig = []\<rparr>
      in case Finalize ev (info_Network (info_c c)) (info_PubKey (info_c c)) knd opts of
           Inl err \<Rightarrow> Inl (FinalizingEvent err)
         | Inr ev1 \<Rightarrow>
             (case SignEvent en sg ev1 of
                Inl err \<Rightarrow> Inl (SigningEvent err)
              | Inr ev2 \<Rightarrow>
                  (let (ok, err) = Verify en ev2 in
                   if \<not> ok \<or> err \<noteq> None then Inl (VerifyingBeforePublish err)
                   else Inr (NostrEvent ev2))))"

text \<open>A sequence of \<open>StoreEvent\<close> calls, one after the other; the results are dropped.\<close>

definition StoreEvents :: "MapStore \<Rightarrow> Event list \<Rightarrow> MapStore" where
  "StoreEvents s evs = foldl (\<lambda>st e. snd (StoreEvent st e)) s evs"

text \<open>
  Whether a sequence of calls leaves a slot of a node in place: none of the calls is a trust
  anchor of that node that is accepted and either changes the identity bound to the node,
  which discards the slots, or is filed under the key of the slot.
\<close>

fun slotKept :: "MapStore \<Rightarrow> Event list \<Rightarrow> string \<Rightarrow> string \<Rightarrow> bool" where
  "slotKept s [] pk t = True"
| "slotKept s (e # es) pk t =
     ((case GetIdentifier e of
         Inl err \<Rightarrow> True
       | Inr (i, e') \<Rightarrow>
           \<not> (kind e = KindNodeAnnouncement \<and> IdPubKey i = pk \<and> fst (StoreEvent s e) = None \<and>
              (PubKey (NostrEvent e) \<noteq> pub (lastAnnouncement (nodeOf s pk)) \<or> TagD i = t)))
      \<and> slotKept (snd (StoreEvent s e)) es pk t)"

section \<open>The pipeline as the specification words it\<close>







section \<open>Concrete inputs\<close>

text \<open>Records used to exercise the definitions: a trust anchor for node \<open>02aa\<close>, two variants
  of it, and the events that \<open>NewEventFromNostrRelay\<close> builds from a trust anchor and from a
  node-info record of a given node, identity and time.\<close>

definition ev_a :: Event where
  "ev_a = \<lparr>NostrEvent = \<lparr>ID = ''i'', PubKey = ''A'', CreatedAt = 100, Kind = 38171,
       Tags = [[''d'', ''N''], [''k'', ''0'']], Content = ''{}'', Sig = ''s''\<rparr>,
     kind = 0, finalized = True, id_cache = None\<rparr>"

definition ev_b :: Event where
  "ev_b = ev_a\<lparr>NostrEvent := (NostrEvent ev_a)\<lparr>Tags :=
     [[''sig'', ''x''], [''d'', ''N''], [''sig'', ''y''], [''k'', ''0'']]\<rparr>\<rparr>"

definition ev_c :: Event where
  "ev_c = ev_a\<lparr>NostrEvent := (NostrEvent ev_a)\<lparr>Content := ''{ }''\<rparr>\<rparr>"

definition blankRecord :: nostr_event where
  "blankRecord = \<lparr>ID = [], PubKey = ''npubA'', CreatedAt = 100, Kind = 0, Tags = [],
                   Content = ''{}'', Sig = []\<rparr>"

definition dupTagRecord :: nostr_event where
  "dupTagRecord = \<lparr>ID = ''id'', PubKey = ''npubA'', CreatedAt = 100, Kind = 38171,
      Tags = [[''d'', ''02aa''], [''d'', ''03bb''], [''k'', ''0''], [''k'', ''1'']],
      Content = ''{}'', Sig = ''sg''\<rparr>"

text \<open>A toy environment: the ID of a record is its content behind \<open>id:\<close>, a record is well
  signed when its signature is \<open>sg\<close>, and the Lightning signature \<open>zb32\<close> recovers the key
  \<open>02aa\<close>.\<close>

definition testEnv :: env where
  "testEnv = \<lparr>Now = 1000, GetID = (\<lambda>ev. ''id:'' @ Content ev),
      CheckSignature = (\<lambda>ev. (Sig ev = ''sg'', None)),
      zbase32_DecodeString = (\<lambda>s. if s = ''zb32'' then Some ''raw'' else None),
      DoubleHashB = (\<lambda>m. m),
      RecoverCompact = (\<lambda>sg b. if sg = ''raw'' then Some ''02aa'' else None)\<rparr>"

definition taggedEvent :: "string \<Rightarrow> string \<Rightarrow> Identifier \<Rightarrow> Event" where
  "taggedEvent d k i =
     \<lparr>NostrEvent = \<lparr>ID = ''id:{}'', PubKey = ''npubA'', CreatedAt = 100, Kind = 38171,
         Tags = [[''d'', d], [''k'', k]], Content = ''{}'', Sig = ''sg''\<rparr>,
      kind = IdKind i, finalized = True, id_cache = Some i\<rparr>"

text \<open>Signers that are valid for the toy environment, and a client of node \<open>02aa\<close>.\<close>

definition testSigner :: CombinedSigner where
  "testSigner = \<lparr>NostrSigner_SignEvent = (\<lambda>r. Inr (r\<lparr>ID := ''id:'' @ Content r, Sig := ''sg''\<rparr>)),
                  LnSigner_SignMessage = (\<lambda>msg. Inr ''zb32'')\<rparr>"

definition testClient :: Client where
  "testClient = \<lparr>pub_c = ''npubA'', info_c = \<lparr>info_PubKey = ''02aa'', info_Network = ''mainnet''\<rparr>\<rparr>"

definition annEvent :: "string \<Rightarrow> string \<Rightarrow> int \<Rightarrow> Event" where
  "annEvent node ident t =
     \<lparr>NostrEvent = \<lparr>ID = ''id:{}'', PubKey = ident, CreatedAt = t, Kind = 38171,
         Tags = [[''d'', node], [''k'', ''0''], [''sig'', ''zb32'']],
         Content = ''{}'', Sig = ''sg''\<rparr>,
      kind = 0, finalized = True,
      id_cache = Some \<lparr>TagD = node, Network = [], IdPubKey = node, IdKind = 0, Opts = []\<rparr>\<rparr>"

definition infoEvent :: "string \<Rightarrow> string \<Rightarrow> int \<Rightarrow> Event" where
  "infoEvent node ident t =
     \<lparr>NostrEvent = \<lparr>ID = ''id:{}'', PubKey = ident, CreatedAt = t, Kind = 38171,
         Tags = [[''d'', ''1:'' @ node @ '':mainnet''], [''k'', ''1'']],
         Content = ''{}'', Sig = ''sg''\<rparr>,
      kind = 1, finalized = True,
      id_cache = Some \<lparr>TagD = ''1:'' @ node @ '':mainnet'', Network = ''mainnet'',
                        IdPubKey = node, IdKind = 1, Opts = []\<rparr>\<rparr>"

text \<open>A trust anchor of a node with given tags after its \<open>d\<close> and \<open>k\<close> tags, and a
  node-info record of node \<open>02aa\<close> on a given network, as \<open>NewEventFromNostrRelay\<close> builds
  them.\<close>

definition sigTagsEvent :: "string \<Rightarrow> Tag list \<Rightarrow> Event" where
  "sigTagsEvent node sigs =
     \<lparr>NostrEvent = \<lparr>ID = ''id:{}'', PubKey = ''npubA'', CreatedAt = 100, Kind = 38171,
         Tags = [[''d'', node], [''k'', ''0'']] @ sigs, Content = ''{}'', Sig = ''sg''\<rparr>,
      kind = 0, finalized = True,
      id_cache = Some \<lparr>TagD = node, Network = [], IdPubKey = node, IdKind = 0, Opts = []\<rparr>\<rparr>"

definition networkEvent :: "string \<Rightarrow> Event" where
  "networkEvent network =
     \<lparr>NostrEvent = \<lparr>ID = ''id:{}'', PubKey = ''npubA'', CreatedAt = 100, Kind = 38171,
         Tags = [[''d'', ''1:02aa:'' @ network], [''k'', ''1'']], Content = ''{}'', Sig = ''sg''\<rparr>,
      kind = 1, finalized = True,
      id_cache = Some \<lparr>TagD = ''1:02aa:'' @ network, Network = network,
                        IdPubKey = ''02aa'', IdKind = 1, Opts = []\<rparr>\<rparr>"

text \<open>Three stores: node \<open>02aa\<close> announced by identity \<open>npubA\<close> at time 100; then with a
  node-info record of time 500; then re-announced by identity \<open>npubB\<close> at time 200.\<close>

definition store1 :: MapStore where
  "store1 = snd (StoreEvent NewMapStore (annEvent ''02aa'' ''npubA'' 100))"

definition store2 :: MapStore where
  "store2 = snd (StoreEvent store1 (infoEvent ''02aa'' ''npubA'' 500))"

definition store3 :: MapStore where
  "store3 = snd (StoreEvent store2 (annEvent ''02aa'' ''npubB'' 200))"









section \<open>The signable hash\<close>

lemma copyWithoutSig_append_sig:
  "copyWithoutSig (e\<lparr>NostrEvent := (NostrEvent e)\<lparr>Tags := Tags (NostrEvent e) @ [[''sig'', s]]\<rparr>\<rparr>)
     = copyWithoutSig e"
  by (simp add: copyWithoutSig_def is_sig_tag_def)

lemma not_sig_tag: "(\<not> is_sig_tag tag) = (case tag of [] \<Rightarrow> True | name # vals \<Rightarrow> name \<noteq> ''sig'')"
  by (cases tag) (simp_all add: is_sig_tag_def)

lemma copyWithoutSig_tags: "Tags (copyWithoutSig e) = tagsNotNamedSig (Tags (NostrEvent e))"
  by (simp add: copyWithoutSig_def tagsNotNamedSig_def not_sig_tag)

lemma copyWithoutSig_record:
  "copyWithoutSig e =
     \<lparr>ID = [], PubKey = PubKey (NostrEvent e), CreatedAt = CreatedAt (NostrEvent e),
      Kind = Kind (NostrEvent e), Tags = tagsNotNamedSig (Tags (NostrEvent e)),
      Content = Content (NostrEvent e), Sig = []\<rparr>"
  using copyWithoutSig_tags [of e] by (simp add: copyWithoutSig_def)

lemma tagsNotNamedSig_idem: "tagsNotNamedSig (tagsNotNamedSig tags) = tagsNotNamedSig tags"
  by (simp add: tagsNotNamedSig_def)

lemma copyWithoutSig_eq_iff:
  "copyWithoutSig e1 = copyWithoutSig e2 \<longleftrightarrow>
     PubKey (NostrEvent e1) = PubKey (NostrEvent e2) \<and>
     CreatedAt (NostrEvent e1) = CreatedAt (NostrEvent e2) \<and>
     Kind (NostrEvent e1) = Kind (NostrEvent e2) \<and>
     Content (NostrEvent e1) = Content (NostrEvent e2) \<and>
     tagsNotNamedSig (Tags (NostrEvent e1)) = tagsNotNamedSig (Tags (NostrEvent e2))"
  by (auto simp: copyWithoutSig_record)

lemma collisionFree_copies:
  "collisionFree getID \<Longrightarrow>
     getID (copyWithoutSig e1) = getID (copyWithoutSig e2) \<longleftrightarrow> copyWithoutSig e1 = copyWithoutSig e2"
proof
  assume cf: "collisionFree getID" and eq: "getID (copyWithoutSig e1) = getID (copyWithoutSig e2)"
  then have "serialized (copyWithoutSig e1) = serialized (copyWithoutSig e2)"
    unfolding collisionFree_def by blast
  then show "copyWithoutSig e1 = copyWithoutSig e2"
    by (simp add: serialized_def copyWithoutSig_def)
qed simp

text \<open>
  Claim C6. The hash that the Lightning signature covers is the transport's identifier of
  the record with every tag named \<open>sig\<close> removed and with the pubkey, createdAt, kind,
  content and the other tags, in their order, as they are. So appending a tag \<open>(sig, s)\<close>
  to any event leaves the hash unchanged, removing all tags named \<open>sig\<close> leaves it
  unchanged, and two events that agree on the pubkey, createdAt, kind, content and on the
  tags not named \<open>sig\<close> have the same hash. Those five do reach the hash: for a
  collision-free \<open>GetID\<close>, two events have the same hash exactly when they agree on all
  five.
\<close>

theorem Hash_ignores_sig_tags:
  "Hash getID (e\<lparr>NostrEvent := (NostrEvent e)\<lparr>Tags := Tags (NostrEvent e) @ [[''sig'', s]]\<rparr>\<rparr>)
     = Hash getID e
   \<and> Hash getID (e\<lparr>NostrEvent := (NostrEvent e)\<lparr>Tags := tagsNotNamedSig (Tags (NostrEvent e))\<rparr>\<rparr>)
     = Hash getID e
   \<and> Hash getID e =
       getID \<lparr>ID = [], PubKey = PubKey (NostrEvent e), CreatedAt = CreatedAt (NostrEvent e),
              Kind = Kind (NostrEvent e), Tags = tagsNotNamedSig (Tags (NostrEvent e)),
              Content = Content (NostrEvent e), Sig = []\<rparr>
   \<and> (PubKey (NostrEvent e1) = PubKey (NostrEvent e2) \<and>
      CreatedAt (NostrEvent e1) = CreatedAt (NostrEvent e2) \<and>
      Kind (NostrEvent e1) = Kind (NostrEvent e2) \<and>
      Content (NostrEvent e1) = Content (NostrEvent e2) \<and>
      tagsNotNamedSig (Tags (NostrEvent e1)) = tagsNotNamedSig (Tags (NostrEvent e2))
      \<longrightarrow> Hash getID e1 = Hash getID e2)
   \<and> (collisionFree getID \<longrightarrow>
        (Hash getID e1 = Hash getID e2 \<longleftrightarrow>
           PubKey (NostrEvent e1) = PubKey (NostrEvent e2) \<and>
           CreatedAt (NostrEvent e1) = CreatedAt (NostrEvent e2) \<and>
           Kind (NostrEvent e1) = Kind (NostrEvent e2) \<and>
           Content (NostrEvent e1) = Content (NostrEvent e2) \<and>
           tagsNotNamedSig (Tags (NostrEvent e1)) = tagsNotNamedSig (Tags (NostrEvent e2))))"
proof (intro conjI impI)
  show "Hash getID (e\<lparr>NostrEvent := (NostrEvent e)\<lparr>Tags := Tags (NostrEvent e) @ [[''sig'', s]]\<rparr>\<rparr>)
          = Hash getID e"
    unfolding Hash_def by (simp only: copyWithoutSig_append_sig)
next
  show "Hash getID (e\<lparr>NostrEvent := (NostrEvent e)\<lparr>Tags := tagsNotNamedSig (Tags (NostrEvent e))\<rparr>\<rparr>)
          = Hash getID e"
    by (simp add: Hash_def copyWithoutSig_record tagsNotNamedSig_idem)
next
  show "Hash getID e =
       getID \<lparr>ID = [], PubKey = PubKey (NostrEvent e), CreatedAt = CreatedAt (NostrEvent e),
              Kind = Kind (NostrEvent e), Tags = tagsNotNamedSig (Tags (NostrEvent e)),
              Content = Content (NostrEvent e), Sig = []\<rparr>"
    unfolding Hash_def by (simp only: copyWithoutSig_record)
next
  assume "PubKey (NostrEvent e1) = PubKey (NostrEvent e2) \<and>
      CreatedAt (NostrEvent e1) = CreatedAt (NostrEvent e2) \<and>
      Kind (NostrEvent e1) = Kind (NostrEvent e2) \<and>
      Content (NostrEvent e1) = Content (NostrEvent e2) \<and>
      tagsNotNamedSig (Tags (NostrEvent e1)) = tagsNotNamedSig (Tags (NostrEvent e2))"
  then have "copyWithoutSig e1 = copyWithoutSig e2"
    by (simp only: copyWithoutSig_eq_iff)
  then show "Hash getID e1 = Hash getID e2"
    by (simp add: Hash_def)
next
  assume "collisionFree getID"
  then have "Hash getID e1 = Hash getID e2 \<longleftrightarrow> copyWithoutSig e1 = copyWithoutSig e2"
    unfolding Hash_def by (rule collisionFree_copies)
  then show "Hash getID e1 = Hash getID e2 \<longleftrightarrow>
           PubKey (NostrEvent e1) = PubKey (NostrEvent e2) \<and>
           CreatedAt (NostrEvent e1) = CreatedAt (NostrEvent e2) \<and>
           Kind (NostrEvent e1) = Kind (NostrEvent e2) \<and>
           Content (NostrEvent e1) = Content (NostrEvent e2) \<and>
           tagsNotNamedSig (Tags (NostrEvent e1)) = tagsNotNamedSig (Tags (NostrEvent e2))"
    by (simp only: copyWithoutSig_eq_iff)
qed

text \<open>
  With the five hashed fields themselves as the identifier, which is collision-free: the
  trust anchor \<open>ev_a\<close> keeps its hash when tags named \<open>sig\<close> are added, also a tag that
  is only the name \<open>sig\<close>, and changes it with any of the pubkey, createdAt, kind and
  content, with one more tag that is not named \<open>sig\<close>, with the value of its \<open>d\<close> tag,
  and with the order of its tags.
\<close>

theorem Hash_ignores_sig_tags_witness:
  "collisionFree serialized \<and>
   Hash serialized (ev_a\<lparr>NostrEvent := (NostrEvent ev_a)\<lparr>Tags :=
        Tags (NostrEvent ev_a) @ [[''sig'', ''zb32'']]\<rparr>\<rparr>) = Hash serialized ev_a \<and>
   Hash serialized ev_b = Hash serialized ev_a \<and>
   Hash serialized (ev_a\<lparr>NostrEvent := (NostrEvent ev_a)\<lparr>Tags := [''sig''] # Tags (NostrEvent ev_a)\<rparr>\<rparr>)
     = Hash serialized ev_a \<and>
   Hash serialized ev_c \<noteq> Hash serialized ev_a \<and>
   Hash serialized (ev_a\<lparr>NostrEvent := (NostrEvent ev_a)\<lparr>PubKey := ''B''\<rparr>\<rparr>) \<noteq> Hash serialized ev_a \<and>
   Hash serialized (ev_a\<lparr>NostrEvent := (NostrEvent ev_a)\<lparr>CreatedAt := 101\<rparr>\<rparr>) \<noteq> Hash serialized ev_a \<and>
   Hash serialized (ev_a\<lparr>NostrEvent := (NostrEvent ev_a)\<lparr>Kind := 1\<rparr>\<rparr>) \<noteq> Hash serialized ev_a \<and>
   Hash serialized (ev_a\<lparr>NostrEvent := (NostrEvent ev_a)\<lparr>Tags :=
        Tags (NostrEvent ev_a) @ [[''t'', ''x'']]\<rparr>\<rparr>) \<noteq> Hash serialized ev_a \<and>
   Hash serialized (ev_a\<lparr>NostrEvent := (NostrEvent ev_a)\<lparr>Tags := [[''d'', ''M''], [''k'', ''0'']]\<rparr>\<rparr>)
     \<noteq> Hash serialized ev_a \<and>
   Hash serialized (ev_a\<lparr>NostrEvent := (NostrEvent ev_a)\<lparr>Tags := [[''k'', ''0''], [''d'', ''N'']]\<rparr>\<rparr>)
     \<noteq> Hash serialized ev_a \<and>
   Hash serialized (ev_a\<lparr>NostrEvent := (NostrEvent ev_a)\<lparr>Tags := [[], [''d'', ''N''], [''k'', ''0'']]\<rparr>\<rparr>)
     \<noteq> Hash serialized ev_a"
proof -
  have cf: "collisionFree serialized" by (simp add: collisionFree_def)
  note same = Hash_ignores_sig_tags [where getID = serialized and ?e1.0 = ev_b and ?e2.0 = ev_a,
      THEN conjunct2, THEN conjunct2, THEN conjunct2, THEN conjunct1, THEN mp]
  note iff = Hash_ignores_sig_tags [where getID = serialized and ?e2.0 = ev_a,
      THEN conjunct2, THEN conjunct2, THEN conjunct2, THEN conjunct2, THEN mp, OF cf]
  have a: "Hash serialized (ev_a\<lparr>NostrEvent := (NostrEvent ev_a)\<lparr>Tags :=
        Tags (NostrEvent ev_a) @ [[''sig'', ''zb32'']]\<rparr>\<rparr>) = Hash serialized ev_a"
    by (rule Hash_ignores_sig_tags [where getID = serialized and e = ev_a and s = "''zb32''",
          THEN conjunct1])
  have b: "Hash serialized ev_b = Hash serialized ev_a"
    by (rule same) (simp add: ev_a_def ev_b_def tagsNotNamedSig_def)
  have c: "Hash serialized (ev_a\<lparr>NostrEvent := (NostrEvent ev_a)\<lparr>Tags := [''sig''] # Tags (NostrEvent ev_a)\<rparr>\<rparr>)
     = Hash serialized ev_a"
    unfolding iff by (simp add: ev_a_def tagsNotNamedSig_def)
  have d: "Hash serialized ev_c \<noteq> Hash serialized ev_a"
    unfolding iff by (simp add: ev_a_def ev_c_def)
  have e: "Hash serialized (ev_a\<lparr>NostrEvent := (NostrEvent ev_a)\<lparr>PubKey := ''B''\<rparr>\<rparr>) \<noteq> Hash serialized ev_a"
    "Hash serialized (ev_a\<lparr>NostrEvent := (NostrEvent ev_a)\<lparr>CreatedAt := 101\<rparr>\<rparr>) \<noteq> Hash serialized ev_a"
    "Hash serialized (ev_a\<lparr>NostrEvent := (NostrEvent ev_a)\<lparr>Kind := 1\<rparr>\<rparr>) \<noteq> Hash serialized ev_a"
    unfolding iff by (simp_all add: ev_a_def)
  have f: "Hash serialized (ev_a\<lparr>NostrEvent := (NostrEvent ev_a)\<lparr>Tags :=
        Tags (NostrEvent ev_a) @ [[''t'', ''x'']]\<rparr>\<rparr>) \<noteq> Hash serialized ev_a"
    "Hash serialized (ev_a\<lparr>NostrEvent := (NostrEvent ev_a)\<lparr>Tags := [[''d'', ''M''], [''k'', ''0'']]\<rparr>\<rparr>)
     \<noteq> Hash serialized ev_a"
    "Hash serialized (ev_a\<lparr>NostrEvent := (NostrEvent ev_a)\<lparr>Tags := [[''k'', ''0''], [''d'', ''N'']]\<rparr>\<rparr>)
     \<noteq> Hash serialized ev_a"
    "Hash serialized (ev_a\<lparr>NostrEvent := (NostrEvent ev_a)\<lparr>Tags := [[], [''d'', ''N''], [''k'', ''0'']]\<rparr>\<rparr>)
     \<noteq> Hash serialized ev_a"
    unfolding iff by (simp_all add: ev_a_def tagsNotNamedSig_def)
  show ?thesis using cf a b c d e f by blast
qed

section \<open>The trust store: rejected calls\<close>

lemmas eval_store = StoreEvent_def GetIdentifier_def getNodeState_def registerAnnouncement_def
  storeRegularEvent_def newNodeState_def NewMapStore_def KindNodeAnnouncement_def
  annEvent_def infoEvent_def nodeOf_def

lemmas eval_parse = NewEventFromNostrRelay_def wrapRecord_def GetIdentifier_def parseIdentifier_def Find_def tag_matches_def
  Atoi_def in_int64_def digit_val_def decimal_digits_def KindNodeAnnouncement_def

lemma relay_ann_A100: "NewEventFromNostrRelay (NostrEvent (annEvent ''02aa'' ''npubA'' 100)) = Inr (annEvent ''02aa'' ''npubA'' 100)"
  by (simp add: eval_parse annEvent_def)
lemma relay_info_A500: "NewEventFromNostrRelay (NostrEvent (infoEvent ''02aa'' ''npubA'' 500)) = Inr (infoEvent ''02aa'' ''npubA'' 500)"
  by (simp add: eval_parse infoEvent_def)

lemma store1_eq: "store1 = \<lparr>records = [(''02aa'', \<lparr>lastAnnouncement = \<lparr>createdAt = 100, pub = ''npubA''\<rparr>,
     events = [(''02aa'', annEvent ''02aa'' ''npubA'' 100)]\<rparr>)]\<rparr>"
  by (simp add: store1_def eval_store)

lemma store2_eq: "store2 = \<lparr>records = [(''02aa'', \<lparr>lastAnnouncement = \<lparr>createdAt = 100, pub = ''npubA''\<rparr>,
     events = [(''02aa'', annEvent ''02aa'' ''npubA'' 100), (''1:02aa:mainnet'', infoEvent ''02aa'' ''npubA'' 500)]\<rparr>)]\<rparr>"
  by (simp add: store2_def store1_eq) (simp add: eval_store)

lemma store3_eq: "store3 = \<lparr>records = [(''02aa'', \<lparr>lastAnnouncement = \<lparr>createdAt = 200, pub = ''npubB''\<rparr>,
     events = [(''02aa'', annEvent ''02aa'' ''npubB'' 200)]\<rparr>)]\<rparr>"
  by (simp add: store3_def store2_eq) (simp add: eval_store)

lemma GetIdentifier_keeps:
  "GetIdentifier ev = Inr (i, ev') \<Longrightarrow> NostrEvent ev' = NostrEvent ev \<and> kind ev' = kind ev \<and> finalized ev' = finalized ev \<and> id_cache ev' = Some i"
  by (auto simp: GetIdentifier_def split: option.splits sum.splits)

lemma update_absent: "map_of al k = None \<Longrightarrow> AList.update k v al = al @ [(k, v)]"
  by (induction al) (auto split: if_splits)

lemma nodeOf_update_same: "nodeOf (s\<lparr>records := AList.update pk ns (records s)\<rparr>) pk = ns"
  by (simp add: nodeOf_def getNodeState_def update_conv')

lemma nodeOf_update_other: "pk' \<noteq> pk \<Longrightarrow> nodeOf (s\<lparr>records := AList.update pk ns (records s)\<rparr>) pk' = nodeOf s pk'"
  by (simp add: nodeOf_def getNodeState_def update_conv' split: option.splits)

lemma nodeOf_update_nodeOf: "nodeOf (s\<lparr>records := AList.update pk (nodeOf s pk) (records s)\<rparr>) pk' = nodeOf s pk'"
  by (cases "pk' = pk") (simp_all add: nodeOf_update_same nodeOf_update_other)

lemma update_nodeOf_cases:
  "s\<lparr>records := AList.update pk (nodeOf s pk) (records s)\<rparr> = s \<or>
   (map_of (records s) pk = None \<and>
    s\<lparr>records := AList.update pk (nodeOf s pk) (records s)\<rparr> = s\<lparr>records := records s @ [(pk, newNodeState)]\<rparr>)"
  by (cases "map_of (records s) pk")
     (simp_all add: nodeOf_def getNodeState_def update_absent update_triv)

lemma StoreEvent_Inl: "GetIdentifier ev = Inl err \<Longrightarrow> StoreEvent s ev = (Some err, s)"
  by (simp add: StoreEvent_def)

lemma StoreEvent_Inr:
  "GetIdentifier ev = Inr (i, ev') \<Longrightarrow>
   StoreEvent s ev =
     (let rn = (if kind ev' = KindNodeAnnouncement
                then registerAnnouncement (nodeOf s (IdPubKey i)) ev' i
                else storeRegularEvent (nodeOf s (IdPubKey i)) ev' i)
      in (fst rn, s\<lparr>records := AList.update (IdPubKey i) (snd rn) (records s)\<rparr>))"
  by (simp add: StoreEvent_def nodeOf_def getNodeState_def Let_def split: option.splits prod.splits)

lemma registerAnnouncement_error:
  "fst (registerAnnouncement ns ev i) = Some err \<Longrightarrow>
     err = StaleAnnouncement \<and> snd (registerAnnouncement ns ev i) = ns"
  by (auto simp: registerAnnouncement_def Let_def split: if_splits)

lemma storeRegularEvent_error:
  "fst (storeRegularEvent ns ev i) = Some err \<Longrightarrow>
     (err = UntrustedSigner \<or> err = StaleRecord) \<and> snd (storeRegularEvent ns ev i) = ns"
  by (auto simp: storeRegularEvent_def split: if_splits option.splits)

lemma StoreEvent_keys: "fst ` set (records s) \<subseteq> fst ` set (records (snd (StoreEvent s ev)))"
proof (cases "GetIdentifier ev")
  case (Inl err)
  then show ?thesis by (simp add: StoreEvent_Inl)
next
  case (Inr p)
  then obtain i ev' where "GetIdentifier ev = Inr (i, ev')" by (cases p) auto
  then show ?thesis by (auto simp: StoreEvent_Inr Let_def dom_update)
qed

text \<open>
  Claim C9. A call of \<open>StoreEvent\<close> that returns an error (the identifier did not parse,
  or the announcement was stale, the signer untrusted, the record stale) leaves the
  announcement and the slots of every node as they were, the targeted one included. The
  store itself is unchanged, or has gained one empty node state for a pubkey it did not
  know; a parse failure changes nothing at all. No call, failing or not, removes the entry
  of a pubkey.
\<close>

theorem StoreEvent_rejection_atomic:
  "(fst (StoreEvent s ev) = Some err \<longrightarrow>
      (GetIdentifier ev = Inl err \<or> err = StaleAnnouncement \<or> err = UntrustedSigner \<or> err = StaleRecord) \<and>
      (\<forall>pk. nodeOf (snd (StoreEvent s ev)) pk = nodeOf s pk) \<and>
      (GetIdentifier ev = Inl err \<longrightarrow> snd (StoreEvent s ev) = s) \<and>
      (snd (StoreEvent s ev) = s \<or>
       (\<exists>pk. map_of (records s) pk = None \<and>
             snd (StoreEvent s ev) = s\<lparr>records := records s @ [(pk, newNodeState)]\<rparr>)))
   \<and> fst ` set (records s) \<subseteq> fst ` set (records (snd (StoreEvent s ev)))"
proof (rule conjI [rotated], rule StoreEvent_keys, rule impI)
  assume err: "fst (StoreEvent s ev) = Some err"
  show "(GetIdentifier ev = Inl err \<or> err = StaleAnnouncement \<or> err = UntrustedSigner \<or> err = StaleRecord) \<and>
      (\<forall>pk. nodeOf (snd (StoreEvent s ev)) pk = nodeOf s pk) \<and>
      (GetIdentifier ev = Inl err \<longrightarrow> snd (StoreEvent s ev) = s) \<and>
      (snd (StoreEvent s ev) = s \<or>
       (\<exists>pk. map_of (records s) pk = None \<and>
             snd (StoreEvent s ev) = s\<lparr>records := records s @ [(pk, newNodeState)]\<rparr>))"
  proof (cases "GetIdentifier ev")
    case (Inl e)
    with err show ?thesis by (simp add: StoreEvent_Inl)
  next
    case (Inr p)
    then obtain i ev' where gi: "GetIdentifier ev = Inr (i, ev')" by (cases p) auto
    define rn where "rn = (if kind ev' = KindNodeAnnouncement
                then registerAnnouncement (nodeOf s (IdPubKey i)) ev' i
                else storeRegularEvent (nodeOf s (IdPubKey i)) ev' i)"
    have se: "StoreEvent s ev = (fst rn, s\<lparr>records := AList.update (IdPubKey i) (snd rn) (records s)\<rparr>)"
      using StoreEvent_Inr [OF gi, where s = s] by (simp add: rn_def Let_def)
    with err have "fst rn = Some err" by simp
    then have kinds: "err = StaleAnnouncement \<or> err = UntrustedSigner \<or> err = StaleRecord"
      and same: "snd rn = nodeOf s (IdPubKey i)"
      using registerAnnouncement_error [of "nodeOf s (IdPubKey i)" ev' i err]
            storeRegularEvent_error [of "nodeOf s (IdPubKey i)" ev' i err]
      by (auto simp: rn_def split: if_splits)
    have s': "snd (StoreEvent s ev) = s\<lparr>records := AList.update (IdPubKey i) (nodeOf s (IdPubKey i)) (records s)\<rparr>"
      by (simp add: se same)
    show ?thesis
      using kinds update_nodeOf_cases [where s = s and pk = "IdPubKey i"] gi
      by (auto simp: s' nodeOf_update_nodeOf)
  qed
qed

theorem StoreEvent_rejection_atomic_witness:
  "fst (StoreEvent store1 (annEvent ''02aa'' ''npubA'' 100)) = Some StaleAnnouncement \<and>
   snd (StoreEvent store1 (annEvent ''02aa'' ''npubA'' 100)) = store1 \<and>
   fst (StoreEvent store1 (infoEvent ''03bb'' ''npubA'' 7)) = Some UntrustedSigner \<and>
   snd (StoreEvent store1 (infoEvent ''03bb'' ''npubA'' 7))
     = store1\<lparr>records := records store1 @ [(''03bb'', newNodeState)]\<rparr> \<and>
   nodeOf (snd (StoreEvent store1 (infoEvent ''03bb'' ''npubA'' 7))) ''03bb'' = nodeOf store1 ''03bb'' \<and>
   fst ` set (records store1) \<subseteq> fst ` set (records (snd (StoreEvent store1 (infoEvent ''03bb'' ''npubA'' 7))))"
  using StoreEvent_rejection_atomic [of store1 "annEvent ''02aa'' ''npubA'' 100" StaleAnnouncement]
        StoreEvent_rejection_atomic [of store1 "infoEvent ''03bb'' ''npubA'' 7" UntrustedSigner]
  by (simp add: store1_eq) (simp add: eval_store)

section \<open>The trust store: monotonic updates\<close>

lemma StoreEvent_node:
  assumes "GetIdentifier ev = Inr (i, ev')"
  shows "nodeOf (snd (StoreEvent s ev)) pk =
     (if pk = IdPubKey i
      then snd (if kind ev = KindNodeAnnouncement
                then registerAnnouncement (nodeOf s (IdPubKey i)) ev' i
                else storeRegularEvent (nodeOf s (IdPubKey i)) ev' i)
      else nodeOf s pk)"
  using GetIdentifier_keeps [OF assms]
  by (simp add: StoreEvent_Inr [OF assms] Let_def nodeOf_update_same nodeOf_update_other)

lemma StoreEvent_result:
  assumes "GetIdentifier ev = Inr (i, ev')"
  shows "fst (StoreEvent s ev) =
     fst (if kind ev = KindNodeAnnouncement
          then registerAnnouncement (nodeOf s (IdPubKey i)) ev' i
          else storeRegularEvent (nodeOf s (IdPubKey i)) ev' i)"
  using GetIdentifier_keeps [OF assms]
  by (simp add: StoreEvent_Inr [OF assms] Let_def)

lemma StoreEvent_Inl_node: "GetIdentifier ev = Inl err \<Longrightarrow> nodeOf (snd (StoreEvent s ev)) pk = nodeOf s pk"
  by (simp add: StoreEvent_Inl)

lemma announcement_rule:
  assumes gi: "GetIdentifier ev = Inr (i, ev')" and k: "kind ev = KindNodeAnnouncement"
  shows "(fst (StoreEvent s ev) = None \<longleftrightarrow>
            createdAt (lastAnnouncement (nodeOf s (IdPubKey i))) < CreatedAt (NostrEvent ev))"
    and "fst (StoreEvent s ev) \<noteq> None \<Longrightarrow> fst (StoreEvent s ev) = Some StaleAnnouncement"
    and "fst (StoreEvent s ev) \<noteq> None \<Longrightarrow> nodeOf (snd (StoreEvent s ev)) pk = nodeOf s pk"
    and "fst (StoreEvent s ev) = None \<Longrightarrow>
           lastAnnouncement (nodeOf (snd (StoreEvent s ev)) (IdPubKey i))
             = \<lparr>createdAt = CreatedAt (NostrEvent ev), pub = PubKey (NostrEvent ev)\<rparr>"
  using GetIdentifier_keeps [OF gi] k
  by (auto simp: StoreEvent_result [OF gi] StoreEvent_node [OF gi] registerAnnouncement_def Let_def
           split: if_splits)

lemma record_rule:
  assumes gi: "GetIdentifier ev = Inr (i, ev')" and k: "kind ev \<noteq> KindNodeAnnouncement"
  shows "fst (StoreEvent s ev) = None \<Longrightarrow>
           PubKey (NostrEvent ev) = pub (lastAnnouncement (nodeOf s (IdPubKey i)))"
    and "PubKey (NostrEvent ev) \<noteq> pub (lastAnnouncement (nodeOf s (IdPubKey i))) \<Longrightarrow>
           fst (StoreEvent s ev) = Some UntrustedSigner"
    and "fst (StoreEvent s ev) = None \<Longrightarrow>
           map_of (events (nodeOf s (IdPubKey i))) (TagD i) = Some old \<Longrightarrow>
           CreatedAt (NostrEvent old) < CreatedAt (NostrEvent ev)"
    and "PubKey (NostrEvent ev) = pub (lastAnnouncement (nodeOf s (IdPubKey i))) \<Longrightarrow>
           map_of (events (nodeOf s (IdPubKey i))) (TagD i) = Some old \<Longrightarrow>
           CreatedAt (NostrEvent ev) \<le> CreatedAt (NostrEvent old) \<Longrightarrow>
           fst (StoreEvent s ev) = Some StaleRecord"
    and "fst (StoreEvent s ev) \<noteq> None \<Longrightarrow> nodeOf (snd (StoreEvent s ev)) pk = nodeOf s pk"
    and "fst (StoreEvent s ev) = None \<Longrightarrow>
           nodeOf (snd (StoreEvent s ev)) (IdPubKey i) =
             (nodeOf s (IdPubKey i))\<lparr>events := AList.update (TagD i) ev' (events (nodeOf s (IdPubKey i)))\<rparr>"
  using GetIdentifier_keeps [OF gi] k
  by (auto simp: StoreEvent_result [OF gi] StoreEvent_node [OF gi] storeRegularEvent_def
           split: if_splits option.splits)

lemma step_announcement_mono:
  "createdAt (lastAnnouncement (nodeOf s pk))
     \<le> createdAt (lastAnnouncement (nodeOf (snd (StoreEvent s ev)) pk))"
proof (cases "GetIdentifier ev")
  case (Inl err)
  then show ?thesis by (simp add: StoreEvent_Inl)
next
  case (Inr p)
  then obtain i ev' where gi: "GetIdentifier ev = Inr (i, ev')" by (cases p) auto
  show ?thesis
    by (auto simp: StoreEvent_node [OF gi] registerAnnouncement_def storeRegularEvent_def Let_def
             split: option.splits)
qed

lemma StoreEvents_announcement_mono:
  "createdAt (lastAnnouncement (nodeOf s pk))
     \<le> createdAt (lastAnnouncement (nodeOf (StoreEvents s evs) pk))"
proof (induction evs arbitrary: s)
  case Nil
  show ?case by (simp add: StoreEvents_def)
next
  case (Cons e es)
  have "createdAt (lastAnnouncement (nodeOf s pk))
          \<le> createdAt (lastAnnouncement (nodeOf (snd (StoreEvent s e)) pk))"
    by (rule step_announcement_mono)
  also have "\<dots> \<le> createdAt (lastAnnouncement (nodeOf (StoreEvents (snd (StoreEvent s e)) es) pk))"
    by (rule Cons.IH)
  finally show ?case by (simp add: StoreEvents_def)
qed

lemma announcements_increase:
  assumes g1: "GetIdentifier ev1 = Inr (i1, ev1')" and k1: "kind ev1 = KindNodeAnnouncement"
    and a1: "fst (StoreEvent s ev1) = None"
    and g2: "GetIdentifier ev2 = Inr (i2, ev2')" and k2: "kind ev2 = KindNodeAnnouncement"
    and same: "IdPubKey i2 = IdPubKey i1"
    and a2: "fst (StoreEvent (StoreEvents (snd (StoreEvent s ev1)) evs) ev2) = None"
  shows "CreatedAt (NostrEvent ev1) < CreatedAt (NostrEvent ev2)"
proof -
  let ?s1 = "snd (StoreEvent s ev1)"
  have "createdAt (lastAnnouncement (nodeOf ?s1 (IdPubKey i1))) = CreatedAt (NostrEvent ev1)"
    using announcement_rule(4) [OF g1 k1 a1] by simp
  moreover have "createdAt (lastAnnouncement (nodeOf ?s1 (IdPubKey i1)))
      \<le> createdAt (lastAnnouncement (nodeOf (StoreEvents ?s1 evs) (IdPubKey i1)))"
    by (rule StoreEvents_announcement_mono)
  moreover have "createdAt (lastAnnouncement (nodeOf (StoreEvents ?s1 evs) (IdPubKey i1)))
      < CreatedAt (NostrEvent ev2)"
    using announcement_rule(1) [OF g2 k2, of "StoreEvents ?s1 evs"] a2 same by simp
  ultimately show ?thesis by linarith
qed


lemma step_slot_kept:
  assumes old: "map_of (events (nodeOf s pk)) t = Some old"
    and keep: "slotKept s [e] pk t"
  shows "\<exists>new. map_of (events (nodeOf (snd (StoreEvent s e)) pk)) t = Some new \<and>
           CreatedAt (NostrEvent old) \<le> CreatedAt (NostrEvent new)"
proof (cases "GetIdentifier e")
  case (Inl err)
  then show ?thesis using old by (simp add: StoreEvent_Inl)
next
  case (Inr p)
  then obtain i e' where gi: "GetIdentifier e = Inr (i, e')" by (cases p) auto
  show ?thesis
  proof (cases "pk = IdPubKey i")
    case False
    then show ?thesis using old by (simp add: StoreEvent_node [OF gi])
  next
    case True
    show ?thesis
    proof (cases "kind e = KindNodeAnnouncement")
      case False
      then show ?thesis
        using old True GetIdentifier_keeps [OF gi]
        by (auto simp: StoreEvent_node [OF gi] storeRegularEvent_def update_conv'
                 split: option.splits)
    next
      case anchor: True
      show ?thesis
      proof (cases "fst (StoreEvent s e) = None")
        case False
        then show ?thesis using old announcement_rule(3) [OF gi anchor] by simp
      next
        case accepted: True
        with keep gi anchor True
        have same: "PubKey (NostrEvent e) = pub (lastAnnouncement (nodeOf s pk))"
          and other: "TagD i \<noteq> t" by auto
        then show ?thesis
          using old True anchor accepted GetIdentifier_keeps [OF gi]
          by (auto simp: StoreEvent_node [OF gi] StoreEvent_result [OF gi]
                registerAnnouncement_def Let_def update_conv' split: if_splits)
      qed
    qed
  qed
qed

lemma StoreEvents_slot_kept:
  assumes "map_of (events (nodeOf s pk)) t = Some old" and "slotKept s evs pk t"
  shows "\<exists>new. map_of (events (nodeOf (StoreEvents s evs) pk)) t = Some new \<and>
           CreatedAt (NostrEvent old) \<le> CreatedAt (NostrEvent new)"
  using assms
proof (induction evs arbitrary: s old)
  case Nil
  then show ?case by (simp add: StoreEvents_def)
next
  case (Cons e es)
  from Cons.prems(2) have one: "slotKept s [e] pk t"
    and rest: "slotKept (snd (StoreEvent s e)) es pk t" by simp_all
  from step_slot_kept [OF Cons.prems(1) one] obtain mid
    where mid: "map_of (events (nodeOf (snd (StoreEvent s e)) pk)) t = Some mid"
      and le1: "CreatedAt (NostrEvent old) \<le> CreatedAt (NostrEvent mid)"
    by auto
  from Cons.IH [OF mid rest] obtain new
    where "map_of (events (nodeOf (StoreEvents (snd (StoreEvent s e)) es) pk)) t = Some new"
      and "CreatedAt (NostrEvent mid) \<le> CreatedAt (NostrEvent new)"
    by auto
  with le1 show ?case by (auto simp: StoreEvents_def)
qed

lemma records_increase:
  assumes g1: "GetIdentifier ev1 = Inr (i1, ev1')" and k1: "kind ev1 \<noteq> KindNodeAnnouncement"
    and a1: "fst (StoreEvent s ev1) = None"
    and g2: "GetIdentifier ev2 = Inr (i2, ev2')" and k2: "kind ev2 \<noteq> KindNodeAnnouncement"
    and same: "IdPubKey i2 = IdPubKey i1" "TagD i2 = TagD i1"
    and between: "slotKept (snd (StoreEvent s ev1)) evs (IdPubKey i1) (TagD i1)"
    and a2: "fst (StoreEvent (StoreEvents (snd (StoreEvent s ev1)) evs) ev2) = None"
  shows "CreatedAt (NostrEvent ev1) < CreatedAt (NostrEvent ev2)"
proof -
  let ?s1 = "snd (StoreEvent s ev1)"
  have "map_of (events (nodeOf ?s1 (IdPubKey i1))) (TagD i1) = Some ev1'"
    by (simp add: record_rule(6) [OF g1 k1 a1] update_conv')
  from StoreEvents_slot_kept [OF this between] obtain new
    where new: "map_of (events (nodeOf (StoreEvents ?s1 evs) (IdPubKey i1))) (TagD i1) = Some new"
      and le: "CreatedAt (NostrEvent ev1') \<le> CreatedAt (NostrEvent new)"
    by auto
  have "CreatedAt (NostrEvent new) < CreatedAt (NostrEvent ev2)"
    using record_rule(3) [OF g2 k2 a2, of new] new same by simp
  with le GetIdentifier_keeps [OF g1] show ?thesis by simp
qed

lemma Split_nonempty: "Split s c \<noteq> []"
  by (induction s) (auto split: list.splits)

lemma Split_lengths: "sum_list (map length (Split s c)) + length (Split s c) = Suc (length s)"
proof (induction s)
  case Nil
  show ?case by simp
next
  case (Cons x xs)
  then show ?case using Split_nonempty [of xs c] by (auto split: list.splits)
qed

lemma Split_second_shorter:
  assumes "2 \<le> length (Split s c)"
  shows "length (Split s c ! 1) < length s"
proof -
  have "Split s c ! 1 \<in> set (Split s c)" using assms by simp
  then have "length (Split s c ! 1) \<le> sum_list (map length (Split s c))"
    by (simp add: member_le_sum_list)
  with Split_lengths [of s c] assms show ?thesis by linarith
qed

lemma relay_anchor_slot:
  assumes r: "NewEventFromNostrRelay r = Inr e" and gi: "GetIdentifier e = Inr (i, e')"
  shows "kind e = KindNodeAnnouncement \<longleftrightarrow> TagD i = IdPubKey i"
proof -
  from r obtain j where p: "parseIdentifier r = Inr j"
    and e: "e = (wrapRecord r)\<lparr>id_cache := Some j, kind := IdKind j, finalized := True\<rparr>"
    by (auto simp: NewEventFromNostrRelay_def GetIdentifier_def wrapRecord_def
          split: sum.splits)
  from gi e have ij: "i = j" by (simp add: GetIdentifier_def)
  have k: "kind e = IdKind j" using e by simp
  show ?thesis
  proof (cases "IdKind j = KindNodeAnnouncement")
    case True
    with p show ?thesis
      by (auto simp: k ij parseIdentifier_def Let_def split: option.splits if_splits)
  next
    case False
    with p obtain d where d: "TagD j = d" "IdPubKey j = Split d (CHR '':'') ! 1"
      "3 \<le> length (Split d (CHR '':''))"
      by (auto simp: parseIdentifier_def Let_def split: option.splits if_splits)
    from Split_second_shorter [of d "CHR '':''"] d(3)
    have "length (Split d (CHR '':'') ! 1) < length d" by simp
    then have "TagD j \<noteq> IdPubKey j" using d by auto
    with False show ?thesis by (simp add: k ij)
  qed
qed


lemma getid_ann: "GetIdentifier (annEvent n p t)
   = Inr (\<lparr>TagD = n, Network = [], IdPubKey = n, IdKind = 0, Opts = []\<rparr>, annEvent n p t)"
  by (simp add: GetIdentifier_def annEvent_def)

lemma getid_info: "GetIdentifier (infoEvent n p t)
   = Inr (\<lparr>TagD = ''1:'' @ n @ '':mainnet'', Network = ''mainnet'', IdPubKey = n, IdKind = 1, Opts = []\<rparr>,
          infoEvent n p t)"
  by (simp add: GetIdentifier_def infoEvent_def)

text \<open>
  Claim C2 (amended). For an event whose identifier resolves: a trust anchor is accepted
  exactly when its createdAt is greater than the createdAt of the node's last announcement;
  otherwise the call fails with StaleAnnouncement and no node state changes (so two trust
  anchors of equal createdAt make the second fail and leave the bound identity). A record
  that is not a trust anchor and finds an entry in its slot is accepted only when its
  createdAt is greater than the entry's; with the trusted signer and a createdAt that is
  not greater the call fails with StaleRecord and no node state changes. Over any sequence
  of calls, two accepted trust anchors of one node have increasing createdAt; two accepted
  records of one slot have increasing createdAt when no trust anchor accepted between them
  changes the identity bound to the node or is filed under the key of the slot. Rejected
  trust anchors and accepted ones of the same identity may come in between. A trust anchor
  that \<open>NewEventFromNostrRelay\<close> builds is filed under the pubkey of its node, and a record
  of another kind never is.
\<close>

theorem store_monotonicity:
  "(GetIdentifier ev = Inr (i, ev') \<and> kind ev = KindNodeAnnouncement \<longrightarrow>
      (fst (StoreEvent s ev) = None \<longleftrightarrow>
         createdAt (lastAnnouncement (nodeOf s (IdPubKey i))) < CreatedAt (NostrEvent ev)) \<and>
      (fst (StoreEvent s ev) \<noteq> None \<longrightarrow>
         fst (StoreEvent s ev) = Some StaleAnnouncement \<and>
         (\<forall>pk. nodeOf (snd (StoreEvent s ev)) pk = nodeOf s pk)))
   \<and> (GetIdentifier ev = Inr (i, ev') \<and> kind ev \<noteq> KindNodeAnnouncement \<and>
       map_of (events (nodeOf s (IdPubKey i))) (TagD i) = Some old \<longrightarrow>
      (fst (StoreEvent s ev) = None \<longrightarrow> CreatedAt (NostrEvent old) < CreatedAt (NostrEvent ev)) \<and>
      (PubKey (NostrEvent ev) = pub (lastAnnouncement (nodeOf s (IdPubKey i))) \<and>
       CreatedAt (NostrEvent ev) \<le> CreatedAt (NostrEvent old) \<longrightarrow>
         fst (StoreEvent s ev) = Some StaleRecord \<and>
         (\<forall>pk. nodeOf (snd (StoreEvent s ev)) pk = nodeOf s pk)))
   \<and> (GetIdentifier eva = Inr (ia, eva') \<and> GetIdentifier evb = Inr (ib, evb') \<and>
       IdPubKey ib = IdPubKey ia \<and>
       fst (StoreEvent s eva) = None \<and>
       fst (StoreEvent (StoreEvents (snd (StoreEvent s eva)) evs) evb) = None \<longrightarrow>
      (kind eva = KindNodeAnnouncement \<and> kind evb = KindNodeAnnouncement \<longrightarrow>
         CreatedAt (NostrEvent eva) < CreatedAt (NostrEvent evb)) \<and>
      (kind eva \<noteq> KindNodeAnnouncement \<and> kind evb \<noteq> KindNodeAnnouncement \<and>
       TagD ib = TagD ia \<and>
       slotKept (snd (StoreEvent s eva)) evs (IdPubKey ia) (TagD ia) \<longrightarrow>
         CreatedAt (NostrEvent eva) < CreatedAt (NostrEvent evb)))
   \<and> (NewEventFromNostrRelay r = Inr built \<and> GetIdentifier built = Inr (ic, built') \<longrightarrow>
        (kind built = KindNodeAnnouncement \<longleftrightarrow> TagD ic = IdPubKey ic))"
proof (intro conjI impI allI; (elim conjE)?)
  assume "GetIdentifier ev = Inr (i, ev')" "kind ev = KindNodeAnnouncement"
  then show "fst (StoreEvent s ev) = None \<longleftrightarrow>
         createdAt (lastAnnouncement (nodeOf s (IdPubKey i))) < CreatedAt (NostrEvent ev)"
    by (rule announcement_rule(1))
next
  assume "GetIdentifier ev = Inr (i, ev')" "kind ev = KindNodeAnnouncement"
    "fst (StoreEvent s ev) \<noteq> None"
  then show "fst (StoreEvent s ev) = Some StaleAnnouncement"
    by (rule announcement_rule(2))
next
  fix pk
  assume "GetIdentifier ev = Inr (i, ev')" "kind ev = KindNodeAnnouncement"
    "fst (StoreEvent s ev) \<noteq> None"
  then show "nodeOf (snd (StoreEvent s ev)) pk = nodeOf s pk"
    by (rule announcement_rule(3))
next
  assume "GetIdentifier ev = Inr (i, ev')" "kind ev \<noteq> KindNodeAnnouncement"
    "map_of (events (nodeOf s (IdPubKey i))) (TagD i) = Some old" "fst (StoreEvent s ev) = None"
  then show "CreatedAt (NostrEvent old) < CreatedAt (NostrEvent ev)"
    using record_rule(3) by blast
next
  assume h: "GetIdentifier ev = Inr (i, ev')" "kind ev \<noteq> KindNodeAnnouncement"
    "map_of (events (nodeOf s (IdPubKey i))) (TagD i) = Some old"
    "PubKey (NostrEvent ev) = pub (lastAnnouncement (nodeOf s (IdPubKey i)))"
    "CreatedAt (NostrEvent ev) \<le> CreatedAt (NostrEvent old)"
  then show stale: "fst (StoreEvent s ev) = Some StaleRecord"
    using record_rule(4) by blast
  fix pk
  show "nodeOf (snd (StoreEvent s ev)) pk = nodeOf s pk"
    using record_rule(5) [OF h(1,2), of s pk] stale by simp
next
  assume "GetIdentifier eva = Inr (ia, eva')" "GetIdentifier evb = Inr (ib, evb')"
    "IdPubKey ib = IdPubKey ia" "fst (StoreEvent s eva) = None"
    "fst (StoreEvent (StoreEvents (snd (StoreEvent s eva)) evs) evb) = None"
    "kind eva = KindNodeAnnouncement" "kind evb = KindNodeAnnouncement"
  then show "CreatedAt (NostrEvent eva) < CreatedAt (NostrEvent evb)"
    using announcements_increase by blast
next
  assume "GetIdentifier eva = Inr (ia, eva')" "GetIdentifier evb = Inr (ib, evb')"
    "IdPubKey ib = IdPubKey ia" "fst (StoreEvent s eva) = None"
    "fst (StoreEvent (StoreEvents (snd (StoreEvent s eva)) evs) evb) = None"
    "kind eva \<noteq> KindNodeAnnouncement" "kind evb \<noteq> KindNodeAnnouncement"
    "TagD ib = TagD ia"
    "slotKept (snd (StoreEvent s eva)) evs (IdPubKey ia) (TagD ia)"
  then show "CreatedAt (NostrEvent eva) < CreatedAt (NostrEvent evb)"
    using records_increase by blast
next
  assume "NewEventFromNostrRelay r = Inr built" "GetIdentifier built = Inr (ic, built')"
  then show "kind built = KindNodeAnnouncement \<longleftrightarrow> TagD ic = IdPubKey ic"
    by (rule relay_anchor_slot)
qed

text \<open>
  The rules at work on the stores \<open>store1\<close> and \<open>store2\<close>: an announcement of time 100
  after one of time 100, a record of time 500 after one of time 500, and the accepted
  successors. Between the records of time 500 and 600 come a trust anchor of another
  identity that is rejected as stale, a trust anchor of the same identity that is
  accepted, and a stale record.
\<close>

theorem store_monotonicity_witness:
  "fst (StoreEvent store1 (annEvent ''02aa'' ''npubB'' 100)) = Some StaleAnnouncement \<and>
   pub (lastAnnouncement (nodeOf (snd (StoreEvent store1 (annEvent ''02aa'' ''npubB'' 100))) ''02aa'')) = ''npubA'' \<and>
   fst (StoreEvent store2 (infoEvent ''02aa'' ''npubA'' 500)) = Some StaleRecord \<and>
   fst (StoreEvent store1 (annEvent ''02aa'' ''npubB'' 200)) = None \<and>
   CreatedAt (NostrEvent (annEvent ''02aa'' ''npubA'' 100)) < CreatedAt (NostrEvent (annEvent ''02aa'' ''npubB'' 200)) \<and>
   fst (StoreEvent store2 (annEvent ''02aa'' ''npubB'' 100)) = Some StaleAnnouncement \<and>
   fst (StoreEvent store2 (annEvent ''02aa'' ''npubA'' 150)) = None \<and>
   slotKept store2 [annEvent ''02aa'' ''npubB'' 100, annEvent ''02aa'' ''npubA'' 150,
       infoEvent ''02aa'' ''npubA'' 400] ''02aa'' ''1:02aa:mainnet'' \<and>
   fst (StoreEvent (StoreEvents store2 [annEvent ''02aa'' ''npubB'' 100, annEvent ''02aa'' ''npubA'' 150,
       infoEvent ''02aa'' ''npubA'' 400]) (infoEvent ''02aa'' ''npubA'' 600)) = None \<and>
   CreatedAt (NostrEvent (infoEvent ''02aa'' ''npubA'' 500)) < CreatedAt (NostrEvent (infoEvent ''02aa'' ''npubA'' 600)) \<and>
   NewEventFromNostrRelay (NostrEvent (annEvent ''02aa'' ''npubA'' 100)) = Inr (annEvent ''02aa'' ''npubA'' 100) \<and>
   TagD (the (id_cache (annEvent ''02aa'' ''npubA'' 100))) = IdPubKey (the (id_cache (annEvent ''02aa'' ''npubA'' 100))) \<and>
   NewEventFromNostrRelay (NostrEvent (infoEvent ''02aa'' ''npubA'' 500)) = Inr (infoEvent ''02aa'' ''npubA'' 500) \<and>
   TagD (the (id_cache (infoEvent ''02aa'' ''npubA'' 500))) \<noteq> IdPubKey (the (id_cache (infoEvent ''02aa'' ''npubA'' 500)))"
proof -
  let ?iA = "\<lparr>TagD = ''02aa'', Network = [], IdPubKey = ''02aa'', IdKind = 0, Opts = []\<rparr>"
  let ?iI = "\<lparr>TagD = ''1:02aa:mainnet'', Network = ''mainnet'', IdPubKey = ''02aa'', IdKind = 1, Opts = []\<rparr>"
  let ?b100 = "annEvent ''02aa'' ''npubB'' 100"
  have p1: "GetIdentifier ?b100 = Inr (?iA, ?b100) \<and> kind ?b100 = KindNodeAnnouncement"
    by (simp add: getid_ann) (simp add: annEvent_def KindNodeAnnouncement_def)
  have q1: "fst (StoreEvent store1 ?b100) \<noteq> None"
    by (simp add: store1_eq) (simp add: eval_store)
  have unchanged: "nodeOf (snd (StoreEvent store1 ?b100)) ''02aa'' = nodeOf store1 ''02aa''"
    and c1: "fst (StoreEvent store1 ?b100) = Some StaleAnnouncement"
    using store_monotonicity [where ev = ?b100 and i = ?iA and ev' = ?b100 and s = store1,
            THEN conjunct1, THEN mp, OF p1] q1
    by blast+
  have c2: "pub (lastAnnouncement (nodeOf (snd (StoreEvent store1 ?b100)) ''02aa'')) = ''npubA''"
    unfolding unchanged by (simp add: store1_eq nodeOf_def getNodeState_def)
  let ?r500 = "infoEvent ''02aa'' ''npubA'' 500"
  have p2: "GetIdentifier ?r500 = Inr (?iI, ?r500) \<and> kind ?r500 \<noteq> KindNodeAnnouncement \<and>
     map_of (events (nodeOf store2 (IdPubKey ?iI))) (TagD ?iI) = Some ?r500"
    by (simp add: getid_info store2_eq nodeOf_def getNodeState_def)
       (simp add: infoEvent_def KindNodeAnnouncement_def)
  have q2: "PubKey (NostrEvent ?r500) = pub (lastAnnouncement (nodeOf store2 (IdPubKey ?iI))) \<and>
       CreatedAt (NostrEvent ?r500) \<le> CreatedAt (NostrEvent ?r500)"
    by (simp add: store2_eq nodeOf_def getNodeState_def infoEvent_def)
  have c3: "fst (StoreEvent store2 ?r500) = Some StaleRecord"
    using store_monotonicity [where ev = ?r500 and i = ?iI and ev' = ?r500 and s = store2 and old = ?r500,
            THEN conjunct2, THEN conjunct1, THEN mp, OF p2] q2
    by blast
  let ?a100 = "annEvent ''02aa'' ''npubA'' 100"
  let ?b200 = "annEvent ''02aa'' ''npubB'' 200"
  have s1: "snd (StoreEvent NewMapStore ?a100) = store1" by (simp add: store1_def)
  have acc4: "fst (StoreEvent store1 ?b200) = None"
    by (simp add: store1_eq) (simp add: eval_store)
  have p3: "GetIdentifier ?a100 = Inr (?iA, ?a100) \<and> GetIdentifier ?b200 = Inr (?iA, ?b200) \<and>
       IdPubKey ?iA = IdPubKey ?iA \<and> fst (StoreEvent NewMapStore ?a100) = None \<and>
       fst (StoreEvent (StoreEvents (snd (StoreEvent NewMapStore ?a100)) []) ?b200) = None"
    using acc4 by (simp add: getid_ann s1 StoreEvents_def) (simp add: eval_store)
  have c4: "CreatedAt (NostrEvent ?a100) < CreatedAt (NostrEvent ?b200)"
    using store_monotonicity [where s = NewMapStore and eva = ?a100 and ia = ?iA and eva' = ?a100
            and evb = ?b200 and ib = ?iA and evb' = ?b200 and evs = "[]",
            THEN conjunct2, THEN conjunct2, THEN conjunct1, THEN mp, OF p3, THEN conjunct1]
    by (simp add: annEvent_def KindNodeAnnouncement_def)
  let ?a150 = "annEvent ''02aa'' ''npubA'' 150"
  let ?r400 = "infoEvent ''02aa'' ''npubA'' 400"
  let ?r600 = "infoEvent ''02aa'' ''npubA'' 600"
  let ?mid = "\<lparr>records = [(''02aa'', \<lparr>lastAnnouncement = \<lparr>createdAt = 150, pub = ''npubA''\<rparr>,
     events = [(''02aa'', ?a150), (''1:02aa:mainnet'', ?r500)]\<rparr>)]\<rparr>"
  have s2: "snd (StoreEvent store1 ?r500) = store2" by (simp add: store2_def)
  have st1: "StoreEvent store2 (annEvent ''02aa'' ''npubB'' 100) = (Some StaleAnnouncement, store2)"
    by (simp add: store2_eq) (simp add: eval_store)
  have st2: "StoreEvent store2 ?a150 = (None, ?mid)"
    by (simp add: store2_eq) (simp add: eval_store)
  have st3: "StoreEvent ?mid ?r400 = (Some StaleRecord, ?mid)"
    by (simp add: eval_store)
  have st4: "fst (StoreEvent ?mid ?r600) = None"
    by (simp add: eval_store)
  have seq: "StoreEvents store2 [?b100, ?a150, ?r400] = ?mid"
    by (simp add: StoreEvents_def st1 st2 st3)
  have kept: "slotKept store2 [?b100, ?a150, ?r400] ''02aa'' ''1:02aa:mainnet''"
    by (simp add: getid_ann getid_info st1 st2 st3)
       (simp add: store2_eq nodeOf_def getNodeState_def annEvent_def)
  have acc5: "fst (StoreEvent (StoreEvents store2 [?b100, ?a150, ?r400]) ?r600) = None"
    by (simp only: seq st4)
  have p4: "GetIdentifier ?r500 = Inr (?iI, ?r500) \<and> GetIdentifier ?r600 = Inr (?iI, ?r600) \<and>
       IdPubKey ?iI = IdPubKey ?iI \<and> fst (StoreEvent store1 ?r500) = None \<and>
       fst (StoreEvent (StoreEvents (snd (StoreEvent store1 ?r500)) [?b100, ?a150, ?r400]) ?r600) = None"
    using acc5 by (simp add: getid_info s2) (simp add: store1_eq, simp add: eval_store)
  have between: "kind ?r500 \<noteq> KindNodeAnnouncement \<and> kind ?r600 \<noteq> KindNodeAnnouncement \<and>
      TagD ?iI = TagD ?iI \<and>
      slotKept (snd (StoreEvent store1 ?r500)) [?b100, ?a150, ?r400] (IdPubKey ?iI) (TagD ?iI)"
    using kept by (simp add: s2) (simp add: infoEvent_def KindNodeAnnouncement_def)
  have c5: "CreatedAt (NostrEvent ?r500) < CreatedAt (NostrEvent ?r600)"
    by (rule store_monotonicity [where s = store1 and eva = ?r500 and ia = ?iI and eva' = ?r500
            and evb = ?r600 and ib = ?iI and evb' = ?r600 and evs = "[?b100, ?a150, ?r400]",
            THEN conjunct2, THEN conjunct2, THEN conjunct1, THEN mp, OF p4, THEN conjunct2,
            THEN mp, OF between])
  have ra: "NewEventFromNostrRelay (NostrEvent ?a100) = Inr ?a100 \<and> GetIdentifier ?a100 = Inr (?iA, ?a100)"
    by (simp add: relay_ann_A100 getid_ann)
  have c6: "TagD (the (id_cache ?a100)) = IdPubKey (the (id_cache ?a100))"
    using store_monotonicity [where r = "NostrEvent ?a100" and built = ?a100 and ic = ?iA
            and built' = ?a100, THEN conjunct2, THEN conjunct2, THEN conjunct2, THEN mp, OF ra]
    by (simp add: annEvent_def KindNodeAnnouncement_def)
  have ri: "NewEventFromNostrRelay (NostrEvent ?r500) = Inr ?r500 \<and> GetIdentifier ?r500 = Inr (?iI, ?r500)"
    by (simp add: relay_info_A500 getid_info)
  have c7: "TagD (the (id_cache ?r500)) \<noteq> IdPubKey (the (id_cache ?r500))"
    using store_monotonicity [where r = "NostrEvent ?r500" and built = ?r500 and ic = ?iI
            and built' = ?r500, THEN conjunct2, THEN conjunct2, THEN conjunct2, THEN mp, OF ri]
    by (simp add: infoEvent_def KindNodeAnnouncement_def)
  show ?thesis using c1 c2 c3 acc4 c4 st1 st2 kept acc5 c5 ra c6 ri c7 by simp
qed

text \<open>
  Without the condition on trust anchors the timestamps of a slot do not increase: the
  record of time 500 signed by \<open>npubA\<close> is stored in slot \<open>1:02aa:mainnet\<close>, the
  announcement of \<open>npubB\<close> empties the slots, and the record of time 50 signed by \<open>npubB\<close>
  is then accepted into the same slot. The condition on the key of the slot is needed for
  an event that was not built from its tags: the bare event around a record of kind 1 and
  time 150 has the kind field 0, is taken for a trust anchor and is filed in the slot of
  the record of time 500, after which a record of time 200 is accepted there.
\<close>

theorem slot_timestamps_counterexample:
  "NewEventFromNostrRelay (NostrEvent (infoEvent ''02aa'' ''npubA'' 500)) = Inr (infoEvent ''02aa'' ''npubA'' 500) \<and>
   NewEventFromNostrRelay (NostrEvent (infoEvent ''02aa'' ''npubB'' 50)) = Inr (infoEvent ''02aa'' ''npubB'' 50) \<and>
   StoreEvent NewMapStore (annEvent ''02aa'' ''npubA'' 100) = (None, store1) \<and>
   StoreEvent store1 (infoEvent ''02aa'' ''npubA'' 500) = (None, store2) \<and>
   map_of (events (nodeOf store2 ''02aa'')) ''1:02aa:mainnet'' = Some (infoEvent ''02aa'' ''npubA'' 500) \<and>
   StoreEvent store2 (annEvent ''02aa'' ''npubB'' 200) = (None, store3) \<and>
   fst (StoreEvent store3 (infoEvent ''02aa'' ''npubB'' 50)) = None \<and>
   map_of (events (nodeOf (snd (StoreEvent store3 (infoEvent ''02aa'' ''npubB'' 50))) ''02aa'')) ''1:02aa:mainnet''
     = Some (infoEvent ''02aa'' ''npubB'' 50) \<and>
   CreatedAt (NostrEvent (infoEvent ''02aa'' ''npubB'' 50)) < CreatedAt (NostrEvent (infoEvent ''02aa'' ''npubA'' 500)) \<and>
   kind (wrapRecord (NostrEvent (infoEvent ''02aa'' ''npubA'' 150))) = KindNodeAnnouncement \<and>
   fst (StoreEvent store2 (wrapRecord (NostrEvent (infoEvent ''02aa'' ''npubA'' 150)))) = None \<and>
   fst (StoreEvent (snd (StoreEvent store2 (wrapRecord (NostrEvent (infoEvent ''02aa'' ''npubA'' 150)))))
          (infoEvent ''02aa'' ''npubA'' 200)) = None \<and>
   CreatedAt (NostrEvent (infoEvent ''02aa'' ''npubA'' 200)) < CreatedAt (NostrEvent (infoEvent ''02aa'' ''npubA'' 500))"
  by (simp add: store1_eq store2_eq store3_eq)
     (simp add: eval_store eval_parse wrapRecord_def KindNodeAnnouncement_def)

section \<open>The trust store: change of identity\<close>

lemma anchor_purge:
  assumes gi: "GetIdentifier ev = Inr (i, ev')" and k: "kind ev = KindNodeAnnouncement"
    and acc: "fst (StoreEvent s ev) = None"
    and chg: "PubKey (NostrEvent ev) \<noteq> pub (lastAnnouncement (nodeOf s (IdPubKey i)))"
  shows "nodeOf (snd (StoreEvent s ev)) (IdPubKey i) =
           \<lparr>lastAnnouncement = \<lparr>createdAt = CreatedAt (NostrEvent ev), pub = PubKey (NostrEvent ev)\<rparr>,
            events = [(TagD i, ev')]\<rparr>"
  using GetIdentifier_keeps [OF gi] k acc chg
  by (auto simp: StoreEvent_result [OF gi] StoreEvent_node [OF gi] registerAnnouncement_def Let_def
           split: if_splits)

lemma StoreEvent_known_node:
  assumes gi: "GetIdentifier ev = Inr (i, ev')"
  shows "map_of (records (snd (StoreEvent s ev))) (IdPubKey i)
           = Some (nodeOf (snd (StoreEvent s ev)) (IdPubKey i))"
  by (simp add: StoreEvent_Inr [OF gi] Let_def update_conv' nodeOf_update_same)

lemma untrusted_exact:
  assumes g2: "GetIdentifier ev2 = Inr (i2, ev2')" and k2: "kind ev2 \<noteq> KindNodeAnnouncement"
    and known: "map_of (records s) (IdPubKey i2) = Some ns"
    and diff: "PubKey (NostrEvent ev2) \<noteq> pub (lastAnnouncement ns)"
  shows "StoreEvent s ev2 = (Some UntrustedSigner, s)"
proof -
  have n: "nodeOf s (IdPubKey i2) = ns"
    using known by (simp add: nodeOf_def getNodeState_def)
  have "s\<lparr>records := AList.update (IdPubKey i2) ns (records s)\<rparr> = s"
    using known by (simp add: update_triv)
  then show ?thesis
    using GetIdentifier_keeps [OF g2] k2 diff
    by (simp add: StoreEvent_Inr [OF g2] n storeRegularEvent_def Let_def)
qed


text \<open>
  Claim C1 (amended). For an event whose identifier resolves: a record that is not a trust
  anchor is accepted only if its identity pubkey is the one bound by the last announcement
  of its node, and fails with UntrustedSigner otherwise. An accepted trust anchor whose
  identity pubkey differs from the bound one leaves the node with the new announcement and
  one slot, its own: the earlier slots are gone. A later record for that node signed by the
  old identity then fails with UntrustedSigner and leaves the store as it is, when it is
  not a trust anchor; a trust anchor signed by the old identity is accepted exactly when
  its createdAt is greater than the new announcement's.
\<close>

theorem compromise_containment:
  "(GetIdentifier ev = Inr (i, ev') \<and> kind ev \<noteq> KindNodeAnnouncement \<longrightarrow>
      (fst (StoreEvent s ev) = None \<longrightarrow>
         PubKey (NostrEvent ev) = pub (lastAnnouncement (nodeOf s (IdPubKey i)))) \<and>
      (PubKey (NostrEvent ev) \<noteq> pub (lastAnnouncement (nodeOf s (IdPubKey i))) \<longrightarrow>
         fst (StoreEvent s ev) = Some UntrustedSigner))
   \<and> (GetIdentifier ev = Inr (i, ev') \<and> kind ev = KindNodeAnnouncement \<and>
       fst (StoreEvent s ev) = None \<and>
       PubKey (NostrEvent ev) \<noteq> pub (lastAnnouncement (nodeOf s (IdPubKey i))) \<longrightarrow>
      nodeOf (snd (StoreEvent s ev)) (IdPubKey i) =
        \<lparr>lastAnnouncement = \<lparr>createdAt = CreatedAt (NostrEvent ev), pub = PubKey (NostrEvent ev)\<rparr>,
         events = [(TagD i, ev')]\<rparr> \<and>
      (GetIdentifier evb = Inr (ib, evb') \<and> IdPubKey ib = IdPubKey i \<and>
       PubKey (NostrEvent evb) = pub (lastAnnouncement (nodeOf s (IdPubKey i))) \<longrightarrow>
         (kind evb \<noteq> KindNodeAnnouncement \<longrightarrow>
            StoreEvent (snd (StoreEvent s ev)) evb = (Some UntrustedSigner, snd (StoreEvent s ev))) \<and>
         (kind evb = KindNodeAnnouncement \<longrightarrow>
            (fst (StoreEvent (snd (StoreEvent s ev)) evb) = None \<longleftrightarrow>
               CreatedAt (NostrEvent ev) < CreatedAt (NostrEvent evb)))))"
proof (intro conjI impI; (elim conjE)?)
  assume "GetIdentifier ev = Inr (i, ev')" "kind ev \<noteq> KindNodeAnnouncement"
    "fst (StoreEvent s ev) = None"
  then show "PubKey (NostrEvent ev) = pub (lastAnnouncement (nodeOf s (IdPubKey i)))"
    by (rule record_rule(1))
next
  assume "GetIdentifier ev = Inr (i, ev')" "kind ev \<noteq> KindNodeAnnouncement"
    "PubKey (NostrEvent ev) \<noteq> pub (lastAnnouncement (nodeOf s (IdPubKey i)))"
  then show "fst (StoreEvent s ev) = Some UntrustedSigner"
    by (rule record_rule(2))
next
  assume "GetIdentifier ev = Inr (i, ev')" "kind ev = KindNodeAnnouncement"
    "fst (StoreEvent s ev) = None"
    "PubKey (NostrEvent ev) \<noteq> pub (lastAnnouncement (nodeOf s (IdPubKey i)))"
  then show "nodeOf (snd (StoreEvent s ev)) (IdPubKey i) =
        \<lparr>lastAnnouncement = \<lparr>createdAt = CreatedAt (NostrEvent ev), pub = PubKey (NostrEvent ev)\<rparr>,
         events = [(TagD i, ev')]\<rparr>"
    by (rule anchor_purge)
next
  assume gi: "GetIdentifier ev = Inr (i, ev')" and k: "kind ev = KindNodeAnnouncement"
    and acc: "fst (StoreEvent s ev) = None"
    and chg: "PubKey (NostrEvent ev) \<noteq> pub (lastAnnouncement (nodeOf s (IdPubKey i)))"
    and g2: "GetIdentifier evb = Inr (ib, evb')" and same: "IdPubKey ib = IdPubKey i"
    and old: "PubKey (NostrEvent evb) = pub (lastAnnouncement (nodeOf s (IdPubKey i)))"
    and k2: "kind evb \<noteq> KindNodeAnnouncement"
  have "map_of (records (snd (StoreEvent s ev))) (IdPubKey ib)
          = Some (nodeOf (snd (StoreEvent s ev)) (IdPubKey i))"
    using StoreEvent_known_node [OF gi, of s] same by simp
  moreover have "PubKey (NostrEvent evb)
      \<noteq> pub (lastAnnouncement (nodeOf (snd (StoreEvent s ev)) (IdPubKey i)))"
    using anchor_purge [OF gi k acc chg] chg old by simp
  ultimately show "StoreEvent (snd (StoreEvent s ev)) evb
      = (Some UntrustedSigner, snd (StoreEvent s ev))"
    using untrusted_exact [OF g2 k2] by blast
next
  assume gi: "GetIdentifier ev = Inr (i, ev')" and k: "kind ev = KindNodeAnnouncement"
    and acc: "fst (StoreEvent s ev) = None"
    and chg: "PubKey (NostrEvent ev) \<noteq> pub (lastAnnouncement (nodeOf s (IdPubKey i)))"
    and g2: "GetIdentifier evb = Inr (ib, evb')" and same: "IdPubKey ib = IdPubKey i"
    and k2: "kind evb = KindNodeAnnouncement"
  show "fst (StoreEvent (snd (StoreEvent s ev)) evb) = None \<longleftrightarrow>
               CreatedAt (NostrEvent ev) < CreatedAt (NostrEvent evb)"
    using announcement_rule(1) [OF g2 k2, of "snd (StoreEvent s ev)"]
          anchor_purge [OF gi k acc chg] same
    by simp
qed

text \<open>The same on \<open>store1\<close>, \<open>store2\<close> and \<open>store3\<close>: identity \<open>npubB\<close> replaces \<open>npubA\<close>
  for node \<open>02aa\<close>.\<close>

theorem compromise_containment_witness:
  "GetIdentifier (infoEvent ''02aa'' ''npubA'' 500)
     = Inr (\<lparr>TagD = ''1:02aa:mainnet'', Network = ''mainnet'', IdPubKey = ''02aa'', IdKind = 1, Opts = []\<rparr>,
            infoEvent ''02aa'' ''npubA'' 500) \<and>
   fst (StoreEvent store1 (infoEvent ''02aa'' ''npubA'' 500)) = None \<and>
   fst (StoreEvent store1 (infoEvent ''02aa'' ''npubB'' 500)) = Some UntrustedSigner \<and>
   fst (StoreEvent store2 (annEvent ''02aa'' ''npubB'' 200)) = None \<and>
   nodeOf store3 ''02aa'' =
     \<lparr>lastAnnouncement = \<lparr>createdAt = 200, pub = ''npubB''\<rparr>,
      events = [(''02aa'', annEvent ''02aa'' ''npubB'' 200)]\<rparr> \<and>
   StoreEvent store3 (infoEvent ''02aa'' ''npubA'' 600) = (Some UntrustedSigner, store3) \<and>
   fst (StoreEvent store3 (annEvent ''02aa'' ''npubA'' 150)) = Some StaleAnnouncement"
  using compromise_containment [where ev = "infoEvent ''02aa'' ''npubA'' 500" and s = store1
          and i = "\<lparr>TagD = ''1:02aa:mainnet'', Network = ''mainnet'', IdPubKey = ''02aa'', IdKind = 1, Opts = []\<rparr>"
          and ev' = "infoEvent ''02aa'' ''npubA'' 500"]
        compromise_containment [where ev = "annEvent ''02aa'' ''npubB'' 200" and s = store2
          and i = "\<lparr>TagD = ''02aa'', Network = [], IdPubKey = ''02aa'', IdKind = 0, Opts = []\<rparr>"
          and ev' = "annEvent ''02aa'' ''npubB'' 200"
          and evb = "infoEvent ''02aa'' ''npubA'' 600"
          and ib = "\<lparr>TagD = ''1:02aa:mainnet'', Network = ''mainnet'', IdPubKey = ''02aa'', IdKind = 1, Opts = []\<rparr>"
          and evb' = "infoEvent ''02aa'' ''npubA'' 600"]
  by (simp add: store1_eq store2_eq store3_eq) (simp add: eval_store)

text \<open>
  A record signed by the old identity is not always rejected afterwards: after \<open>npubB\<close> has
  replaced \<open>npubA\<close>, the trust anchor of time 300 signed by \<open>npubA\<close> is accepted and binds the
  node to \<open>npubA\<close> again.
\<close>

theorem old_identity_announcement_counterexample:
  "NewEventFromNostrRelay (NostrEvent (annEvent ''02aa'' ''npubB'' 200)) = Inr (annEvent ''02aa'' ''npubB'' 200) \<and>
   NewEventFromNostrRelay (NostrEvent (annEvent ''02aa'' ''npubA'' 300)) = Inr (annEvent ''02aa'' ''npubA'' 300) \<and>
   pub (lastAnnouncement (nodeOf store2 ''02aa'')) = ''npubA'' \<and>
   length (events (nodeOf store2 ''02aa'')) = 2 \<and>
   StoreEvent store2 (annEvent ''02aa'' ''npubB'' 200) = (None, store3) \<and>
   pub (lastAnnouncement (nodeOf store3 ''02aa'')) = ''npubB'' \<and>
   length (events (nodeOf store3 ''02aa'')) = 1 \<and>
   PubKey (NostrEvent (annEvent ''02aa'' ''npubA'' 300)) = ''npubA'' \<and>
   fst (StoreEvent store3 (annEvent ''02aa'' ''npubA'' 300)) = None \<and>
   pub (lastAnnouncement (nodeOf (snd (StoreEvent store3 (annEvent ''02aa'' ''npubA'' 300))) ''02aa'')) = ''npubA''"
  by (simp add: store1_eq store2_eq store3_eq) (simp add: eval_store eval_parse)

section \<open>Decimal strings, splitting and joining\<close>

lemma position_Some: "position x ys = Some i \<Longrightarrow> i < length ys \<and> ys ! i = x"
  by (induction ys arbitrary: i) (auto split: if_splits)

lemma position_nth: "distinct ys \<Longrightarrow> i < length ys \<Longrightarrow> position (ys ! i) ys = Some i"
proof (induction ys arbitrary: i)
  case Nil
  then show ?case by simp
next
  case (Cons y ys)
  then show ?case by (cases i) auto
qed

lemma position_None: "position x ys = None \<longleftrightarrow> x \<notin> set ys"
  by (induction ys) auto

lemma digit_val_char: "d < 10 \<Longrightarrow> digit_val (digit_char d) = Some d"
  unfolding digit_val_def digit_char_def
  by (rule position_nth) (simp_all add: decimal_digits_def)

lemma digit_val_Some: "digit_val c = Some d \<Longrightarrow> d < 10 \<and> digit_char d = c"
  unfolding digit_val_def digit_char_def
  using position_Some [of c decimal_digits d] by (simp add: decimal_digits_def)

lemma digit_val_None: "digit_val c = None \<longleftrightarrow> c \<notin> set decimal_digits"
  by (simp add: digit_val_def position_None)

lemma length_decimal_digits: "length decimal_digits = 10"
  by (simp add: decimal_digits_def)

lemma digit_char_in: "d < 10 \<Longrightarrow> digit_char d \<in> set decimal_digits"
  unfolding digit_char_def by (rule nth_mem) (simp add: length_decimal_digits)

lemma digit_char_zero: "d < 10 \<Longrightarrow> digit_char d = CHR ''0'' \<longleftrightarrow> d = 0"
proof -
  assume d: "d < 10"
  have z: "digit_char 0 = CHR ''0''" by (simp add: digit_char_def decimal_digits_def)
  show ?thesis
  proof
    assume "digit_char d = CHR ''0''"
    then have "digit_val (digit_char d) = digit_val (digit_char 0)" by (simp add: z)
    then show "d = 0" using d by (simp add: digit_val_char)
  next
    assume "d = 0" then show "digit_char d = CHR ''0''" by (simp add: z)
  qed
qed

lemma parse_digits_append:
  "parse_digits (xs @ ys) acc =
     (case parse_digits xs acc of None \<Rightarrow> None | Some a \<Rightarrow> parse_digits ys a)"
  by (induction xs arbitrary: acc) (auto split: option.splits)

lemma parse_nat_digits: "parse_digits (nat_digits n) 0 = Some n"
proof (induction n rule: nat_digits.induct)
  case (1 n)
  show ?case
  proof (cases "n < 10")
    case True
    then show ?thesis by (simp add: nat_digits.simps [of n] digit_val_char)
  next
    case False
    then have "parse_digits (nat_digits (n div 10)) 0 = Some (n div 10)" by (rule "1.IH")
    then show ?thesis using False
      by (simp add: nat_digits.simps [of n] parse_digits_append digit_val_char)
  qed
qed

lemma nat_digits_all_digits: "set (nat_digits n) \<subseteq> set decimal_digits"
proof (induction n rule: nat_digits.induct)
  case (1 n)
  show ?case
  proof (cases "n < 10")
    case True
    then show ?thesis by (simp add: nat_digits.simps [of n] digit_char_in)
  next
    case False
    then show ?thesis using "1.IH" by (simp add: nat_digits.simps [of n] digit_char_in)
  qed
qed

lemma nat_digits_nonempty: "nat_digits n \<noteq> []"
  by (simp add: nat_digits.simps [of n])

lemma nat_digits_hd: "hd (nat_digits n) \<in> set decimal_digits"
  using nat_digits_all_digits [of n] nat_digits_nonempty [of n] by (cases "nat_digits n") auto

lemma nat_digits_leading: "0 < n \<Longrightarrow> hd (nat_digits n) \<noteq> CHR ''0''"
proof (induction n rule: nat_digits.induct)
  case (1 n)
  show ?case
  proof (cases "n < 10")
    case True
    then show ?thesis using "1.prems" by (simp add: nat_digits.simps [of n] digit_char_zero)
  next
    case False
    then have "hd (nat_digits (n div 10)) \<noteq> CHR ''0''" by (intro "1.IH") auto
    then show ?thesis using False nat_digits_nonempty [of "n div 10"]
      by (simp add: nat_digits.simps [of n])
  qed
qed

lemma Atoi_Itoa: "in_int64 i \<Longrightarrow> Atoi (Itoa i) = Some i"
proof -
  assume r: "in_int64 i"
  show ?thesis
  proof (cases "i < 0")
    case True
    then show ?thesis using r nat_digits_nonempty [of "nat (- i)"]
      by (simp add: Atoi_def Itoa_def parse_nat_digits)
  next
    case False
    obtain c cs where cs: "nat_digits (nat i) = c # cs"
      using nat_digits_nonempty [of "nat i"] by (cases "nat_digits (nat i)") auto
    have "c \<in> set decimal_digits" using nat_digits_hd [of "nat i"] cs by simp
    then have "c \<noteq> CHR ''-''" "c \<noteq> CHR ''+''" by (auto simp: decimal_digits_def)
    moreover have "parse_digits (c # cs) 0 = Some (nat i)" using parse_nat_digits [of "nat i"] cs by simp
    ultimately show ?thesis using False r cs
      by (simp add: Atoi_def Itoa_def del: parse_digits.simps)
  qed
qed


lemma parse_canonical_digits:
  "digits_no_leading_zero ds \<Longrightarrow> parse_digits ds 0 = Some m \<Longrightarrow> nat_digits m = ds \<and> 0 < m"
proof (induction ds arbitrary: m rule: rev_induct)
  case Nil
  then show ?case by (simp add: digits_no_leading_zero_def)
next
  case (snoc c xs)
  from snoc.prems(2) obtain a d where a: "parse_digits xs 0 = Some a" and d: "digit_val c = Some d"
    and m: "m = a * 10 + d"
    by (auto simp: parse_digits_append split: option.splits)
  from d have d10: "d < 10" and dc: "digit_char d = c" using digit_val_Some by auto
  show ?case
  proof (cases "xs = []")
    case True
    with a have "a = 0" by simp
    moreover have "c \<noteq> CHR ''0''" using snoc.prems(1) True by (simp add: digits_no_leading_zero_def)
    then have "d \<noteq> 0" using digit_char_zero [OF d10] dc by auto
    ultimately show ?thesis using m d10 dc True by (simp add: nat_digits.simps [of d])
  next
    case False
    then have "digits_no_leading_zero xs" using snoc.prems(1) by (simp add: digits_no_leading_zero_def)
    from snoc.IH [OF this a] have xs: "nat_digits a = xs" and pos: "0 < a" by auto
    have "m div 10 = a" "m mod 10 = d" "\<not> m < 10" using m d10 pos by auto
    then show ?thesis using xs dc pos by (simp add: nat_digits.simps [of m])
  qed
qed

lemma Itoa_Atoi_canonical:
  assumes "canonical_decimal s" and "Atoi s = Some n"
  shows "Itoa n = s"
proof -
  consider (zero) "s = ''0''" | (pos) "digits_no_leading_zero s"
    | (neg) "s \<noteq> []" "hd s = CHR ''-''" "digits_no_leading_zero (tl s)"
    using assms(1) by (auto simp: canonical_decimal_def)
  then show ?thesis
  proof cases
    case zero
    with assms(2) show ?thesis
      by (simp add: Atoi_def Itoa_def digit_val_def decimal_digits_def nat_digits.simps [of 0] digit_char_def in_int64_def)
  next
    case pos
    then obtain c cs where s: "s = c # cs" and c: "c \<in> set decimal_digits"
      by (cases s) (auto simp: digits_no_leading_zero_def)
    from c have nc: "c \<noteq> CHR ''-''" "c \<noteq> CHR ''+''" by (auto simp: decimal_digits_def)
    from assms(2) s nc obtain m where p: "parse_digits s 0 = Some m" and n: "n = int m"
      by (auto simp: Atoi_def Let_def split: option.splits if_splits simp del: parse_digits.simps)
    from parse_canonical_digits [OF pos p] n show ?thesis by (simp add: Itoa_def)
  next
    case neg
    then obtain cs where s: "s = CHR ''-'' # cs" by (cases s) auto
    from assms(2) s obtain m where p: "parse_digits cs 0 = Some m" and n: "n = - int m"
      by (auto simp: Atoi_def Let_def split: option.splits if_splits)
    from neg(3) s have "digits_no_leading_zero cs" by simp
    from parse_canonical_digits [OF this p] n s show ?thesis by (simp add: Itoa_def)
  qed
qed

lemma canonical_Itoa: "canonical_decimal (Itoa n)"
proof (cases "n < 0")
  case True
  then have "0 < nat (- n)" by simp
  then show ?thesis using True nat_digits_leading [of "nat (- n)"] nat_digits_all_digits [of "nat (- n)"]
      nat_digits_nonempty [of "nat (- n)"]
    by (simp add: canonical_decimal_def Itoa_def digits_no_leading_zero_def)
next
  case False
  show ?thesis
  proof (cases "n = 0")
    case True
    then show ?thesis
      by (simp add: canonical_decimal_def Itoa_def nat_digits.simps [of 0] digit_char_def decimal_digits_def)
  next
    case F2: False
    with False have "0 < nat n" by simp
    then show ?thesis using False nat_digits_leading [of "nat n"] nat_digits_all_digits [of "nat n"]
      nat_digits_nonempty [of "nat n"]
      by (simp add: canonical_decimal_def Itoa_def digits_no_leading_zero_def)
  qed
qed


lemma Split_no_sep: "c \<notin> set p \<Longrightarrow> Split p c = [p]"
  by (induction p) auto

lemma Split_append_sep: "c \<notin> set p \<Longrightarrow> Split (p @ c # rest) c = p # Split rest c"
  by (induction p) auto

lemma Split_Join:
  "ps \<noteq> [] \<Longrightarrow> \<forall>p \<in> set ps. c \<notin> set p \<Longrightarrow> Split (Join ps [c]) c = ps"
proof (induction ps "[c]" rule: Join.induct)
  case 1
  then show ?case by simp
next
  case (2 p)
  then show ?case by (simp add: Split_no_sep)
next
  case (3 p q ps)
  then show ?case by (simp add: Split_append_sep)
qed

lemmas eval_num = Atoi_def in_int64_def digit_val_def decimal_digits_def Itoa_def digit_char_def

section \<open>Reading the identifier\<close>

lemma Find_None_iff: "Find tags key = None \<longleftrightarrow> (\<forall>t \<in> set tags. \<not> (2 \<le> length t \<and> hd t = key))"
  by (auto simp: Find_def find_None_iff tag_matches_def)

lemma Find_first:
  "2 \<le> length t \<Longrightarrow> hd t = key \<Longrightarrow> \<forall>u \<in> set pre. \<not> (2 \<le> length u \<and> hd u = key) \<Longrightarrow>
     Find (pre @ t # post) key = Some t"
  by (induction pre) (auto simp: Find_def tag_matches_def)

lemma Find_Some: "Find tags key = Some t \<Longrightarrow> t \<in> set tags \<and> 2 \<le> length t \<and> hd t = key"
  unfolding Find_def tag_matches_def
  by (auto simp: find_Some_iff)

lemma Find_append:
  "Find (xs @ ys) key = (case Find xs key of None \<Rightarrow> Find ys key | Some t \<Rightarrow> Some t)"
  by (induction xs) (auto simp: Find_def)

lemma GetIdentifier_uncached:
  "id_cache e = None \<Longrightarrow>
     GetIdentifier e = (case parseIdentifier (NostrEvent e) of
                          Inl err \<Rightarrow> Inl err | Inr i \<Rightarrow> Inr (i, e\<lparr>id_cache := Some i\<rparr>))"
  by (simp add: GetIdentifier_def)

lemma parse_Inr_iff:
  "(\<exists>i. parseIdentifier ev = Inr i) \<longleftrightarrow>
     (\<exists>tagD tagK n. Find (Tags ev) ''d'' = Some tagD \<and> Find (Tags ev) ''k'' = Some tagK \<and>
        Atoi (tagK ! 1) = Some n \<and>
        (n = KindNodeAnnouncement \<or> 3 \<le> length (Split (tagD ! 1) (CHR '':''))))"
proof (cases "Find (Tags ev) ''d''")
  case None
  then show ?thesis by (simp add: parseIdentifier_def)
next
  case (Some tagD)
  note d = this Find_Some [OF this]
  show ?thesis
  proof (cases "Find (Tags ev) ''k''")
    case None
    then show ?thesis using d by (simp add: parseIdentifier_def)
  next
    case (Some tagK)
    note k = this Find_Some [OF this]
    show ?thesis using d k
      by (cases "Atoi (tagK ! 1)") (auto simp: parseIdentifier_def Let_def)
  qed
qed

lemma parse_Inl: "parseIdentifier ev = Inl err \<Longrightarrow> \<exists>p. err = MalformedTag p"
  by (auto simp: parseIdentifier_def Let_def split: option.splits if_splits)

lemma GetIdentifier_Inl: "GetIdentifier e = Inl err \<Longrightarrow> \<exists>p. err = MalformedTag p"
  by (auto simp: GetIdentifier_def split: option.splits sum.splits dest: parse_Inl)

text \<open>
  Claim C4 (amended). On an event whose identifier is not cached, \<open>GetIdentifier\<close> reads the
  first \<open>d\<close> tag that has a value and the first \<open>k\<close> tag that has a value; further \<open>d\<close> or \<open>k\<close>
  tags are not looked at. It succeeds exactly when both exist, the value of that \<open>k\<close> tag is
  an integer and, for a kind other than the trust anchor, the value of that \<open>d\<close> tag splits
  on \<open>:\<close> into three parts or more. Every failure is a MalformedTag error: no \<open>d\<close> tag with
  a value, no \<open>k\<close> tag with a value, a \<open>k\<close> value that is not an integer, fewer than three
  parts. For the trust-anchor kind the whole \<open>d\<close> value is the Lightning pubkey, network and
  opts are empty; otherwise the parts are kindInt, lightningPubKey, network and the opts.
\<close>

theorem GetIdentifier_characterised:
  "id_cache e = None \<longrightarrow>
   (Find (Tags (NostrEvent e)) ''d'' = None \<longrightarrow> GetIdentifier e = Inl (MalformedTag MissingD)) \<and>
   (Find (Tags (NostrEvent e)) ''d'' = Some tagD \<and> Find (Tags (NostrEvent e)) ''k'' = None \<longrightarrow>
      GetIdentifier e = Inl (MalformedTag MissingK)) \<and>
   (Find (Tags (NostrEvent e)) ''d'' = Some tagD \<and> Find (Tags (NostrEvent e)) ''k'' = Some tagK \<longrightarrow>
      (Atoi (tagK ! 1) = None \<longrightarrow> GetIdentifier e = Inl (MalformedTag KindNotInt)) \<and>
      (Atoi (tagK ! 1) = Some KindNodeAnnouncement \<longrightarrow>
         (let i = \<lparr>TagD = tagD ! 1, Network = [], IdPubKey = tagD ! 1,
                   IdKind = KindNodeAnnouncement, Opts = []\<rparr>
          in GetIdentifier e = Inr (i, e\<lparr>id_cache := Some i\<rparr>))) \<and>
      (Atoi (tagK ! 1) = Some n \<and> n \<noteq> KindNodeAnnouncement \<longrightarrow>
         (length (Split (tagD ! 1) (CHR '':'')) < 3 \<longrightarrow>
            GetIdentifier e = Inl (MalformedTag TooFewParts)) \<and>
         (Split (tagD ! 1) (CHR '':'') = kindInt # lightningPubKey # network # opts \<longrightarrow>
            (let i = \<lparr>TagD = tagD ! 1, Network = network, IdPubKey = lightningPubKey,
                      IdKind = n, Opts = opts\<rparr>
             in GetIdentifier e = Inr (i, e\<lparr>id_cache := Some i\<rparr>))))) \<and>
   (Find tags key = None \<longleftrightarrow> (\<forall>t \<in> set tags. \<not> (2 \<le> length t \<and> hd t = key))) \<and>
   (2 \<le> length t \<and> hd t = key \<and> (\<forall>u \<in> set pre. \<not> (2 \<le> length u \<and> hd u = key)) \<longrightarrow>
      Find (pre @ t # post) key = Some t) \<and>
   ((\<exists>i e'. GetIdentifier e = Inr (i, e')) \<longleftrightarrow>
      (\<exists>tagD tagK n. Find (Tags (NostrEvent e)) ''d'' = Some tagD \<and>
         Find (Tags (NostrEvent e)) ''k'' = Some tagK \<and> Atoi (tagK ! 1) = Some n \<and>
         (n = KindNodeAnnouncement \<or> 3 \<le> length (Split (tagD ! 1) (CHR '':''))))) \<and>
   (GetIdentifier e = Inl err \<longrightarrow> (\<exists>p. err = MalformedTag p))"
proof (intro impI conjI; (elim conjE)?)
  assume "id_cache e = None" "Find (Tags (NostrEvent e)) ''d'' = None"
  then show "GetIdentifier e = Inl (MalformedTag MissingD)"
    by (simp add: GetIdentifier_uncached parseIdentifier_def)
next
  assume "id_cache e = None" "Find (Tags (NostrEvent e)) ''d'' = Some tagD"
    "Find (Tags (NostrEvent e)) ''k'' = None"
  then show "GetIdentifier e = Inl (MalformedTag MissingK)"
    using Find_Some [of "Tags (NostrEvent e)" "''d''" tagD]
    by (simp add: GetIdentifier_uncached parseIdentifier_def)
next
  assume "id_cache e = None" "Find (Tags (NostrEvent e)) ''d'' = Some tagD"
    "Find (Tags (NostrEvent e)) ''k'' = Some tagK" "Atoi (tagK ! 1) = None"
  then show "GetIdentifier e = Inl (MalformedTag KindNotInt)"
    using Find_Some [of "Tags (NostrEvent e)" "''d''" tagD]
          Find_Some [of "Tags (NostrEvent e)" "''k''" tagK]
    by (simp add: GetIdentifier_uncached parseIdentifier_def)
next
  assume "id_cache e = None" "Find (Tags (NostrEvent e)) ''d'' = Some tagD"
    "Find (Tags (NostrEvent e)) ''k'' = Some tagK" "Atoi (tagK ! 1) = Some KindNodeAnnouncement"
  then show "let i = \<lparr>TagD = tagD ! 1, Network = [], IdPubKey = tagD ! 1,
                   IdKind = KindNodeAnnouncement, Opts = []\<rparr>
          in GetIdentifier e = Inr (i, e\<lparr>id_cache := Some i\<rparr>)"
    using Find_Some [of "Tags (NostrEvent e)" "''d''" tagD]
          Find_Some [of "Tags (NostrEvent e)" "''k''" tagK]
    by (simp add: GetIdentifier_uncached parseIdentifier_def)
next
  assume "id_cache e = None" "Find (Tags (NostrEvent e)) ''d'' = Some tagD"
    "Find (Tags (NostrEvent e)) ''k'' = Some tagK" "Atoi (tagK ! 1) = Some n"
    "n \<noteq> KindNodeAnnouncement" "length (Split (tagD ! 1) (CHR '':'')) < 3"
  then show "GetIdentifier e = Inl (MalformedTag TooFewParts)"
    using Find_Some [of "Tags (NostrEvent e)" "''d''" tagD]
          Find_Some [of "Tags (NostrEvent e)" "''k''" tagK]
    by (simp add: GetIdentifier_uncached parseIdentifier_def)
next
  assume "id_cache e = None" "Find (Tags (NostrEvent e)) ''d'' = Some tagD"
    "Find (Tags (NostrEvent e)) ''k'' = Some tagK" "Atoi (tagK ! 1) = Some n"
    "n \<noteq> KindNodeAnnouncement"
    "Split (tagD ! 1) (CHR '':'') = kindInt # lightningPubKey # network # opts"
  then show "let i = \<lparr>TagD = tagD ! 1, Network = network, IdPubKey = lightningPubKey,
                      IdKind = n, Opts = opts\<rparr>
             in GetIdentifier e = Inr (i, e\<lparr>id_cache := Some i\<rparr>)"
    using Find_Some [of "Tags (NostrEvent e)" "''d''" tagD]
          Find_Some [of "Tags (NostrEvent e)" "''k''" tagK]
    by (simp add: GetIdentifier_uncached parseIdentifier_def)
next
  show "Find tags key = None \<longleftrightarrow> (\<forall>t \<in> set tags. \<not> (2 \<le> length t \<and> hd t = key))"
    by (rule Find_None_iff)
next
  assume "2 \<le> length t" "hd t = key" "\<forall>u \<in> set pre. \<not> (2 \<le> length u \<and> hd u = key)"
  then show "Find (pre @ t # post) key = Some t" by (rule Find_first)
next
  assume c: "id_cache e = None"
  have "(\<exists>i e'. GetIdentifier e = Inr (i, e')) \<longleftrightarrow> (\<exists>i. parseIdentifier (NostrEvent e) = Inr i)"
    by (auto simp: GetIdentifier_uncached [OF c] split: sum.splits)
  then show "(\<exists>i e'. GetIdentifier e = Inr (i, e')) \<longleftrightarrow>
      (\<exists>tagD tagK n. Find (Tags (NostrEvent e)) ''d'' = Some tagD \<and>
         Find (Tags (NostrEvent e)) ''k'' = Some tagK \<and> Atoi (tagK ! 1) = Some n \<and>
         (n = KindNodeAnnouncement \<or> 3 \<le> length (Split (tagD ! 1) (CHR '':''))))"
    by (simp only: parse_Inr_iff)
next
  assume "GetIdentifier e = Inl err"
  then show "\<exists>p. err = MalformedTag p" by (rule GetIdentifier_Inl)
qed

theorem GetIdentifier_characterised_witness:
  "GetIdentifier (wrapRecord (NostrEvent (infoEvent ''02aa'' ''npubA'' 500)))
     = Inr (\<lparr>TagD = ''1:02aa:mainnet'', Network = ''mainnet'', IdPubKey = ''02aa'', IdKind = 1, Opts = []\<rparr>,
            (wrapRecord (NostrEvent (infoEvent ''02aa'' ''npubA'' 500)))\<lparr>id_cache :=
               Some \<lparr>TagD = ''1:02aa:mainnet'', Network = ''mainnet'', IdPubKey = ''02aa'', IdKind = 1, Opts = []\<rparr>\<rparr>) \<and>
   GetIdentifier (wrapRecord (blankRecord\<lparr>Tags := [[''d''], [''k'', ''1'']]\<rparr>)) = Inl (MalformedTag MissingD) \<and>
   GetIdentifier (wrapRecord (blankRecord\<lparr>Tags := [[''d'', ''1:02aa''], [''k'', ''1'']]\<rparr>)) = Inl (MalformedTag TooFewParts)"
proof -
  let ?e = "wrapRecord (NostrEvent (infoEvent ''02aa'' ''npubA'' 500))"
  have c: "id_cache ?e = None" by (simp add: wrapRecord_def)
  have f: "Find (Tags (NostrEvent ?e)) ''d'' = Some [''d'', ''1:02aa:mainnet''] \<and>
           Find (Tags (NostrEvent ?e)) ''k'' = Some [''k'', ''1'']"
    by (simp add: wrapRecord_def infoEvent_def Find_def tag_matches_def)
  have a: "Atoi ([''k'', ''1''] ! 1) = Some 1 \<and> (1::int) \<noteq> KindNodeAnnouncement"
    by (simp add: eval_num KindNodeAnnouncement_def)
  have sp: "Split ([''d'', ''1:02aa:mainnet''] ! 1) (CHR '':'') = ''1'' # ''02aa'' # ''mainnet'' # []"
    by simp
  have 1: "GetIdentifier ?e
     = Inr (\<lparr>TagD = ''1:02aa:mainnet'', Network = ''mainnet'', IdPubKey = ''02aa'', IdKind = 1, Opts = []\<rparr>,
            ?e\<lparr>id_cache := Some \<lparr>TagD = ''1:02aa:mainnet'', Network = ''mainnet'', IdPubKey = ''02aa'', IdKind = 1, Opts = []\<rparr>\<rparr>)"
    using GetIdentifier_characterised [where e = ?e and tagD = "[''d'', ''1:02aa:mainnet'']"
        and tagK = "[''k'', ''1'']" and n = 1 and kindInt = "''1''" and lightningPubKey = "''02aa''"
        and network = "''mainnet''" and opts = "[]",
        THEN mp, OF c, THEN conjunct2, THEN conjunct2, THEN conjunct1, THEN mp, OF f,
        THEN conjunct2, THEN conjunct2, THEN mp, OF a, THEN conjunct2, THEN mp, OF sp]
    by (simp add: Let_def)
  let ?e2 = "wrapRecord (blankRecord\<lparr>Tags := [[''d''], [''k'', ''1'']]\<rparr>)"
  have c2: "id_cache ?e2 = None" by (simp add: wrapRecord_def)
  have f2: "Find (Tags (NostrEvent ?e2)) ''d'' = None"
    by (simp add: wrapRecord_def blankRecord_def Find_def tag_matches_def)
  have 2: "GetIdentifier ?e2 = Inl (MalformedTag MissingD)"
    using GetIdentifier_characterised [where e = ?e2, THEN mp, OF c2, THEN conjunct1, THEN mp, OF f2] .
  let ?e3 = "wrapRecord (blankRecord\<lparr>Tags := [[''d'', ''1:02aa''], [''k'', ''1'']]\<rparr>)"
  have c3: "id_cache ?e3 = None" by (simp add: wrapRecord_def)
  have f3: "Find (Tags (NostrEvent ?e3)) ''d'' = Some [''d'', ''1:02aa''] \<and>
           Find (Tags (NostrEvent ?e3)) ''k'' = Some [''k'', ''1'']"
    by (simp add: wrapRecord_def blankRecord_def Find_def tag_matches_def)
  have sp3: "length (Split ([''d'', ''1:02aa''] ! 1) (CHR '':'')) < 3" by simp
  have 3: "GetIdentifier ?e3 = Inl (MalformedTag TooFewParts)"
    using GetIdentifier_characterised [where e = ?e3 and tagD = "[''d'', ''1:02aa'']"
        and tagK = "[''k'', ''1'']" and n = 1,
        THEN mp, OF c3, THEN conjunct2, THEN conjunct2, THEN conjunct1, THEN mp, OF f3,
        THEN conjunct2, THEN conjunct2, THEN mp, OF a, THEN conjunct1, THEN mp, OF sp3] .
  show ?thesis using 1 2 3 by blast
qed

text \<open>A record with two \<open>d\<close> tags and two \<open>k\<close> tags is accepted: the first of each is
  read.\<close>

theorem duplicate_tags_counterexample:
  "Tags dupTagRecord = [[''d'', ''02aa''], [''d'', ''03bb''], [''k'', ''0''], [''k'', ''1'']] \<and>
   NewEventFromNostrRelay dupTagRecord
     = Inr \<lparr>NostrEvent = dupTagRecord, kind = 0, finalized = True,
            id_cache = Some \<lparr>TagD = ''02aa'', Network = [], IdPubKey = ''02aa'', IdKind = 0, Opts = []\<rparr>\<rparr>"
  by (simp add: dupTagRecord_def eval_parse)

section \<open>Finalize and the identifier\<close>

lemma Join_concat: "Join (p # ps) sep = p @ concat (map (\<lambda>q. sep @ q) ps)"
  by (induction ps arbitrary: p) auto

lemma Itoa_no_colon: "CHR '':'' \<notin> set (Itoa n)"
  using nat_digits_all_digits [of "nat n"] nat_digits_all_digits [of "nat (- n)"]
  by (auto simp: Itoa_def decimal_digits_def)

lemma Finalize_Inr_iff:
  "(\<exists>e'. Finalize e network pubkey knd opts = Inr e') \<longleftrightarrow>
     Find (Tags (NostrEvent e)) ''d'' = None \<and> Find (Tags (NostrEvent e)) ''k'' = None"
  by (auto simp: Finalize_def Let_def split: if_splits)

lemma Finalize_Inr:
  assumes "Finalize e network pubkey knd opts = Inr e'"
  shows "Find (Tags (NostrEvent e)) ''d'' = None" "Find (Tags (NostrEvent e)) ''k'' = None"
    "e' = e\<lparr>NostrEvent := (NostrEvent e)\<lparr>Kind := KindLightningInformation,
               Tags := Tags (NostrEvent e) @
                 [[''d'', if knd = KindNodeAnnouncement then pubkey
                          else Join ([Itoa knd, pubkey, network] @ opts) '':''],
                  [''k'', Itoa knd]]\<rparr>,
             kind := knd, finalized := True\<rparr>"
  using assms by (auto simp: Finalize_def Let_def split: if_splits)

lemma Find_finalized:
  assumes "Find tags ''d'' = None" "Find tags ''k'' = None"
  shows "Find (tags @ [[''d'', x], [''k'', y]]) ''d'' = Some [''d'', x]"
    and "Find (tags @ [[''d'', x], [''k'', y]]) ''k'' = Some [''k'', y]"
  using assms by (simp_all add: Find_append) (simp_all add: Find_def tag_matches_def)

lemma parse_finalized:
  assumes nd: "Find tags ''d'' = None" and nk: "Find tags ''k'' = None" and r: "in_int64 knd"
    and tg: "Tags ev = tags @ [[''d'', x], [''k'', Itoa knd]]"
  shows "parseIdentifier ev =
     (if knd = KindNodeAnnouncement
      then Inr \<lparr>TagD = x, Network = [], IdPubKey = x, IdKind = knd, Opts = []\<rparr>
      else (let parts = Split x (CHR '':'')
            in if length parts < 3 then Inl (MalformedTag TooFewParts)
               else Inr \<lparr>TagD = x, Network = parts ! 2, IdPubKey = parts ! 1, IdKind = knd,
                         Opts = drop 3 parts\<rparr>))"
  by (simp add: parseIdentifier_def tg Find_finalized [OF nd nk] Atoi_Itoa [OF r] Let_def)

text \<open>
  Claim C5 (amended). \<open>Finalize\<close> on an event with no cached identifier and a kind in the
  range of \<open>int\<close> appends the \<open>d\<close> tag and the \<open>k\<close> tag: the \<open>d\<close> value is the pubkey for the
  trust-anchor kind, and kindInt, pubkey, network and the opts joined by \<open>:\<close> for every
  other kind. Reading the identifier back gives, for the trust-anchor kind, the pubkey with
  an empty network and no opts, whatever network and opts were passed; for another kind it
  gives the pubkey, the network and the opts that were passed, provided none of them has a
  \<open>:\<close> in it.
\<close>

theorem Finalize_identifier_roundtrip:
  "id_cache e = None \<and> in_int64 knd \<and> Finalize e network pubkey knd opts = Inr e' \<longrightarrow>
     (let tagD = (if knd = KindNodeAnnouncement then pubkey
                  else Itoa knd @ '':'' @ pubkey @ '':'' @ network
                         @ concat (map (\<lambda>opt. '':'' @ opt) opts))
      in Tags (NostrEvent e') = Tags (NostrEvent e) @ [[''d'', tagD], [''k'', Itoa knd]] \<and>
         (knd = KindNodeAnnouncement \<longrightarrow>
            (let i = \<lparr>TagD = pubkey, Network = [], IdPubKey = pubkey, IdKind = knd, Opts = []\<rparr>
             in GetIdentifier e' = Inr (i, e'\<lparr>id_cache := Some i\<rparr>))) \<and>
         (knd \<noteq> KindNodeAnnouncement \<and> CHR '':'' \<notin> set pubkey \<and> CHR '':'' \<notin> set network \<and>
          (\<forall>opt \<in> set opts. CHR '':'' \<notin> set opt) \<longrightarrow>
            (let i = \<lparr>TagD = tagD, Network = network, IdPubKey = pubkey, IdKind = knd,
                      Opts = opts\<rparr>
             in GetIdentifier e' = Inr (i, e'\<lparr>id_cache := Some i\<rparr>))))"
proof (rule impI, elim conjE)
  assume c: "id_cache e = None" and r: "in_int64 knd"
    and f: "Finalize e network pubkey knd opts = Inr e'"
  define x where "x = (if knd = KindNodeAnnouncement then pubkey
                        else Join ([Itoa knd, pubkey, network] @ opts) '':'')"
  note fin = Finalize_Inr [OF f]
  have tg: "Tags (NostrEvent e') = Tags (NostrEvent e) @ [[''d'', x], [''k'', Itoa knd]]"
    by (simp add: fin(3) x_def)
  have c': "id_cache e' = None" by (simp add: fin(3) c)
  have xeq: "x = (if knd = KindNodeAnnouncement then pubkey
                  else Itoa knd @ '':'' @ pubkey @ '':'' @ network
                         @ concat (map (\<lambda>opt. '':'' @ opt) opts))"
    by (simp add: x_def Join_concat)
  have p: "parseIdentifier (NostrEvent e') =
     (if knd = KindNodeAnnouncement
      then Inr \<lparr>TagD = x, Network = [], IdPubKey = x, IdKind = knd, Opts = []\<rparr>
      else (let parts = Split x (CHR '':'')
            in if length parts < 3 then Inl (MalformedTag TooFewParts)
               else Inr \<lparr>TagD = x, Network = parts ! 2, IdPubKey = parts ! 1, IdKind = knd,
                         Opts = drop 3 parts\<rparr>))"
    by (rule parse_finalized [OF fin(1) fin(2) r tg])
  have anchor: "knd = KindNodeAnnouncement \<Longrightarrow>
      GetIdentifier e' = Inr (\<lparr>TagD = pubkey, Network = [], IdPubKey = pubkey, IdKind = knd, Opts = []\<rparr>,
         e'\<lparr>id_cache := Some \<lparr>TagD = pubkey, Network = [], IdPubKey = pubkey, IdKind = knd, Opts = []\<rparr>\<rparr>)"
    by (simp add: GetIdentifier_uncached [OF c'] p x_def)
  have other: "GetIdentifier e' = Inr (\<lparr>TagD = x, Network = network, IdPubKey = pubkey, IdKind = knd, Opts = opts\<rparr>,
         e'\<lparr>id_cache := Some \<lparr>TagD = x, Network = network, IdPubKey = pubkey, IdKind = knd, Opts = opts\<rparr>\<rparr>)"
    if k: "knd \<noteq> KindNodeAnnouncement" and nc: "CHR '':'' \<notin> set pubkey" "CHR '':'' \<notin> set network"
      "\<forall>opt \<in> set opts. CHR '':'' \<notin> set opt"
  proof -
    have "Split (Join ([Itoa knd, pubkey, network] @ opts) [CHR '':'']) (CHR '':'')
            = [Itoa knd, pubkey, network] @ opts"
      using nc Itoa_no_colon [of knd] by (intro Split_Join) auto
    then have "Split x (CHR '':'') = Itoa knd # pubkey # network # opts"
      using k by (simp add: x_def)
    then show ?thesis using k by (simp add: GetIdentifier_uncached [OF c'] p Let_def)
  qed
  show "let tagD = (if knd = KindNodeAnnouncement then pubkey
                  else Itoa knd @ '':'' @ pubkey @ '':'' @ network
                         @ concat (map (\<lambda>opt. '':'' @ opt) opts))
      in Tags (NostrEvent e') = Tags (NostrEvent e) @ [[''d'', tagD], [''k'', Itoa knd]] \<and>
         (knd = KindNodeAnnouncement \<longrightarrow>
            (let i = \<lparr>TagD = pubkey, Network = [], IdPubKey = pubkey, IdKind = knd, Opts = []\<rparr>
             in GetIdentifier e' = Inr (i, e'\<lparr>id_cache := Some i\<rparr>))) \<and>
         (knd \<noteq> KindNodeAnnouncement \<and> CHR '':'' \<notin> set pubkey \<and> CHR '':'' \<notin> set network \<and>
          (\<forall>opt \<in> set opts. CHR '':'' \<notin> set opt) \<longrightarrow>
            (let i = \<lparr>TagD = tagD, Network = network, IdPubKey = pubkey, IdKind = knd,
                      Opts = opts\<rparr>
             in GetIdentifier e' = Inr (i, e'\<lparr>id_cache := Some i\<rparr>)))"
    unfolding Let_def xeq [symmetric]
    using tg anchor other by blast
qed

theorem Finalize_identifier_roundtrip_witness:
  "Finalize (wrapRecord blankRecord) ''mainnet'' ''02aa'' 1 [''x'', ''y'']
     = Inr \<lparr>NostrEvent = blankRecord\<lparr>Kind := 38171,
               Tags := [[''d'', ''1:02aa:mainnet:x:y''], [''k'', ''1'']]\<rparr>,
            kind = 1, finalized = True, id_cache = None\<rparr> \<and>
   finalizeThenParse (wrapRecord blankRecord) ''mainnet'' ''02aa'' 1 [''x'', ''y'']
     = Inr \<lparr>TagD = ''1:02aa:mainnet:x:y'', Network = ''mainnet'', IdPubKey = ''02aa'', IdKind = 1,
            Opts = [''x'', ''y'']\<rparr>"
proof -
  let ?e' = "\<lparr>NostrEvent = blankRecord\<lparr>Kind := 38171,
               Tags := [[''d'', ''1:02aa:mainnet:x:y''], [''k'', ''1'']]\<rparr>,
            kind = 1, finalized = True, id_cache = None\<rparr>"
  have f: "Finalize (wrapRecord blankRecord) ''mainnet'' ''02aa'' 1 [''x'', ''y''] = Inr ?e'"
    by (simp add: Finalize_def wrapRecord_def blankRecord_def Find_def KindNodeAnnouncement_def
          KindLightningInformation_def Itoa_def nat_digits.simps digit_char_def decimal_digits_def)
  have h: "id_cache (wrapRecord blankRecord) = None \<and> in_int64 1 \<and>
           Finalize (wrapRecord blankRecord) ''mainnet'' ''02aa'' 1 [''x'', ''y''] = Inr ?e'"
    using f by (simp add: wrapRecord_def in_int64_def)
  have nc: "(1::int) \<noteq> KindNodeAnnouncement \<and> CHR '':'' \<notin> set ''02aa'' \<and> CHR '':'' \<notin> set ''mainnet'' \<and>
          (\<forall>opt \<in> set [''x'', ''y'']. CHR '':'' \<notin> set opt)"
    by (simp add: KindNodeAnnouncement_def)
  have "\<exists>e''. GetIdentifier ?e' = Inr (\<lparr>TagD = ''1:02aa:mainnet:x:y'', Network = ''mainnet'',
              IdPubKey = ''02aa'', IdKind = 1, Opts = [''x'', ''y'']\<rparr>, e'')"
    using Finalize_identifier_roundtrip [where e = "wrapRecord blankRecord" and knd = 1
        and network = "''mainnet''" and pubkey = "''02aa''" and opts = "[''x'', ''y'']" and e' = ?e',
        THEN mp, OF h] nc
    by (simp add: Let_def KindNodeAnnouncement_def Itoa_def nat_digits.simps digit_char_def decimal_digits_def)
  then show ?thesis using f by (auto simp: finalizeThenParse_def)
qed

text \<open>An opt with a \<open>:\<close> in it comes back as two opts, and the network passed with the
  trust-anchor kind does not come back.\<close>

theorem colon_in_opts_counterexample:
  "finalizeThenParse (wrapRecord blankRecord) ''mainnet'' ''02aa'' 1 [''a:b'']
     = Inr \<lparr>TagD = ''1:02aa:mainnet:a:b'', Network = ''mainnet'', IdPubKey = ''02aa'', IdKind = 1,
            Opts = [''a'', ''b'']\<rparr> \<and>
   finalizeThenParse (wrapRecord blankRecord) ''mainnet'' ''02aa'' 0 [''x'']
     = Inr \<lparr>TagD = ''02aa'', Network = [], IdPubKey = ''02aa'', IdKind = 0, Opts = []\<rparr>"
  by (simp add: finalizeThenParse_def Finalize_def wrapRecord_def blankRecord_def
        KindNodeAnnouncement_def KindLightningInformation_def GetIdentifier_def parseIdentifier_def
        Find_def tag_matches_def eval_num nat_digits.simps)

section \<open>The kind tag test of Verify\<close>

lemma parse_Inr_k:
  "parseIdentifier ev = Inr idx \<Longrightarrow>
     \<exists>k. Find (Tags ev) ''k'' = Some k \<and> 2 \<le> length k \<and> Atoi (k ! 1) = Some (IdKind idx)"
  by (auto simp: parseIdentifier_def Let_def split: option.splits if_splits)

lemma coherent_GetIdentifier:
  "cache_coherent e \<Longrightarrow> GetIdentifier e = Inr (idx, e') \<Longrightarrow>
     parseIdentifier (NostrEvent e) = Inr idx \<and> NostrEvent e' = NostrEvent e \<and> kind e' = kind e"
  by (auto simp: cache_coherent_def GetIdentifier_def split: option.splits sum.splits)

lemma mismatch_iff:
  assumes co: "cache_coherent e" and gi: "GetIdentifier e = Inr (idx, e')"
    and k: "Find (Tags (NostrEvent e)) ''k'' = Some k"
  shows "kindTagMismatch e' idx \<longleftrightarrow> \<not> canonical_decimal (k ! 1)"
proof -
  from coherent_GetIdentifier [OF co gi]
  have p: "parseIdentifier (NostrEvent e) = Inr idx" and ne: "NostrEvent e' = NostrEvent e" by auto
  from parse_Inr_k [OF p] k have len: "2 \<le> length k" and at: "Atoi (k ! 1) = Some (IdKind idx)"
    by auto
  have "kindTagMismatch e' idx \<longleftrightarrow> k ! 1 \<noteq> Itoa (IdKind idx)"
    using k len by (simp add: kindTagMismatch_def ne)
  also have "\<dots> \<longleftrightarrow> \<not> canonical_decimal (k ! 1)"
    using Itoa_Atoi_canonical [OF _ at] canonical_Itoa [of "IdKind idx"] by auto
  finally show ?thesis .
qed

lemma checkLightningSig_errors:
  "snd (checkLightningSig en e pk) \<noteq> Some KindMismatch"
  by (auto simp: checkLightningSig_def Let_def split: option.splits)

lemma Verify_KindMismatch:
  assumes v: "Verify en e = (False, Some KindMismatch)"
    and cs: "snd (CheckSignature en (NostrEvent e)) \<noteq> Some KindMismatch"
  shows "\<exists>idx e'. GetIdentifier e = Inr (idx, e') \<and> kindTagMismatch e' idx"
proof (cases "GetIdentifier e")
  case (Inl err)
  with GetIdentifier_Inl [OF Inl] v show ?thesis
    by (auto simp: Verify_def Let_def split: if_splits)
next
  case (Inr p)
  then obtain idx e' where gi: "GetIdentifier e = Inr (idx, e')" by (cases p) auto
  have ne: "NostrEvent e' = NostrEvent e" using GetIdentifier_keeps [OF gi] by simp
  show ?thesis
  proof (rule ccontr)
    assume "\<not> ?thesis"
    with gi have nm: "\<not> kindTagMismatch e' idx" by simp
    obtain ok err where c: "CheckSignature en (NostrEvent e) = (ok, err)" by force
    obtain ok2 err2 where l: "checkLightningSig en e' (IdPubKey idx) = (ok2, err2)" by force
    from cs c have "err \<noteq> Some KindMismatch" by simp
    moreover from checkLightningSig_errors [of en e' "IdPubKey idx"] l
    have "err2 \<noteq> Some KindMismatch" by simp
    ultimately show False using v nm
      by (auto simp: Verify_def Let_def gi ne c l split: if_splits)
  qed
qed

lemmas eval_verify = Verify_def wrap64_def EventGracePeriodSeconds_def MaxContentSize_def
  IsValidNetwork_def kindTagMismatch_def RequiresLnSignature_def checkLightningSig_def FindAll_def
  Hash_def copyWithoutSig_def is_sig_tag_def signedMsgPrefix_def testEnv_def

lemmas eval_verify_spec = Verify_spec_def lightningSignature_spec_def sigValues_def
  tagsNotNamedSig_def recognisedNetworks_def kindTagMismatch_def GetIdentifier_def Find_def
  tag_matches_def KindNodeAnnouncement_def testEnv_def Itoa_def nat_digits.simps digit_char_def
  decimal_digits_def

text \<open>
  Claim C10. On an event whose cache is coherent and whose identifier resolves, the \<open>k\<close> tag
  that \<open>Verify\<close> compares is the one the kind was read from, so the comparison fails
  exactly when the value of that tag is not a canonical decimal string: with a canonical
  value the KindMismatch branch is not reached, whatever the \<open>d\<close> tag says. When \<open>Verify\<close>
  reports KindMismatch (and \<open>CheckSignature\<close> does not itself report that error) the \<open>k\<close>
  value is an integer string that is not canonical.
\<close>

theorem KindMismatch_only_noncanonical:
  "(cache_coherent e \<and> GetIdentifier e = Inr (idx, e') \<longrightarrow>
      (\<exists>k. Find (Tags (NostrEvent e)) ''k'' = Some k \<and> 2 \<le> length k \<and>
           Atoi (k ! 1) = Some (IdKind idx) \<and>
           (kindTagMismatch e' idx \<longleftrightarrow> \<not> canonical_decimal (k ! 1))))
   \<and> (cache_coherent e \<and> snd (CheckSignature en (NostrEvent e)) \<noteq> Some KindMismatch \<and>
       Verify en e = (False, Some KindMismatch) \<longrightarrow>
      (\<exists>k n. Find (Tags (NostrEvent e)) ''k'' = Some k \<and> Atoi (k ! 1) = Some n \<and>
             \<not> canonical_decimal (k ! 1)))"
proof (intro conjI impI; elim conjE)
  assume co: "cache_coherent e" and gi: "GetIdentifier e = Inr (idx, e')"
  from coherent_GetIdentifier [OF co gi] have "parseIdentifier (NostrEvent e) = Inr idx" by simp
  from parse_Inr_k [OF this] obtain k where k: "Find (Tags (NostrEvent e)) ''k'' = Some k"
    "2 \<le> length k" "Atoi (k ! 1) = Some (IdKind idx)" by auto
  with mismatch_iff [OF co gi k(1)]
  show "\<exists>k. Find (Tags (NostrEvent e)) ''k'' = Some k \<and> 2 \<le> length k \<and>
           Atoi (k ! 1) = Some (IdKind idx) \<and>
           (kindTagMismatch e' idx \<longleftrightarrow> \<not> canonical_decimal (k ! 1))"
    by blast
next
  assume co: "cache_coherent e" and cs: "snd (CheckSignature en (NostrEvent e)) \<noteq> Some KindMismatch"
    and v: "Verify en e = (False, Some KindMismatch)"
  from Verify_KindMismatch [OF v cs] obtain idx e' where gi: "GetIdentifier e = Inr (idx, e')"
    and mm: "kindTagMismatch e' idx" by auto
  from coherent_GetIdentifier [OF co gi] have "parseIdentifier (NostrEvent e) = Inr idx" by simp
  from parse_Inr_k [OF this] obtain k where k: "Find (Tags (NostrEvent e)) ''k'' = Some k"
    "Atoi (k ! 1) = Some (IdKind idx)" by auto
  with mismatch_iff [OF co gi k(1)] mm
  show "\<exists>k n. Find (Tags (NostrEvent e)) ''k'' = Some k \<and> Atoi (k ! 1) = Some n \<and>
             \<not> canonical_decimal (k ! 1)"
    by blast
qed

text \<open>A record whose \<open>d\<close> tag starts with kind 7 and whose \<open>k\<close> tag is \<open>1\<close> verifies; one whose
  \<open>k\<close> tag is \<open>01\<close> fails with KindMismatch.\<close>

theorem KindMismatch_only_noncanonical_witness:
  "NewEventFromNostrRelay (NostrEvent (taggedEvent ''7:02aa:mainnet'' ''1''
       \<lparr>TagD = ''7:02aa:mainnet'', Network = ''mainnet'', IdPubKey = ''02aa'', IdKind = 1, Opts = []\<rparr>))
     = Inr (taggedEvent ''7:02aa:mainnet'' ''1''
       \<lparr>TagD = ''7:02aa:mainnet'', Network = ''mainnet'', IdPubKey = ''02aa'', IdKind = 1, Opts = []\<rparr>) \<and>
   canonical_decimal ''1'' \<and>
   \<not> kindTagMismatch (taggedEvent ''7:02aa:mainnet'' ''1''
       \<lparr>TagD = ''7:02aa:mainnet'', Network = ''mainnet'', IdPubKey = ''02aa'', IdKind = 1, Opts = []\<rparr>)
       \<lparr>TagD = ''7:02aa:mainnet'', Network = ''mainnet'', IdPubKey = ''02aa'', IdKind = 1, Opts = []\<rparr> \<and>
   Verify testEnv (taggedEvent ''7:02aa:mainnet'' ''1''
       \<lparr>TagD = ''7:02aa:mainnet'', Network = ''mainnet'', IdPubKey = ''02aa'', IdKind = 1, Opts = []\<rparr>)
     = (True, None) \<and>
   Verify testEnv (taggedEvent ''1:02aa:mainnet'' ''01''
       \<lparr>TagD = ''1:02aa:mainnet'', Network = ''mainnet'', IdPubKey = ''02aa'', IdKind = 1, Opts = []\<rparr>)
     = (False, Some KindMismatch) \<and>
   Atoi ''01'' = Some 1 \<and> \<not> canonical_decimal ''01''"
proof -
  let ?i7 = "\<lparr>TagD = ''7:02aa:mainnet'', Network = ''mainnet'', IdPubKey = ''02aa'', IdKind = 1, Opts = []\<rparr>"
  let ?e7 = "taggedEvent ''7:02aa:mainnet'' ''1'' ?i7"
  let ?i1 = "\<lparr>TagD = ''1:02aa:mainnet'', Network = ''mainnet'', IdPubKey = ''02aa'', IdKind = 1, Opts = []\<rparr>"
  let ?e1 = "taggedEvent ''1:02aa:mainnet'' ''01'' ?i1"
  have relay: "NewEventFromNostrRelay (NostrEvent ?e7) = Inr ?e7"
    by (simp add: taggedEvent_def eval_parse)
  have can: "canonical_decimal ''1''"
    by (simp add: canonical_decimal_def digits_no_leading_zero_def decimal_digits_def)
  have h7: "cache_coherent ?e7 \<and> GetIdentifier ?e7 = Inr (?i7, ?e7)"
    by (simp add: cache_coherent_def taggedEvent_def eval_parse)
  have f7: "Find (Tags (NostrEvent ?e7)) ''k'' = Some [''k'', ''1'']"
    by (simp add: taggedEvent_def Find_def tag_matches_def)
  have nm: "\<not> kindTagMismatch ?e7 ?i7"
    using KindMismatch_only_noncanonical [where e = ?e7 and idx = ?i7 and e' = ?e7,
            THEN conjunct1, THEN mp, OF h7] f7 can
    by auto
  have v7: "Verify testEnv ?e7 = (True, None)"
    by (simp add: taggedEvent_def eval_verify GetIdentifier_def KindNodeAnnouncement_def
          Find_def tag_matches_def Itoa_def nat_digits.simps digit_char_def decimal_digits_def)
  have v1: "Verify testEnv ?e1 = (False, Some KindMismatch)"
    by (simp add: taggedEvent_def eval_verify GetIdentifier_def KindNodeAnnouncement_def
          Find_def tag_matches_def Itoa_def nat_digits.simps digit_char_def decimal_digits_def)
  have h1: "cache_coherent ?e1 \<and> snd (CheckSignature testEnv (NostrEvent ?e1)) \<noteq> Some KindMismatch \<and>
      Verify testEnv ?e1 = (False, Some KindMismatch)"
    using v1 by (simp add: cache_coherent_def) (simp add: taggedEvent_def eval_parse testEnv_def)
  have f1: "Find (Tags (NostrEvent ?e1)) ''k'' = Some [''k'', ''01'']"
    by (simp add: taggedEvent_def Find_def tag_matches_def)
  have nc: "Atoi ''01'' = Some 1 \<and> \<not> canonical_decimal ''01''"
    using KindMismatch_only_noncanonical [where e = ?e1 and en = testEnv,
            THEN conjunct2, THEN mp, OF h1] f1
    by (auto simp: eval_num)
  show ?thesis using relay can nm v7 v1 nc by blast
qed

section \<open>The checks of Verify\<close>

lemma firstFailure_all: "fst (firstFailure cs) \<longleftrightarrow> (\<forall>c \<in> set cs. fst c)"
  by (induction cs rule: firstFailure.induct) auto

lemma firstFailure_first:
  "\<not> (\<forall>c \<in> set cs. fst c) \<Longrightarrow>
     \<exists>pre c post. cs = pre @ c # post \<and> (\<forall>p \<in> set pre. fst p) \<and> \<not> fst c \<and>
        firstFailure cs = (False, snd c)"
proof (induction cs rule: firstFailure.induct)
  case 1
  then show ?case by simp
next
  case (2 passed report rest)
  show ?case
  proof (cases passed)
    case False
    then have "(passed, report) # rest = [] @ (passed, report) # rest \<and> (\<forall>p \<in> set []. fst p) \<and>
        \<not> fst (passed, report) \<and> firstFailure ((passed, report) # rest) = (False, snd (passed, report))"
      by simp
    then show ?thesis by blast
  next
    case True
    with "2.prems" have "\<not> (\<forall>c \<in> set rest. fst c)" by simp
    from "2.IH" [OF True this] obtain pre c post where
      "rest = pre @ c # post" "\<forall>p \<in> set pre. fst p" "\<not> fst c" "firstFailure rest = (False, snd c)"
      by blast
    with True have "(passed, report) # rest = ((passed, report) # pre) @ c # post \<and>
        (\<forall>p \<in> set ((passed, report) # pre). fst p) \<and> \<not> fst c \<and>
        firstFailure ((passed, report) # rest) = (False, snd c)"
      by simp
    then show ?thesis by blast
  qed
qed

lemma wrap64_id: "in_int64 x \<Longrightarrow> wrap64 x = x"
  by (simp add: wrap64_def in_int64_def)

lemma checkLightningSig_cases:
  "checkLightningSig en e pk = (True, None) \<or> (\<exists>err. checkLightningSig en e pk = (False, Some err))"
  by (auto simp: checkLightningSig_def Let_def split: option.splits)

lemma kindTagMismatch_cong:
  "NostrEvent e' = NostrEvent e \<Longrightarrow> kindTagMismatch e' idx = kindTagMismatch e idx"
  by (simp add: kindTagMismatch_def)

lemma checkLightningSig_cong:
  assumes "NostrEvent e' = NostrEvent e"
  shows "checkLightningSig en e' pk = checkLightningSig en e pk"
  unfolding checkLightningSig_def Hash_def copyWithoutSig_def assms by (rule refl)

lemma sigValues_FindAll: "sigValues tags = map (\<lambda>tag. tag ! 1) (FindAll tags ''sig'')"
proof (induction tags)
  case Nil
  show ?case by (simp add: sigValues_def FindAll_def)
next
  case (Cons t ts)
  have "(case t of name # v # others \<Rightarrow> if name = ''sig'' then [v] else [] | _ \<Rightarrow> [])
          = (if tag_matches ''sig'' t then [t ! 1] else [])"
    by (cases t; cases "tl t") (auto simp: tag_matches_def)
  with Cons show ?case by (simp add: sigValues_def FindAll_def)
qed

lemma recognised_iff: "network \<in> set recognisedNetworks \<longleftrightarrow> IsValidNetwork network"
  by (simp add: recognisedNetworks_def IsValidNetwork_def)

lemma lightningSignature_eq: "lightningSignature_spec en e pk = checkLightningSig en e pk"
proof (cases "FindAll (Tags (NostrEvent e)) ''sig''")
  case Nil
  then show ?thesis
    by (simp add: lightningSignature_spec_def checkLightningSig_def sigValues_FindAll)
next
  case (Cons t ts)
  then show ?thesis
    by (cases ts)
       (auto simp: lightningSignature_spec_def checkLightningSig_def sigValues_FindAll Let_def
          Hash_def copyWithoutSig_record signedMsgPrefix_def split: option.splits)
qed

lemma Verify_refines:
  assumes "in_int64 (Now en + EventGracePeriodSeconds)"
  shows "Verify en e = Verify_spec en e"
proof (cases "GetIdentifier e")
  case (Inl err)
  then show ?thesis using wrap64_id [OF assms]
    by (simp add: Verify_def Verify_spec_def Let_def EventGracePeriodSeconds_def MaxContentSize_def)
next
  case (Inr p)
  then obtain idx e' where gi: "GetIdentifier e = Inr (idx, e')" by (cases p) auto
  have keep: "NostrEvent e' = NostrEvent e" "kind e' = kind e"
    using GetIdentifier_keeps [OF gi] by simp_all
  obtain ok err where c: "CheckSignature en (NostrEvent e) = (ok, err)" by force
  obtain ok2 err2 where l: "checkLightningSig en e (IdPubKey idx) = (ok2, err2)" by force
  show ?thesis
    using wrap64_id [OF assms]
    by (auto simp: Verify_def Verify_spec_def Let_def gi keep c l
          kindTagMismatch_cong [OF keep(1)] checkLightningSig_cong [OF keep(1)]
          lightningSignature_eq recognised_iff
          RequiresLnSignature_def EventGracePeriodSeconds_def MaxContentSize_def)
qed

lemma Verify_no_error:
  assumes "Verify en e = (False, None)"
  shows "CheckSignature en (NostrEvent e) = (False, None)"
proof (cases "GetIdentifier e")
  case (Inl err)
  with assms show ?thesis by (auto simp: Verify_def Let_def split: if_splits)
next
  case (Inr p)
  then obtain idx e' where gi: "GetIdentifier e = Inr (idx, e')" by (cases p) auto
  have keep: "NostrEvent e' = NostrEvent e" using GetIdentifier_keeps [OF gi] by simp
  obtain ok err where c: "CheckSignature en (NostrEvent e) = (ok, err)" by force
  from checkLightningSig_cases [of en e' "IdPubKey idx"] assms show ?thesis
    by (auto simp: Verify_def Let_def gi keep c split: if_splits)
qed

lemma Verify_valid:
  assumes "fst (Verify en e)"
  shows "\<exists>idx e'. GetIdentifier e = Inr (idx, e') \<and>
           (IdKind idx \<noteq> KindNodeAnnouncement \<longrightarrow> IsValidNetwork (Network idx)) \<and>
           CheckSignature en (NostrEvent e) = (True, None) \<and>
           (kind e = KindNodeAnnouncement \<longrightarrow> checkLightningSig en e (IdPubKey idx) = (True, None))"
proof (cases "GetIdentifier e")
  case (Inl err)
  with assms show ?thesis by (auto simp: Verify_def Let_def split: if_splits)
next
  case (Inr p)
  then obtain idx e' where gi: "GetIdentifier e = Inr (idx, e')" by (cases p) auto
  have keep: "NostrEvent e' = NostrEvent e" "kind e' = kind e"
    using GetIdentifier_keeps [OF gi] by simp_all
  obtain ok err where c: "CheckSignature en (NostrEvent e) = (ok, err)" by force
  obtain ok2 err2 where l: "checkLightningSig en e (IdPubKey idx) = (ok2, err2)" by force
  from checkLightningSig_cases [of en e "IdPubKey idx"] assms show ?thesis
    by (auto simp: Verify_def Let_def gi keep c l checkLightningSig_cong [OF keep(1)]
          RequiresLnSignature_def split: if_splits)
qed

lemma lightningSignature_valid:
  assumes "lightningSignature_spec en e pk = (True, None)"
  shows "\<exists>v raw. sigValues (Tags (NostrEvent e)) = [v] \<and> zbase32_DecodeString en v = Some raw \<and>
           RecoverCompact en raw
             (DoubleHashB en (''Lightning Signed Message:'' @
                GetID en \<lparr>ID = [], PubKey = PubKey (NostrEvent e),
                           CreatedAt = CreatedAt (NostrEvent e), Kind = Kind (NostrEvent e),
                           Tags = tagsNotNamedSig (Tags (NostrEvent e)),
                           Content = Content (NostrEvent e), Sig = []\<rparr>)) = Some pk"
  using assms
  by (auto simp: lightningSignature_spec_def split: list.splits option.splits if_splits)

lemma lightningSignature_arity:
  "sigValues (Tags (NostrEvent e)) = [] \<Longrightarrow> lightningSignature_spec en e pk = (False, Some NoSignature)"
  "2 \<le> length (sigValues (Tags (NostrEvent e))) \<Longrightarrow>
     lightningSignature_spec en e pk = (False, Some MultipleSignatures)"
  by (auto simp: lightningSignature_spec_def split: list.splits)

text \<open>
  Claim C3 (amended). When the clock plus the grace period is in the range of a 64-bit
  integer, \<open>Verify\<close> is the first failure of the eight checks in their order: createdAt at
  most now plus 600 seconds; the ID equal to the recomputed one; the content at most 1 MiB;
  the identifier parses; for a kind that is not the trust anchor, one of the six network
  names; the \<open>k\<close> tag equal to the parsed kind; the broadcast-identity signature; and, for
  an event of the trust-anchor kind only, the Lightning signature. The result is valid
  exactly when all checks pass, and otherwise invalid with what the first failing check
  reports. Checks 1 to 6 and 8 report an error; check 7 reports the error of
  \<open>CheckSignature\<close>, and an invalid result without any error arises only when
  \<open>CheckSignature\<close> answers that the signature is invalid and gives no error. A valid
  event that is not of the trust-anchor kind names one of the six networks. A valid event
  of the trust-anchor kind has exactly one tag named \<open>sig\<close> with a value, the value
  decodes, and the key recovered from it and the double hash of the prefixed signable
  hash is the pubkey of the identifier; with no such tag the Lightning check reports
  NoSignature, with two or more MultipleSignatures.
\<close>

theorem Verify_ordered_checks:
  "(in_int64 (Now en + EventGracePeriodSeconds) \<longrightarrow> Verify en e = Verify_spec en e)
   \<and> (fst (firstFailure cs) \<longleftrightarrow> (\<forall>c \<in> set cs. fst c))
   \<and> (\<not> (\<forall>c \<in> set cs. fst c) \<longrightarrow>
        (\<exists>pre c post. cs = pre @ c # post \<and> (\<forall>p \<in> set pre. fst p) \<and> \<not> fst c \<and>
           firstFailure cs = (False, snd c)))
   \<and> (Verify en e = (False, None) \<longrightarrow> CheckSignature en (NostrEvent e) = (False, None))
   \<and> (fst (Verify en e) \<and> GetIdentifier e = Inr (idx, e') \<and> IdKind idx \<noteq> KindNodeAnnouncement \<longrightarrow>
        Network idx \<in> {''mainnet'', ''testnet'', ''testnet4'', ''signet'', ''simnet'', ''regtest''})
   \<and> (fst (Verify en e) \<and> GetIdentifier e = Inr (idx, e') \<and> kind e = KindNodeAnnouncement \<longrightarrow>
        (\<exists>v raw. sigValues (Tags (NostrEvent e)) = [v] \<and> zbase32_DecodeString en v = Some raw \<and>
           RecoverCompact en raw
             (DoubleHashB en (''Lightning Signed Message:'' @
                GetID en \<lparr>ID = [], PubKey = PubKey (NostrEvent e),
                           CreatedAt = CreatedAt (NostrEvent e), Kind = Kind (NostrEvent e),
                           Tags = tagsNotNamedSig (Tags (NostrEvent e)),
                           Content = Content (NostrEvent e), Sig = []\<rparr>)) = Some (IdPubKey idx)))
   \<and> (kind e = KindNodeAnnouncement \<and> length (sigValues (Tags (NostrEvent e))) \<noteq> 1 \<longrightarrow>
        \<not> fst (Verify en e))
   \<and> (sigValues (Tags (NostrEvent e)) = [] \<longrightarrow>
        checkLightningSig en e pk = (False, Some NoSignature))
   \<and> (2 \<le> length (sigValues (Tags (NostrEvent e))) \<longrightarrow>
        checkLightningSig en e pk = (False, Some MultipleSignatures))"
proof (intro conjI)
  show "in_int64 (Now en + EventGracePeriodSeconds) \<longrightarrow> Verify en e = Verify_spec en e"
    using Verify_refines [of en e] by blast
  show "fst (firstFailure cs) \<longleftrightarrow> (\<forall>c \<in> set cs. fst c)"
    by (rule firstFailure_all)
  show "\<not> (\<forall>c \<in> set cs. fst c) \<longrightarrow>
        (\<exists>pre c post. cs = pre @ c # post \<and> (\<forall>p \<in> set pre. fst p) \<and> \<not> fst c \<and>
           firstFailure cs = (False, snd c))"
    using firstFailure_first [of cs] by blast
  show "Verify en e = (False, None) \<longrightarrow> CheckSignature en (NostrEvent e) = (False, None)"
    using Verify_no_error [of en e] by blast
  show "fst (Verify en e) \<and> GetIdentifier e = Inr (idx, e') \<and> IdKind idx \<noteq> KindNodeAnnouncement \<longrightarrow>
        Network idx \<in> {''mainnet'', ''testnet'', ''testnet4'', ''signet'', ''simnet'', ''regtest''}"
  proof (intro impI, elim conjE)
    assume v: "fst (Verify en e)" and gi: "GetIdentifier e = Inr (idx, e')"
      and k: "IdKind idx \<noteq> KindNodeAnnouncement"
    from Verify_valid [OF v] gi k have "IsValidNetwork (Network idx)" by auto
    then have "Network idx \<in> set recognisedNetworks" by (simp only: recognised_iff)
    then show "Network idx \<in> {''mainnet'', ''testnet'', ''testnet4'', ''signet'', ''simnet'', ''regtest''}"
      by (simp add: recognisedNetworks_def)
  qed
  show "fst (Verify en e) \<and> GetIdentifier e = Inr (idx, e') \<and> kind e = KindNodeAnnouncement \<longrightarrow>
        (\<exists>v raw. sigValues (Tags (NostrEvent e)) = [v] \<and> zbase32_DecodeString en v = Some raw \<and>
           RecoverCompact en raw
             (DoubleHashB en (''Lightning Signed Message:'' @
                GetID en \<lparr>ID = [], PubKey = PubKey (NostrEvent e),
                           CreatedAt = CreatedAt (NostrEvent e), Kind = Kind (NostrEvent e),
                           Tags = tagsNotNamedSig (Tags (NostrEvent e)),
                           Content = Content (NostrEvent e), Sig = []\<rparr>)) = Some (IdPubKey idx))"
  proof (intro impI, elim conjE)
    assume v: "fst (Verify en e)" and gi: "GetIdentifier e = Inr (idx, e')"
      and k: "kind e = KindNodeAnnouncement"
    from Verify_valid [OF v] gi k have "checkLightningSig en e (IdPubKey idx) = (True, None)"
      by auto
    then have "lightningSignature_spec en e (IdPubKey idx) = (True, None)"
      by (simp only: lightningSignature_eq)
    then show "\<exists>v raw. sigValues (Tags (NostrEvent e)) = [v] \<and> zbase32_DecodeString en v = Some raw \<and>
           RecoverCompact en raw
             (DoubleHashB en (''Lightning Signed Message:'' @
                GetID en \<lparr>ID = [], PubKey = PubKey (NostrEvent e),
                           CreatedAt = CreatedAt (NostrEvent e), Kind = Kind (NostrEvent e),
                           Tags = tagsNotNamedSig (Tags (NostrEvent e)),
                           Content = Content (NostrEvent e), Sig = []\<rparr>)) = Some (IdPubKey idx)"
      by (rule lightningSignature_valid)
  qed
  show "kind e = KindNodeAnnouncement \<and> length (sigValues (Tags (NostrEvent e))) \<noteq> 1 \<longrightarrow>
        \<not> fst (Verify en e)"
  proof (intro impI notI, elim conjE)
    assume k: "kind e = KindNodeAnnouncement"
      and n: "length (sigValues (Tags (NostrEvent e))) \<noteq> 1" and v: "fst (Verify en e)"
    from Verify_valid [OF v] k obtain i :: Identifier where
      "checkLightningSig en e (IdPubKey i) = (True, None)" by blast
    then have "lightningSignature_spec en e (IdPubKey i) = (True, None)"
      by (simp only: lightningSignature_eq)
    from lightningSignature_valid [OF this] n show False by auto
  qed
  show "sigValues (Tags (NostrEvent e)) = [] \<longrightarrow>
        checkLightningSig en e pk = (False, Some NoSignature)"
    using lightningSignature_arity(1) [of e en pk] by (simp only: lightningSignature_eq) blast
  show "2 \<le> length (sigValues (Tags (NostrEvent e))) \<longrightarrow>
        checkLightningSig en e pk = (False, Some MultipleSignatures)"
    using lightningSignature_arity(2) [of e en pk] by (simp only: lightningSignature_eq) blast
qed

text \<open>
  In the toy environment the trust anchor of node \<open>02aa\<close> verifies, with its one \<open>sig\<close>
  tag \<open>zb32\<close> that recovers the key \<open>02aa\<close>; a record that is both too far in the future
  and tampered with reports the first failure; a trust anchor with a second \<open>sig\<close> tag, one
  without any, and one for node \<open>03bb\<close> fail check 8; a node-info record of the network
  \<open>badnet\<close> fails check 5.
\<close>

theorem Verify_ordered_checks_witness:
  "in_int64 (Now testEnv + EventGracePeriodSeconds) \<and>
   Verify testEnv (annEvent ''02aa'' ''npubA'' 100) = (True, None) \<and>
   Verify_spec testEnv (annEvent ''02aa'' ''npubA'' 100) = (True, None) \<and>
   Verify_spec testEnv ((annEvent ''02aa'' ''npubA'' 5000)\<lparr>NostrEvent :=
        (NostrEvent (annEvent ''02aa'' ''npubA'' 5000))\<lparr>Content := ''{ }''\<rparr>\<rparr>)
     = (False, Some FutureTimestamp) \<and>
   firstFailure [(True, None), (False, Some IdentityMismatch), (False, Some ContentTooLarge)]
     = (False, Some IdentityMismatch) \<and>
   sigValues (Tags (NostrEvent (annEvent ''02aa'' ''npubA'' 100))) = [''zb32''] \<and>
   zbase32_DecodeString testEnv ''zb32'' = Some ''raw'' \<and>
   RecoverCompact testEnv ''raw'' (DoubleHashB testEnv (''Lightning Signed Message:'' @
       GetID testEnv \<lparr>ID = [], PubKey = ''npubA'', CreatedAt = 100, Kind = 38171,
          Tags = [[''d'', ''02aa''], [''k'', ''0'']], Content = ''{}'', Sig = []\<rparr>)) = Some ''02aa'' \<and>
   Verify testEnv (sigTagsEvent ''02aa'' [[''sig'', ''zb32''], [''sig'', ''zb32'']])
     = (False, Some MultipleSignatures) \<and>
   Verify testEnv (sigTagsEvent ''02aa'' []) = (False, Some NoSignature) \<and>
   Verify testEnv (sigTagsEvent ''03bb'' [[''sig'', ''zb32'']]) = (False, Some KeyMismatch) \<and>
   Verify testEnv (sigTagsEvent ''02aa'' [[''sig'', ''other'']]) = (False, Some DecodeFailure) \<and>
   Verify testEnv (sigTagsEvent ''02aa'' [[''sig'', ''zb32'']]) = (True, None) \<and>
   Verify testEnv (networkEvent ''badnet'') = (False, Some (InvalidNetwork ''badnet'')) \<and>
   Verify testEnv (networkEvent ''regtest'') = (True, None) \<and>
   Network (the (id_cache (networkEvent ''regtest''))) = ''regtest''"
proof -
  have c: "in_int64 (Now testEnv + EventGracePeriodSeconds)"
    by (simp add: in_int64_def testEnv_def EventGracePeriodSeconds_def)
  note t = Verify_ordered_checks [where en = testEnv]
  note refine = t [THEN conjunct1, THEN mp, OF c]
  let ?ann = "annEvent ''02aa'' ''npubA'' 100"
  let ?iA = "\<lparr>TagD = ''02aa'', Network = [], IdPubKey = ''02aa'', IdKind = 0, Opts = []\<rparr>"
  have s1: "Verify_spec testEnv ?ann = (True, None)"
    by (simp add: annEvent_def eval_verify_spec)
  have v: "Verify testEnv ?ann = (True, None)"
    using refine [of ?ann] s1 by simp
  let ?late = "(annEvent ''02aa'' ''npubA'' 5000)\<lparr>NostrEvent :=
        (NostrEvent (annEvent ''02aa'' ''npubA'' 5000))\<lparr>Content := ''{ }''\<rparr>\<rparr>"
  have "Verify testEnv ?late = (False, Some FutureTimestamp)"
    by (simp add: annEvent_def eval_verify)
  with refine [of ?late]
  have s2: "Verify_spec testEnv ?late = (False, Some FutureTimestamp)" by simp
  have "\<not> (\<forall>c \<in> set [(True, None), (False, Some IdentityMismatch), (False, Some ContentTooLarge)]. fst c)"
    by simp
  from t [where cs = "[(True, None), (False, Some IdentityMismatch), (False, Some ContentTooLarge)]",
          THEN conjunct2, THEN conjunct2, THEN conjunct1, THEN mp, OF this]
  have s3: "firstFailure [(True, None), (False, Some IdentityMismatch), (False, Some ContentTooLarge)]
     = (False, Some IdentityMismatch)" by simp
  have h6: "fst (Verify testEnv ?ann) \<and> GetIdentifier ?ann = Inr (?iA, ?ann) \<and>
      kind ?ann = KindNodeAnnouncement"
    using v by (simp add: GetIdentifier_def annEvent_def KindNodeAnnouncement_def)
  from t [where e = ?ann and idx = ?iA and e' = ?ann,
          THEN conjunct2, THEN conjunct2, THEN conjunct2, THEN conjunct2, THEN conjunct2,
          THEN conjunct1, THEN mp, OF h6]
  have s4: "sigValues (Tags (NostrEvent ?ann)) = [''zb32''] \<and>
      zbase32_DecodeString testEnv ''zb32'' = Some ''raw'' \<and>
      RecoverCompact testEnv ''raw'' (DoubleHashB testEnv (''Lightning Signed Message:'' @
        GetID testEnv \<lparr>ID = [], PubKey = ''npubA'', CreatedAt = 100, Kind = 38171,
          Tags = [[''d'', ''02aa''], [''k'', ''0'']], Content = ''{}'', Sig = []\<rparr>)) = Some ''02aa''"
    by (simp add: annEvent_def sigValues_def testEnv_def)
  have s5: "Verify testEnv (sigTagsEvent ''02aa'' [[''sig'', ''zb32''], [''sig'', ''zb32'']])
       = (False, Some MultipleSignatures)"
    "Verify testEnv (sigTagsEvent ''02aa'' []) = (False, Some NoSignature)"
    "Verify testEnv (sigTagsEvent ''03bb'' [[''sig'', ''zb32'']]) = (False, Some KeyMismatch)"
    "Verify testEnv (sigTagsEvent ''02aa'' [[''sig'', ''other'']]) = (False, Some DecodeFailure)"
    "Verify testEnv (sigTagsEvent ''02aa'' [[''sig'', ''zb32'']]) = (True, None)"
    unfolding refine by (simp_all add: sigTagsEvent_def eval_verify_spec)
  have s6: "Verify testEnv (networkEvent ''badnet'') = (False, Some (InvalidNetwork ''badnet''))"
    "Verify testEnv (networkEvent ''regtest'') = (True, None)"
    unfolding refine by (simp_all add: networkEvent_def eval_verify_spec)
  have s7: "Network (the (id_cache (networkEvent ''regtest''))) = ''regtest''"
    by (simp add: networkEvent_def)
  show ?thesis using c v s1 s2 s3 s4 s5 s6 s7 by blast
qed

text \<open>
  An invalid result can come without an error: the transport's \<open>CheckSignature\<close> answers
  (false, nil) for a well-formed signature that does not verify, and \<open>Verify\<close> hands that
  nil on. And a second tag named \<open>sig\<close> is not counted when it has no value: the trust
  anchor with the tags \<open>(sig)\<close> and \<open>(sig, zb32)\<close> is valid.
\<close>

theorem bad_signature_no_error_counterexample:
  "NewEventFromNostrRelay (NostrEvent (annEvent ''02aa'' ''npubA'' 100)\<lparr>Sig := ''forged''\<rparr>)
     = Inr ((annEvent ''02aa'' ''npubA'' 100)\<lparr>NostrEvent :=
              (NostrEvent (annEvent ''02aa'' ''npubA'' 100))\<lparr>Sig := ''forged''\<rparr>\<rparr>) \<and>
   CheckSignature testEnv ((NostrEvent (annEvent ''02aa'' ''npubA'' 100))\<lparr>Sig := ''forged''\<rparr>)
     = (False, None) \<and>
   Verify testEnv ((annEvent ''02aa'' ''npubA'' 100)\<lparr>NostrEvent :=
              (NostrEvent (annEvent ''02aa'' ''npubA'' 100))\<lparr>Sig := ''forged''\<rparr>\<rparr>)
     = (False, None) \<and>
   Tags (NostrEvent (sigTagsEvent ''02aa'' [[''sig''], [''sig'', ''zb32'']]))
     = [[''d'', ''02aa''], [''k'', ''0''], [''sig''], [''sig'', ''zb32'']] \<and>
   Verify testEnv (sigTagsEvent ''02aa'' [[''sig''], [''sig'', ''zb32'']]) = (True, None)"
  by (simp add: annEvent_def sigTagsEvent_def eval_verify eval_parse
          Itoa_def nat_digits.simps digit_char_def)

section \<open>Signing, then verifying\<close>

lemma Find_in_finalized:
  assumes "Find tags ''d'' = None" "Find tags ''k'' = None"
  shows "Find (tags @ [''d'', x] # [''k'', y] # rest) ''d'' = Some [''d'', x]"
    and "Find (tags @ [''d'', x] # [''k'', y] # rest) ''k'' = Some [''k'', y]"
  using assms by (simp_all add: Find_append) (simp_all add: Find_def tag_matches_def)

lemma FindAll_None: "Find tags key = None \<Longrightarrow> FindAll tags key = []"
  by (auto simp: Find_def FindAll_def find_None_iff filter_empty_conv)

lemma Split_head:
  assumes "c \<notin> set p" and "tl' = [] \<or> hd tl' = c"
  shows "\<exists>rest. Split (p @ tl') c = p # rest"
proof (cases tl')
  case Nil
  then show ?thesis using assms(1) by (simp add: Split_no_sep)
next
  case (Cons a as)
  with assms(2) have "a = c" by simp
  then show ?thesis using assms(1) Cons by (simp add: Split_append_sep)
qed

lemma Split_encoded:
  assumes "CHR '':'' \<notin> set kindStr" "CHR '':'' \<notin> set pubkey" "CHR '':'' \<notin> set network"
  shows "\<exists>rest. Split (Join ([kindStr, pubkey, network] @ opts) '':'') (CHR '':'')
            = kindStr # pubkey # network # rest"
proof -
  let ?tail = "concat (map (\<lambda>q. '':'' @ q) opts)"
  have t: "?tail = [] \<or> hd ?tail = CHR '':''" by (cases opts) auto
  from Split_head [OF assms(3) t] obtain rest where
    r: "Split (network @ ?tail) (CHR '':'') = network # rest" by blast
  have "Join ([kindStr, pubkey, network] @ opts) '':''
          = kindStr @ CHR '':'' # pubkey @ CHR '':'' # (network @ ?tail)"
    by (simp add: Join_concat)
  then have "Split (Join ([kindStr, pubkey, network] @ opts) '':'') (CHR '':'')
          = kindStr # pubkey # network # rest"
    using assms(1,2) r by (simp add: Split_append_sep)
  then show ?thesis by blast
qed

lemma IsValidNetwork_no_colon: "IsValidNetwork n \<Longrightarrow> CHR '':'' \<notin> set n"
  by (auto simp: IsValidNetwork_def)

text \<open>The identifier of a finalized record, whatever follows the two tags.\<close>

lemma parse_signed:
  assumes nd: "Find tags ''d'' = None" and nk: "Find tags ''k'' = None" and r: "in_int64 knd"
    and tg: "Tags ev = tags @ [''d'', if knd = KindNodeAnnouncement then pubkey
                 else Join ([Itoa knd, pubkey, network] @ opts) '':''] # [''k'', Itoa knd] # rest"
    and net: "knd \<noteq> KindNodeAnnouncement \<longrightarrow> CHR '':'' \<notin> set network \<and> CHR '':'' \<notin> set pubkey"
  shows "\<exists>idx. parseIdentifier ev = Inr idx \<and> IdKind idx = knd \<and> IdPubKey idx = pubkey \<and>
           (knd \<noteq> KindNodeAnnouncement \<longrightarrow> Network idx = network)"
proof (cases "knd = KindNodeAnnouncement")
  case True
  have "Atoi (Itoa KindNodeAnnouncement) = Some KindNodeAnnouncement"
    using Atoi_Itoa [OF r] True by simp
  then show ?thesis using True
    by (simp add: parseIdentifier_def tg Find_in_finalized [OF nd nk] Let_def)
next
  case False
  with net have nc: "CHR '':'' \<notin> set network" "CHR '':'' \<notin> set pubkey" by auto
  from Split_encoded [OF Itoa_no_colon nc(2) nc(1), of knd opts] obtain rest' where
    "Split (Join ([Itoa knd, pubkey, network] @ opts) '':'') (CHR '':'')
       = Itoa knd # pubkey # network # rest'" by blast
  then show ?thesis using False
    by (simp add: parseIdentifier_def tg Find_in_finalized [OF nd nk] Atoi_Itoa [OF r] Let_def)
qed

lemma kindTagMismatch_signed:
  assumes nd: "Find tags ''d'' = None" and nk: "Find tags ''k'' = None"
    and tg: "Tags (NostrEvent e) = tags @ [''d'', x] # [''k'', Itoa knd] # rest"
    and k: "IdKind idx = knd"
  shows "\<not> kindTagMismatch e idx"
  by (simp add: kindTagMismatch_def tg Find_in_finalized [OF nd nk] k)

lemma Verify_finalized_signed:
  assumes nd: "Find tags ''d'' = None" and nk: "Find tags ''k'' = None"
    and tg: "Tags (NostrEvent e) = tags @ [''d'', if knd = KindNodeAnnouncement then pubkey
                 else Join ([Itoa knd, pubkey, network] @ opts) '':''] # [''k'', Itoa knd] # rest"
    and cache: "id_cache e = None" and k: "kind e = knd" and kr: "in_int64 knd"
    and net: "knd \<noteq> KindNodeAnnouncement \<longrightarrow> IsValidNetwork network \<and> CHR '':'' \<notin> set pubkey"
    and time: "CreatedAt (NostrEvent e) \<le> Now en + EventGracePeriodSeconds"
    and clock: "in_int64 (Now en + EventGracePeriodSeconds)"
    and idok: "ID (NostrEvent e) = GetID en (NostrEvent e)"
    and size: "length (Content (NostrEvent e)) \<le> MaxContentSize"
    and cs: "CheckSignature en (NostrEvent e) = (True, None)"
    and ln: "knd = KindNodeAnnouncement \<longrightarrow> checkLightningSig en e pubkey = (True, None)"
  shows "Verify en e = (True, None)"
proof -
  have net': "knd \<noteq> KindNodeAnnouncement \<longrightarrow> CHR '':'' \<notin> set network \<and> CHR '':'' \<notin> set pubkey"
    using net IsValidNetwork_no_colon by blast
  from parse_signed [OF nd nk kr tg net'] obtain idx where
    p: "parseIdentifier (NostrEvent e) = Inr idx" and ik: "IdKind idx = knd"
    and ip: "IdPubKey idx = pubkey" and inet: "knd \<noteq> KindNodeAnnouncement \<longrightarrow> Network idx = network"
    by blast
  have gi: "GetIdentifier e = Inr (idx, e\<lparr>id_cache := Some idx\<rparr>)"
    by (simp add: GetIdentifier_uncached [OF cache] p)
  have km: "\<not> kindTagMismatch e idx"
    by (rule kindTagMismatch_signed [OF nd nk tg ik])
  have "Verify_spec en e = (True, None)"
    using time idok size cs ln net inet km
    by (auto simp: Verify_spec_def gi Let_def ik ip k EventGracePeriodSeconds_def MaxContentSize_def
          lightningSignature_eq recognised_iff)
  then show ?thesis by (simp add: Verify_refines [OF clock])
qed

lemma checkLightningSig_ok:
  assumes tg: "Tags (NostrEvent e) = tags @ [[''sig'', sig]]" and none: "Find tags ''sig'' = None"
    and dec: "zbase32_DecodeString en sig = Some raw"
    and rec: "RecoverCompact en raw (DoubleHashB en (signedMsgPrefix @ Hash (GetID en) e)) = Some pk"
  shows "checkLightningSig en e pk = (True, None)"
proof -
  have "FindAll (Tags (NostrEvent e)) ''sig'' = [[''sig'', sig]]"
    using FindAll_None [OF none] by (simp add: tg FindAll_def tag_matches_def)
  then show ?thesis using dec rec by (simp add: checkLightningSig_def Let_def)
qed

lemma Hash_after_signing:
  assumes "PubKey (NostrEvent e2) = PubKey (NostrEvent e1)"
    "CreatedAt (NostrEvent e2) = CreatedAt (NostrEvent e1)"
    "Kind (NostrEvent e2) = Kind (NostrEvent e1)"
    "Content (NostrEvent e2) = Content (NostrEvent e1)"
    "Tags (NostrEvent e2) = Tags (NostrEvent e1) @ [[''sig'', sig]]"
  shows "Hash g e2 = Hash g e1"
  using assms by (simp add: Hash_def copyWithoutSig_def is_sig_tag_def)

lemma nostrSignerValidD:
  "nostrSignerValid en sg pk \<Longrightarrow> PubKey r = pk \<Longrightarrow>
     \<exists>signed. NostrSigner_SignEvent sg r = Inr signed \<and>
           PubKey signed = pk \<and> CreatedAt signed = CreatedAt r \<and> Kind signed = Kind r \<and>
           Tags signed = Tags r \<and> Content signed = Content r \<and>
           ID signed = GetID en signed \<and> CheckSignature en signed = (True, None)"
  unfolding nostrSignerValid_def by blast

lemma sign_then_verify:
  assumes nd: "Find (Tags r) ''d'' = None" and nk: "Find (Tags r) ''k'' = None"
    and nsig: "Find (Tags r) ''sig'' = None"
    and pk: "PubKey r = pk"
    and size: "length (Content r) \<le> MaxContentSize"
    and time: "CreatedAt r \<le> Now en + EventGracePeriodSeconds"
    and clock: "in_int64 (Now en + EventGracePeriodSeconds)"
    and kr: "in_int64 knd"
    and net: "knd \<noteq> KindNodeAnnouncement \<longrightarrow> IsValidNetwork network \<and> CHR '':'' \<notin> set pubkey"
    and ns: "nostrSignerValid en sg pk"
    and ls: "knd = KindNodeAnnouncement \<longrightarrow> lnSignerValid en sg pubkey"
  shows "\<exists>e1 e2. Finalize (wrapRecord r) network pubkey knd opts = Inr e1 \<and>
           SignEvent en sg e1 = Inr e2 \<and> Verify en e2 = (True, None)"
proof -
  define x where "x = (if knd = KindNodeAnnouncement then pubkey
                        else Join ([Itoa knd, pubkey, network] @ opts) '':'')"
  define r1 where "r1 = r\<lparr>Kind := KindLightningInformation,
                          Tags := Tags r @ [[''d'', x], [''k'', Itoa knd]]\<rparr>"
  define e1 where "e1 = \<lparr>NostrEvent = r1, kind = knd, finalized = True, id_cache = None\<rparr>"
  have f: "Finalize (wrapRecord r) network pubkey knd opts = Inr e1"
    by (simp add: Finalize_def wrapRecord_def nd nk Let_def e1_def r1_def x_def)
  have nsig1: "Find (Tags r1) ''sig'' = None"
    by (simp add: r1_def Find_append nsig) (simp add: Find_def tag_matches_def)
  show ?thesis
  proof (cases "knd = KindNodeAnnouncement")
    case False
    have "PubKey r1 = pk" using pk by (simp add: r1_def)
    from nostrSignerValidD [OF ns this] obtain signed where s: "NostrSigner_SignEvent sg r1 = Inr signed"
      "CreatedAt signed = CreatedAt r1" "Tags signed = Tags r1" "Content signed = Content r1"
      "ID signed = GetID en signed" "CheckSignature en signed = (True, None)" by blast
    define e2 where "e2 = e1\<lparr>NostrEvent := signed\<rparr>"
    have se: "SignEvent en sg e1 = Inr e2"
      using False s(1)
      by (simp add: SignEvent_def IsFinalized_def RequiresLnSignature_def e1_def e2_def)
    have tg: "Tags (NostrEvent e2) = Tags r @ [''d'', if knd = KindNodeAnnouncement then pubkey
                 else Join ([Itoa knd, pubkey, network] @ opts) '':''] # [''k'', Itoa knd] # []"
      by (simp add: e2_def s(3) r1_def x_def)
    have "Verify en e2 = (True, None)"
    proof (rule Verify_finalized_signed [OF nd nk tg _ _ kr net _ clock])
      show "id_cache e2 = None" by (simp add: e2_def e1_def)
      show "kind e2 = knd" by (simp add: e2_def e1_def)
      show "CreatedAt (NostrEvent e2) \<le> Now en + EventGracePeriodSeconds"
        using time by (simp add: e2_def s(2) r1_def)
      show "ID (NostrEvent e2) = GetID en (NostrEvent e2)" by (simp add: e2_def s(5))
      show "length (Content (NostrEvent e2)) \<le> MaxContentSize"
        using size by (simp add: e2_def s(4) r1_def)
      show "CheckSignature en (NostrEvent e2) = (True, None)" by (simp add: e2_def s(6))
      show "knd = KindNodeAnnouncement \<longrightarrow> checkLightningSig en e2 pubkey = (True, None)"
        using False by simp
    qed
    with f se show ?thesis by blast
  next
    case True
    with ls have "lnSignerValid en sg pubkey" by simp
    then obtain sig raw where l: "LnSigner_SignMessage sg (Hash (GetID en) e1) = Inr sig"
      "zbase32_DecodeString en sig = Some raw"
      "RecoverCompact en raw (DoubleHashB en (signedMsgPrefix @ Hash (GetID en) e1)) = Some pubkey"
      unfolding lnSignerValid_def by blast
    define r1s where "r1s = r1\<lparr>Tags := Tags r1 @ [[''sig'', sig]]\<rparr>"
    define e1s where "e1s = e1\<lparr>NostrEvent := r1s\<rparr>"
    have sw: "signWithLn en sg e1 = Inr e1s"
      using nsig1 l(1) by (simp add: signWithLn_def e1s_def r1s_def) (simp add: e1_def)
    have "PubKey r1s = pk" using pk by (simp add: r1s_def r1_def)
    from nostrSignerValidD [OF ns this] obtain signed where s: "NostrSigner_SignEvent sg r1s = Inr signed"
      "PubKey signed = pk" "CreatedAt signed = CreatedAt r1s" "Kind signed = Kind r1s"
      "Tags signed = Tags r1s" "Content signed = Content r1s"
      "ID signed = GetID en signed" "CheckSignature en signed = (True, None)" by blast
    define e2 where "e2 = e1s\<lparr>NostrEvent := signed\<rparr>"
    have se: "SignEvent en sg e1 = Inr e2"
      using True sw s(1)
      by (simp add: SignEvent_def IsFinalized_def RequiresLnSignature_def e2_def)
         (simp add: e1_def e1s_def)
    have tg: "Tags (NostrEvent e2) = Tags r @ [''d'', if knd = KindNodeAnnouncement then pubkey
                 else Join ([Itoa knd, pubkey, network] @ opts) '':''] # [''k'', Itoa knd] # [[''sig'', sig]]"
      by (simp add: e2_def s(5) r1s_def r1_def x_def)
    have h: "Hash (GetID en) e2 = Hash (GetID en) e1"
      by (rule Hash_after_signing [where sig = sig])
         (simp_all add: e2_def s e1_def r1s_def r1_def pk)
    have tg2: "Tags (NostrEvent e2) = Tags r1 @ [[''sig'', sig]]"
      by (simp add: e2_def s(5) r1s_def)
    have lnok: "checkLightningSig en e2 pubkey = (True, None)"
      by (rule checkLightningSig_ok [OF tg2 nsig1 l(2)]) (simp add: h l(3))
    have "Verify en e2 = (True, None)"
    proof (rule Verify_finalized_signed [OF nd nk tg _ _ kr net _ clock])
      show "id_cache e2 = None" by (simp add: e2_def e1s_def e1_def)
      show "kind e2 = knd" by (simp add: e2_def e1s_def e1_def)
      show "CreatedAt (NostrEvent e2) \<le> Now en + EventGracePeriodSeconds"
        using time by (simp add: e2_def s(3) r1s_def r1_def)
      show "ID (NostrEvent e2) = GetID en (NostrEvent e2)" by (simp add: e2_def s(7))
      show "length (Content (NostrEvent e2)) \<le> MaxContentSize"
        using size by (simp add: e2_def s(6) r1s_def r1_def)
      show "CheckSignature en (NostrEvent e2) = (True, None)" by (simp add: e2_def s(8))
      show "knd = KindNodeAnnouncement \<longrightarrow> checkLightningSig en e2 pubkey = (True, None)"
        using lnok by simp
    qed
    with f se show ?thesis by blast
  qed
qed

lemma Publish_succeeds:
  assumes size: "length content \<le> MaxContentSize"
    and time: "now0 \<le> Now en + EventGracePeriodSeconds"
    and clock: "in_int64 (Now en + EventGracePeriodSeconds)"
    and kr: "in_int64 knd"
    and net: "knd \<noteq> KindNodeAnnouncement \<longrightarrow>
                IsValidNetwork (info_Network (info_c c)) \<and> CHR '':'' \<notin> set (info_PubKey (info_c c))"
    and ns: "nostrSignerValid en sg (pub_c c)"
    and ls: "knd = KindNodeAnnouncement \<longrightarrow> lnSignerValid en sg (info_PubKey (info_c c))"
  shows "\<exists>signed. Publish en sg c now0 content knd opts = Inr signed"
proof -
  let ?r = "\<lparr>ID = [], PubKey = pub_c c, CreatedAt = now0, Kind = 0, Tags = [],
             Content = content, Sig = []\<rparr>"
  have "\<exists>e1 e2. Finalize (wrapRecord ?r) (info_Network (info_c c)) (info_PubKey (info_c c)) knd opts = Inr e1 \<and>
           SignEvent en sg e1 = Inr e2 \<and> Verify en e2 = (True, None)"
    by (rule sign_then_verify [where pk = "pub_c c", OF _ _ _ _ _ _ clock kr net ns ls])
       (simp_all add: Find_def size time)
  then obtain e1 e2 where
    "Finalize (wrapRecord ?r) (info_Network (info_c c)) (info_PubKey (info_c c)) knd opts = Inr e1"
    "SignEvent en sg e1 = Inr e2" "Verify en e2 = (True, None)" by blast
  then show ?thesis by (simp add: Publish_def)
qed

lemma testSigner_nostr: "nostrSignerValid testEnv testSigner pk"
  by (simp add: nostrSignerValid_def testSigner_def testEnv_def)

lemma testSigner_ln: "lnSignerValid testEnv testSigner ''02aa''"
  by (simp add: lnSignerValid_def testSigner_def testEnv_def)

text \<open>
  Claim C8. Take a record without \<open>d\<close>, \<open>k\<close> and \<open>sig\<close> tags whose content is within the size
  limit and whose createdAt is not beyond the grace period, a kind in the range of \<open>int\<close>,
  for a kind other than the trust anchor a recognised network and a pubkey without \<open>:\<close>,
  and signers that produce valid signatures. Then \<open>Finalize\<close> succeeds, \<open>SignEvent\<close> on the
  finalized event succeeds, and \<open>Verify\<close> on the signed event answers valid without error.
  Under the same conditions on the client's cached pubkey and node info, \<open>Publish\<close> does
  not fail: the verification it runs before handing the record to the transport succeeds.
\<close>

theorem sign_then_verify_roundtrip:
  "(Find (Tags r) ''d'' = None \<and> Find (Tags r) ''k'' = None \<and> Find (Tags r) ''sig'' = None \<and>
    length (Content r) \<le> MaxContentSize \<and>
    CreatedAt r \<le> Now en + EventGracePeriodSeconds \<and>
    in_int64 (Now en + EventGracePeriodSeconds) \<and> in_int64 knd \<and>
    (knd \<noteq> KindNodeAnnouncement \<longrightarrow> IsValidNetwork network \<and> CHR '':'' \<notin> set pubkey) \<and>
    nostrSignerValid en sg (PubKey r) \<and>
    (knd = KindNodeAnnouncement \<longrightarrow> lnSignerValid en sg pubkey)
    \<longrightarrow> (\<exists>e1 e2. Finalize (wrapRecord r) network pubkey knd opts = Inr e1 \<and>
                  SignEvent en sg e1 = Inr e2 \<and> Verify en e2 = (True, None)))
   \<and> (length content \<le> MaxContentSize \<and>
       built \<le> Now en + EventGracePeriodSeconds \<and>
       in_int64 (Now en + EventGracePeriodSeconds) \<and> in_int64 knd \<and>
       (knd \<noteq> KindNodeAnnouncement \<longrightarrow>
          IsValidNetwork (info_Network (info_c c)) \<and> CHR '':'' \<notin> set (info_PubKey (info_c c))) \<and>
       nostrSignerValid en sg (pub_c c) \<and>
       (knd = KindNodeAnnouncement \<longrightarrow> lnSignerValid en sg (info_PubKey (info_c c)))
       \<longrightarrow> (\<exists>signed. Publish en sg c built content knd opts = Inr signed))"
proof (intro conjI impI; elim conjE)
  assume "Find (Tags r) ''d'' = None" "Find (Tags r) ''k'' = None" "Find (Tags r) ''sig'' = None"
    "length (Content r) \<le> MaxContentSize" "CreatedAt r \<le> Now en + EventGracePeriodSeconds"
    "in_int64 (Now en + EventGracePeriodSeconds)" "in_int64 knd"
    "knd \<noteq> KindNodeAnnouncement \<longrightarrow> IsValidNetwork network \<and> CHR '':'' \<notin> set pubkey"
    "nostrSignerValid en sg (PubKey r)" "knd = KindNodeAnnouncement \<longrightarrow> lnSignerValid en sg pubkey"
  then show "\<exists>e1 e2. Finalize (wrapRecord r) network pubkey knd opts = Inr e1 \<and>
                  SignEvent en sg e1 = Inr e2 \<and> Verify en e2 = (True, None)"
    by (intro sign_then_verify [where pk = "PubKey r"]) simp_all
next
  assume "length content \<le> MaxContentSize" "built \<le> Now en + EventGracePeriodSeconds"
    "in_int64 (Now en + EventGracePeriodSeconds)" "in_int64 knd"
    "knd \<noteq> KindNodeAnnouncement \<longrightarrow>
          IsValidNetwork (info_Network (info_c c)) \<and> CHR '':'' \<notin> set (info_PubKey (info_c c))"
    "nostrSignerValid en sg (pub_c c)"
    "knd = KindNodeAnnouncement \<longrightarrow> lnSignerValid en sg (info_PubKey (info_c c))"
  then show "\<exists>signed. Publish en sg c built content knd opts = Inr signed"
    by (rule Publish_succeeds)
qed

text \<open>Publishing a trust anchor and a node-info record with the toy signers.\<close>

theorem sign_then_verify_roundtrip_witness:
  "nostrSignerValid testEnv testSigner ''npubA'' \<and> lnSignerValid testEnv testSigner ''02aa'' \<and>
   (\<exists>signed. Publish testEnv testSigner testClient 100 ''{}'' 0 [] = Inr signed) \<and>
   Publish testEnv testSigner testClient 100 ''{}'' 0 []
     = Inr \<lparr>ID = ''id:{}'', PubKey = ''npubA'', CreatedAt = 100, Kind = 38171,
            Tags = [[''d'', ''02aa''], [''k'', ''0''], [''sig'', ''zb32'']],
            Content = ''{}'', Sig = ''sg''\<rparr> \<and>
   (\<exists>signed. Publish testEnv testSigner testClient 100 ''{}'' 1 [''x''] = Inr signed) \<and>
   Publish testEnv testSigner testClient 100 ''{}'' 1 [''x'']
     = Inr \<lparr>ID = ''id:{}'', PubKey = ''npubA'', CreatedAt = 100, Kind = 38171,
            Tags = [[''d'', ''1:02aa:mainnet:x''], [''k'', ''1'']],
            Content = ''{}'', Sig = ''sg''\<rparr>"
proof -
  have ns: "nostrSignerValid testEnv testSigner ''npubA''" by (rule testSigner_nostr)
  have ls: "lnSignerValid testEnv testSigner ''02aa''" by (rule testSigner_ln)
  have h0: "length ''{}'' \<le> MaxContentSize \<and>
       (100::int) \<le> Now testEnv + EventGracePeriodSeconds \<and>
       in_int64 (Now testEnv + EventGracePeriodSeconds) \<and> in_int64 0 \<and>
       ((0::int) \<noteq> KindNodeAnnouncement \<longrightarrow>
          IsValidNetwork (info_Network (info_c testClient)) \<and>
          CHR '':'' \<notin> set (info_PubKey (info_c testClient))) \<and>
       nostrSignerValid testEnv testSigner (pub_c testClient) \<and>
       ((0::int) = KindNodeAnnouncement \<longrightarrow> lnSignerValid testEnv testSigner (info_PubKey (info_c testClient)))"
    using ns ls
    by (simp add: MaxContentSize_def testEnv_def EventGracePeriodSeconds_def in_int64_def
          KindNodeAnnouncement_def testClient_def)
  have h1: "length ''{}'' \<le> MaxContentSize \<and>
       (100::int) \<le> Now testEnv + EventGracePeriodSeconds \<and>
       in_int64 (Now testEnv + EventGracePeriodSeconds) \<and> in_int64 1 \<and>
       ((1::int) \<noteq> KindNodeAnnouncement \<longrightarrow>
          IsValidNetwork (info_Network (info_c testClient)) \<and>
          CHR '':'' \<notin> set (info_PubKey (info_c testClient))) \<and>
       nostrSignerValid testEnv testSigner (pub_c testClient) \<and>
       ((1::int) = KindNodeAnnouncement \<longrightarrow> lnSignerValid testEnv testSigner (info_PubKey (info_c testClient)))"
    using ns ls
    by (simp add: MaxContentSize_def testEnv_def EventGracePeriodSeconds_def in_int64_def
          KindNodeAnnouncement_def testClient_def IsValidNetwork_def)
  note p0 = sign_then_verify_roundtrip [where en = testEnv and sg = testSigner and c = testClient
      and built = 100 and content = "''{}''" and knd = 0 and opts = "[]",
      THEN conjunct2, THEN mp, OF h0]
  note p1 = sign_then_verify_roundtrip [where en = testEnv and sg = testSigner and c = testClient
      and built = 100 and content = "''{}''" and knd = 1 and opts = "[''x'']",
      THEN conjunct2, THEN mp, OF h1]
  have v0: "Publish testEnv testSigner testClient 100 ''{}'' 0 []
     = Inr \<lparr>ID = ''id:{}'', PubKey = ''npubA'', CreatedAt = 100, Kind = 38171,
            Tags = [[''d'', ''02aa''], [''k'', ''0''], [''sig'', ''zb32'']],
            Content = ''{}'', Sig = ''sg''\<rparr>"
    by (simp add: Publish_def testClient_def wrapRecord_def Finalize_def Find_def tag_matches_def
          KindNodeAnnouncement_def KindLightningInformation_def SignEvent_def IsFinalized_def
          signWithLn_def testSigner_def eval_verify GetIdentifier_def parseIdentifier_def
          eval_num nat_digits.simps)
  have v1: "Publish testEnv testSigner testClient 100 ''{}'' 1 [''x'']
     = Inr \<lparr>ID = ''id:{}'', PubKey = ''npubA'', CreatedAt = 100, Kind = 38171,
            Tags = [[''d'', ''1:02aa:mainnet:x''], [''k'', ''1'']],
            Content = ''{}'', Sig = ''sg''\<rparr>"
    by (simp add: Publish_def testClient_def wrapRecord_def Finalize_def Find_def tag_matches_def
          KindNodeAnnouncement_def KindLightningInformation_def SignEvent_def IsFinalized_def
          signWithLn_def testSigner_def eval_verify GetIdentifier_def parseIdentifier_def
          eval_num nat_digits.simps)
  show ?thesis using ns ls p0 p1 v0 v1 by blast
qed

section \<open>The fetch and merge pipeline\<close>










































end
